(* ===== verification/Prelude.thy ===== *)
theory Prelude
  imports Main "HOL-Library.Multiset" "HOL-Library.List_Lexorder" "HOL-Library.Char_ord"
begin

text \<open>
  Shared vocabulary of the development: the collections of rewrite rules that the component
  theories extend, and the facts on lists, options and maps that several of them use.

  Go strings are byte sequences. They are modelled by \<^typ>\<open>string\<close>, that is
  \<^typ>\<open>char list\<close>, where a \<^typ>\<open>char\<close> is one byte; \<^term>\<open>length\<close> is Go's
  \<open>len\<close>, and the order of \<open>List_Lexorder\<close> and \<open>Char_ord\<close> is Go's bytewise
  string order.
\<close>

type_synonym bytes = string

named_theorems kind_defs \<open>the numeric values of the event kinds\<close>
named_theorems store_simps \<open>what a bucket operation does to every read of the database\<close>
named_theorems hook_defs \<open>the definitions of the relay policies\<close>

subsection \<open>Lists\<close>

lemma filter_eq_NilD: "filter P xs = [] \<Longrightarrow> x \<in> set xs \<Longrightarrow> \<not> P x"
  by (auto simp: filter_empty_conv)

lemma find_Some_cases:
  "find P xs = Some x \<Longrightarrow> x \<in> set xs \<and> P x"
  by (auto simp: find_Some_iff in_set_conv_nth)

lemma sort_key_unique:
  \<comment> \<open>With distinct keys there is only one sorted arrangement of a collection.\<close>
  assumes "mset xs = mset ys" and "distinct (map f xs)"
  shows "sort_key f xs = sort_key f ys"
  using assms by (intro sort_key_inj_key_eq) (auto simp: distinct_map)

subsection \<open>Maps and association lists\<close>

lemma map_of_distinct_mset:
  assumes "mset xs = mset ys" and "distinct (map fst xs)"
  shows "map_of xs = map_of ys"
proof -
  have "distinct (map fst ys)"
    using assms by (metis mset_eq_imp_distinct_iff mset_map)
  moreover have "set xs = set ys" using assms(1) by (metis set_mset_mset)
  ultimately show ?thesis using assms(2) by (simp add: map_of_inject_set)
qed

lemma map_of_keys_iff: "(\<exists>v. map_of ps k = Some v) \<longleftrightarrow> k \<in> fst ` set ps"
  by (metis domIff dom_map_of_conv_image_fst option.exhaust option.simps(3))

end
