(* ===== verification/GoStd.thy ===== *)
theory GoStd
  imports Prelude
begin

text \<open>
  The parts of Go's standard library that the program calls on strings and integers:
  \<open>strings.Contains\<close>, \<open>strings.TrimSpace\<close>, \<open>strconv.ParseInt\<close>,
  \<open>strconv.Itoa\<close>, \<open>strconv.Atoi\<close>, and the 64-bit arithmetic of
  \<open>time.Duration\<close>. JSON decoding is in \<open>GoJson\<close>.
\<close>

subsection \<open>Bytes and digits\<close>

definition byte :: "char \<Rightarrow> int" where
  "byte c = of_char c"

definition is_digit :: "char \<Rightarrow> bool" where
  "is_digit c \<longleftrightarrow> 48 \<le> byte c \<and> byte c \<le> 57"

definition digit_val :: "char \<Rightarrow> int" where
  "digit_val c = byte c - 48"

definition digit_char :: "int \<Rightarrow> char" where
  "digit_char n = char_of (48 + n)"

lemma byte_digit_char: "0 \<le> n \<Longrightarrow> n < 10 \<Longrightarrow> byte (digit_char n) = 48 + n"
  by (simp add: byte_def digit_char_def)

lemma is_digit_digit_char [simp]: "0 \<le> n \<Longrightarrow> n < 10 \<Longrightarrow> is_digit (digit_char n)"
  by (simp add: is_digit_def byte_digit_char)

lemma digit_val_digit_char [simp]: "0 \<le> n \<Longrightarrow> n < 10 \<Longrightarrow> digit_val (digit_char n) = n"
  by (simp add: digit_val_def byte_digit_char)

subsection \<open>\<open>strings.Contains\<close>\<close>

fun has_prefix :: "bytes \<Rightarrow> bytes \<Rightarrow> bool" where
  "has_prefix s [] = True"
| "has_prefix [] (p # ps) = False"
| "has_prefix (c # cs) (p # ps) = (c = p \<and> has_prefix cs ps)"

fun contains :: "bytes \<Rightarrow> bytes \<Rightarrow> bool" where
  "contains [] p = (p = [])"
| "contains (c # cs) p = (has_prefix (c # cs) p \<or> contains cs p)"

lemma has_prefix_iff: "has_prefix s p \<longleftrightarrow> (\<exists>t. s = p @ t)"
  by (induction s p rule: has_prefix.induct) auto

lemma contains_iff: "contains s p \<longleftrightarrow> (\<exists>a b. s = a @ p @ b)"
proof (induction s)
  case Nil
  then show ?case by auto
next
  case (Cons c cs)
  have "(\<exists>a b. c # cs = a @ p @ b) \<longleftrightarrow> (\<exists>b. c # cs = p @ b) \<or> (\<exists>a b. cs = a @ p @ b)"
    by (auto simp: Cons_eq_append_conv)
  then show ?case using Cons.IH by (simp add: has_prefix_iff)
qed

lemma contains_prefix_appendI: "contains s p \<Longrightarrow> contains (s @ t) p"
  unfolding contains_iff by (metis append.assoc)

subsection \<open>\<open>strings.TrimSpace\<close>\<close>

text \<open>
  \<open>TrimSpace\<close> removes the runes of \<open>unicode.IsSpace\<close> at both ends. They are listed
  by their UTF-8 encodings; an encoding never starts inside the encoding of another rune, so
  stripping byte prefixes (and suffixes) is stripping runes.
\<close>

definition space_runes :: "bytes list" where
  "space_runes =
     [[CHR 0x09], [CHR 0x0A], [CHR 0x0B], [CHR 0x0C], [CHR 0x0D], [CHR 0x20],
      [CHR 0xC2, CHR 0x85], [CHR 0xC2, CHR 0xA0], [CHR 0xE1, CHR 0x9A, CHR 0x80],
      [CHR 0xE2, CHR 0x80, CHR 0x80], [CHR 0xE2, CHR 0x80, CHR 0x81],
      [CHR 0xE2, CHR 0x80, CHR 0x82], [CHR 0xE2, CHR 0x80, CHR 0x83],
      [CHR 0xE2, CHR 0x80, CHR 0x84], [CHR 0xE2, CHR 0x80, CHR 0x85],
      [CHR 0xE2, CHR 0x80, CHR 0x86], [CHR 0xE2, CHR 0x80, CHR 0x87],
      [CHR 0xE2, CHR 0x80, CHR 0x88], [CHR 0xE2, CHR 0x80, CHR 0x89],
      [CHR 0xE2, CHR 0x80, CHR 0x8A], [CHR 0xE2, CHR 0x80, CHR 0xA8],
      [CHR 0xE2, CHR 0x80, CHR 0xA9], [CHR 0xE2, CHR 0x80, CHR 0xAF],
      [CHR 0xE2, CHR 0x81, CHR 0x9F], [CHR 0xE3, CHR 0x80, CHR 0x80]]"

text \<open>\<open>trim_left ws s\<close> drops members of \<open>ws\<close> from the front while there is one.\<close>

function trim_left :: "bytes list \<Rightarrow> bytes \<Rightarrow> bytes" where
  "trim_left ws s =
     (case find (\<lambda>w. w \<noteq> [] \<and> has_prefix s w) ws of
        None \<Rightarrow> s
      | Some w \<Rightarrow> trim_left ws (drop (length w) s))"
  by pat_completeness auto
termination
proof (relation "measure (\<lambda>(ws, s). length s)")
  fix ws s w
  assume "find (\<lambda>w. w \<noteq> [] \<and> has_prefix s w) ws = Some w"
  then have "w \<noteq> []" and "has_prefix s w" by (auto dest: find_Some_cases)
  then have "0 < length w" and "s \<noteq> []" by (auto simp: has_prefix_iff)
  then show "((ws, drop (length w) s), (ws, s)) \<in> measure (\<lambda>(ws, s). length s)" by simp
qed simp

declare trim_left.simps [simp del]

definition trim_space :: "bytes \<Rightarrow> bytes" where
  "trim_space s = rev (trim_left (map rev space_runes) (rev (trim_left space_runes s)))"

lemma trim_left_id: "(\<And>w. w \<in> set ws \<Longrightarrow> w \<noteq> [] \<Longrightarrow> \<not> has_prefix s w) \<Longrightarrow> trim_left ws s = s"
  by (subst trim_left.simps) (auto simp: find_None_iff split: option.splits dest: find_Some_cases)

lemma trim_left_suffix: "\<exists>t. s = t @ trim_left ws s"
proof (induction ws s rule: trim_left.induct)
  case (1 ws s)
  show ?case
  proof (cases "find (\<lambda>w. w \<noteq> [] \<and> has_prefix s w) ws")
    case None
    then show ?thesis by (simp add: trim_left.simps [of ws s])
  next
    case (Some w)
    then obtain t where "drop (length w) s = t @ trim_left ws (drop (length w) s)"
      using "1.IH" by blast
    then have "s = (take (length w) s @ t) @ trim_left ws (drop (length w) s)"
      by (metis append_take_drop_id append_assoc)
    moreover have "trim_left ws s = trim_left ws (drop (length w) s)"
      using Some by (simp add: trim_left.simps [of ws s])
    ultimately show ?thesis by metis
  qed
qed

lemma trim_left_Nil [simp]: "trim_left ws [] = []"
  using trim_left_suffix [of "[]" ws] by simp

lemma trim_space_nonempty: "trim_space s \<noteq> [] \<Longrightarrow> s \<noteq> []"
  by (auto simp: trim_space_def)

subsection \<open>\<open>strconv\<close>: decimal integers of 64 bits\<close>

definition int64_ok :: "int \<Rightarrow> bool" where
  "int64_ok n \<longleftrightarrow> - (2 ^ 63) \<le> n \<and> n < 2 ^ 63"

definition digits_val :: "bytes \<Rightarrow> int" where
  "digits_val ds = foldl (\<lambda>a d. 10 * a + digit_val d) 0 ds"

text \<open>
  \<open>strconv.ParseInt(s, 10, 64)\<close>: an optional sign, then at least one digit and nothing
  else; out of range is an error. \<open>None\<close> stands for the error.
\<close>

definition parse_int :: "bytes \<Rightarrow> int option" where
  "parse_int s =
     (let (neg, ds) = (case s of
            [] \<Rightarrow> (False, [])
          | c # cs \<Rightarrow> (if c = CHR ''-'' then (True, cs)
                      else if c = CHR ''+'' then (False, cs) else (False, c # cs)))
      in if ds = [] \<or> \<not> list_all is_digit ds then None
         else (let n = (if neg then - digits_val ds else digits_val ds)
               in if int64_ok n then Some n else None))"

function nat_digits :: "int \<Rightarrow> bytes" where
  "nat_digits n = (if n < 10 then [digit_char n] else nat_digits (n div 10) @ [digit_char (n mod 10)])"
  by pat_completeness auto
termination
  by (relation "measure nat") auto

declare nat_digits.simps [simp del]

text \<open>\<open>strconv.Itoa\<close>.\<close>

definition itoa :: "int \<Rightarrow> bytes" where
  "itoa n = (if n < 0 then CHR ''-'' # nat_digits (- n) else nat_digits n)"

lemma digits_val_snoc: "digits_val (ds @ [d]) = 10 * digits_val ds + digit_val d"
  by (simp add: digits_val_def)

lemma nat_digits_props:
  "0 \<le> n \<Longrightarrow>
   nat_digits n \<noteq> [] \<and> list_all is_digit (nat_digits n) \<and> digits_val (nat_digits n) = n"
proof (induction n rule: nat_digits.induct)
  case (1 n)
  show ?case
  proof (cases "n < 10")
    case True
    with "1.prems" show ?thesis by (simp add: nat_digits.simps [of n] digits_val_def)
  next
    case False
    with 1 show ?thesis by (simp add: nat_digits.simps [of n] digits_val_snoc)
  qed
qed

lemma sign_not_digit [simp]: "\<not> is_digit CHR ''-''" "\<not> is_digit CHR ''+''"
  by (simp_all add: is_digit_def byte_def)

text \<open>Formatting and parsing are inverse on the 64-bit integers.\<close>

lemma parse_int_itoa_any: "parse_int (itoa n) = (if int64_ok n then Some n else None)"
proof (cases "n < 0")
  case True
  then show ?thesis using nat_digits_props [of "- n"]
    by (simp add: parse_int_def itoa_def Let_def)
next
  case False
  let ?ds = "nat_digits n"
  have ds: "?ds \<noteq> []" "list_all is_digit ?ds" "digits_val ?ds = n"
    using nat_digits_props [of n] False by auto
  then obtain c cs where "?ds = c # cs" by (cases ?ds) auto
  moreover from this ds have "c \<noteq> CHR ''-''" "c \<noteq> CHR ''+''"
    by (auto simp: list_all_iff)
  ultimately show ?thesis using False ds
    by (simp add: parse_int_def itoa_def Let_def)
qed

lemma parse_int_itoa: "int64_ok n \<Longrightarrow> parse_int (itoa n) = Some n"
  by (simp add: parse_int_itoa_any)

lemma parse_int_range: "parse_int s = Some n \<Longrightarrow> int64_ok n"
  by (auto simp: parse_int_def Let_def split: if_splits list.splits)

lemma itoa_minus: "hd (itoa n) = CHR ''-'' \<longleftrightarrow> n < 0"
  using nat_digits_props [of n] by (cases "nat_digits n") (auto simp: itoa_def)

lemma itoa_inj: "itoa m = itoa n \<Longrightarrow> m = n"
proof (cases "n < 0")
  case True
  moreover assume "itoa m = itoa n"
  moreover from this have "m < 0" using True itoa_minus by metis
  ultimately have "digits_val (nat_digits (- m)) = digits_val (nat_digits (- n))"
    by (simp add: itoa_def)
  then show ?thesis using nat_digits_props [of "- m"] nat_digits_props [of "- n"] \<open>m < 0\<close> True by simp
next
  case False
  moreover assume "itoa m = itoa n"
  moreover from this have "\<not> m < 0" using False itoa_minus by metis
  ultimately have "digits_val (nat_digits m) = digits_val (nat_digits n)"
    by (simp add: itoa_def)
  then show ?thesis using nat_digits_props [of m] nat_digits_props [of n] \<open>\<not> m < 0\<close> False by simp
qed

lemma itoa_nonempty [simp]: "itoa n \<noteq> []"
  using nat_digits_props [of n] by (auto simp: itoa_def)

subsection \<open>64-bit wrap-around\<close>

definition wrap64 :: "int \<Rightarrow> int" where
  "wrap64 n = (n + 2 ^ 63) mod 2 ^ 64 - 2 ^ 63"

lemma wrap64_id: "int64_ok n \<Longrightarrow> wrap64 n = n"
  by (simp add: wrap64_def int64_ok_def)

lemma wrap64_ok: "int64_ok (wrap64 n)"
proof -
  have "0 \<le> (n + 2 ^ 63) mod 2 ^ 64" "(n + 2 ^ 63) mod 2 ^ 64 < (2 ^ 64 :: int)" by simp_all
  then show ?thesis by (simp add: wrap64_def int64_ok_def)
qed

end
