(* ===== verification/GoJson.thy ===== *)
theory GoJson
  imports GoStd
begin

text \<open>
  What the program uses of Go's \<open>encoding/json\<close>: the byte-at-a-time scanner
  (\<open>checkValid\<close>, with its stack of parse states and its nesting limit of 10000), the
  unquoting of string literals (escapes, surrogate pairs, replacement of invalid UTF-8), and
  the decoding rules of \<open>Unmarshal\<close> for the targets that occur: strings, booleans,
  pointers, string slices, \<open>map[string]json.RawMessage\<close>, structs and \<open>any\<close>.

  The scanner reads one byte per step, so it is a structural recursion on the text and needs
  no fuel. A number keeps its literal; a \<open>RawMessage\<close> is the value it spells. An
  unmarshalling call returns the target's final value together with the flag "an error was
  returned": a type error does not stop the decoder, it goes on with the next member.
\<close>

datatype json =
    JNull
  | JBool bool
  | JNum bytes
  | JStr bytes
  | JArr "json list"
  | JObj "(bytes \<times> json) list"

subsection \<open>String literals\<close>

definition hex_val :: "char \<Rightarrow> int option" where
  "hex_val c =
     (let b = byte c in
      if 48 \<le> b \<and> b \<le> 57 then Some (b - 48)
      else if 97 \<le> b \<and> b \<le> 102 then Some (b - 87)
      else if 65 \<le> b \<and> b \<le> 70 then Some (b - 55)
      else None)"

text \<open>\<open>utf8.EncodeRune\<close> and the width \<open>utf8.DecodeRune\<close> reads (0 for an invalid lead).\<close>

definition replacement :: bytes where
  "replacement = [CHR 0xEF, CHR 0xBF, CHR 0xBD]"

definition encode_rune :: "int \<Rightarrow> bytes" where
  "encode_rune r =
     (if r < 128 then [char_of r]
      else if r < 2048 then [char_of (192 + r div 64), char_of (128 + r mod 64)]
      else if 1114111 < r \<or> (55296 \<le> r \<and> r < 57344) then replacement
      else if r < 65536 then
        [char_of (224 + r div 4096), char_of (128 + r div 64 mod 64), char_of (128 + r mod 64)]
      else
        [char_of (240 + r div 262144), char_of (128 + r div 4096 mod 64),
         char_of (128 + r div 64 mod 64), char_of (128 + r mod 64)])"

definition cont_in :: "int \<Rightarrow> int \<Rightarrow> bytes \<Rightarrow> nat \<Rightarrow> bool" where
  "cont_in lo hi s i \<longleftrightarrow> i < length s \<and> lo \<le> byte (s ! i) \<and> byte (s ! i) \<le> hi"

definition utf8_width :: "bytes \<Rightarrow> nat" where
  "utf8_width s =
     (let b = byte (hd s); c = cont_in 128 191 s in
      if s = [] then 0
      else if b < 128 then 1
      else if 194 \<le> b \<and> b \<le> 223 then (if c 1 then 2 else 0)
      else if b = 224 then (if cont_in 160 191 s 1 \<and> c 2 then 3 else 0)
      else if b = 237 then (if cont_in 128 159 s 1 \<and> c 2 then 3 else 0)
      else if 225 \<le> b \<and> b \<le> 239 then (if c 1 \<and> c 2 then 3 else 0)
      else if b = 240 then (if cont_in 144 191 s 1 \<and> c 2 \<and> c 3 then 4 else 0)
      else if 241 \<le> b \<and> b \<le> 243 then (if c 1 \<and> c 2 \<and> c 3 then 4 else 0)
      else if b = 244 then (if cont_in 128 143 s 1 \<and> c 2 \<and> c 3 then 4 else 0)
      else 0)"

text \<open>\<open>getu4\<close>: the value of a \<open>\uXXXX\<close> escape at the front.\<close>

fun getu4 :: "bytes \<Rightarrow> int option" where
  "getu4 (b # u # h1 # h2 # h3 # h4 # _) =
     (if b = CHR 0x5C \<and> u = CHR ''u'' then
        (case (hex_val h1, hex_val h2, hex_val h3, hex_val h4) of
           (Some x1, Some x2, Some x3, Some x4) \<Rightarrow> Some (4096 * x1 + 256 * x2 + 16 * x3 + x4)
         | _ \<Rightarrow> None)
      else None)"
| "getu4 _ = None"

definition is_high :: "int \<Rightarrow> bool" where
  "is_high r \<longleftrightarrow> 55296 \<le> r \<and> r < 56320"

definition is_low :: "int \<Rightarrow> bool" where
  "is_low r \<longleftrightarrow> 56320 \<le> r \<and> r < 57344"

definition esc_char :: "char \<Rightarrow> char" where
  "esc_char e =
     (if e = CHR ''b'' then CHR 0x08 else if e = CHR ''f'' then CHR 0x0C
      else if e = CHR ''n'' then CHR 0x0A else if e = CHR ''r'' then CHR 0x0D
      else if e = CHR ''t'' then CHR 0x09 else e)"

text \<open>
  \<open>unquoteBytes\<close> on the text between the quotes of a literal the scanner accepted.
\<close>

function unquote :: "bytes \<Rightarrow> bytes" where
  "unquote [] = []"
| "unquote (c # cs) =
     (if c = CHR 0x5C then
        (if cs = [] then []
         else if hd cs = CHR ''u'' then
           (case getu4 (c # cs) of
              None \<Rightarrow> []
            | Some r \<Rightarrow>
                (if is_high r \<or> is_low r then
                   (case getu4 (drop 5 cs) of
                      Some r1 \<Rightarrow>
                        (if is_high r \<and> is_low r1 then
                           encode_rune ((r - 55296) * 1024 + (r1 - 56320) + 65536)
                             @ unquote (drop 11 cs)
                         else replacement @ unquote (drop 5 cs))
                    | None \<Rightarrow> replacement @ unquote (drop 5 cs))
                 else encode_rune r @ unquote (drop 5 cs)))
         else esc_char (hd cs) # unquote (tl cs))
      else if byte c < 128 then c # unquote cs
      else (let n = utf8_width (c # cs) in
            if n = 0 then replacement @ unquote cs
            else take n (c # cs) @ unquote (drop (n - 1) cs)))"
  by pat_completeness auto
termination
  by (relation "measure length") (auto simp: less_Suc_eq_le)

declare unquote.simps(2) [simp del]

text \<open>
  Names of struct fields match a key up to Unicode simple case folding. The field names here
  are ASCII, and the only other runes that fold to ASCII letters are U+017F (to S) and
  U+212A (to K).
\<close>

fun fold_name :: "bytes \<Rightarrow> bytes" where
  "fold_name [] = []"
| "fold_name (c # cs) =
     (if c = CHR 0xC5 \<and> take 1 cs = [CHR 0xBF] then CHR ''S'' # fold_name (drop 1 cs)
      else if c = CHR 0xE2 \<and> take 2 cs = [CHR 0x84, CHR 0xAA] then CHR ''K'' # fold_name (drop 2 cs)
      else (if 97 \<le> byte c \<and> byte c \<le> 122 then char_of (byte c - 32) else c) # fold_name cs)"

definition field_matches :: "bytes \<Rightarrow> bytes \<Rightarrow> bool" where
  "field_matches name key \<longleftrightarrow> key = name \<or> fold_name key = fold_name name"

subsection \<open>The scanner\<close>

text \<open>
  A frame is an open array (its elements, last first), an open object that wants a key, or an
  open object that wants the value of a key.
\<close>

datatype frame =
    FArr "json list"
  | FKey "(bytes \<times> json) list"
  | FVal "(bytes \<times> json) list" bytes

datatype num_state = NNeg | NZero | NInt | NDot | NFrac | NExp | NExpSign | NExpDig

datatype mode =
    MValue | MValueOrEnd | MKey | MKeyOrEnd
  | MColon | MAfterVal | MAfterElem | MTop json
  | MStr bytes | MEsc bytes | MHex nat bytes
  | MNum num_state bytes
  | MLit bytes json

definition is_space :: "char \<Rightarrow> bool" where
  "is_space c \<longleftrightarrow> c = CHR '' '' \<or> c = CHR 0x09 \<or> c = CHR 0x0D \<or> c = CHR 0x0A"

definition max_depth :: int where
  "max_depth = 10000"

definition push :: "frame \<Rightarrow> frame list \<Rightarrow> frame list option" where
  "push f st = (if int (length st) < max_depth then Some (f # st) else None)"

fun deliver :: "json \<Rightarrow> frame list \<Rightarrow> (mode \<times> frame list) option" where
  "deliver j [] = Some (MTop j, [])"
| "deliver j (FArr xs # st) = Some (MAfterElem, FArr (j # xs) # st)"
| "deliver j (FVal ms k # st) = Some (MAfterVal, FKey ((k, j) # ms) # st)"
| "deliver (JStr k) (FKey ms # st) = Some (MColon, FVal ms k # st)"
| "deliver _ (FKey ms # st) = None"

definition begin_value :: "char \<Rightarrow> frame list \<Rightarrow> (mode \<times> frame list) option" where
  "begin_value c st =
     (if c = CHR ''{'' then map_option (Pair MKeyOrEnd) (push (FKey []) st)
      else if c = CHR ''['' then map_option (Pair MValueOrEnd) (push (FArr []) st)
      else if c = CHR 0x22 then Some (MStr [], st)
      else if c = CHR ''-'' then Some (MNum NNeg [c], st)
      else if c = CHR ''0'' then Some (MNum NZero [c], st)
      else if is_digit c then Some (MNum NInt [c], st)
      else if c = CHR ''t'' then Some (MLit ''rue'' (JBool True), st)
      else if c = CHR ''f'' then Some (MLit ''alse'' (JBool False), st)
      else if c = CHR ''n'' then Some (MLit ''ull'' JNull, st)
      else None)"

fun num_next :: "num_state \<Rightarrow> char \<Rightarrow> num_state option" where
  "num_next NNeg c = (if c = CHR ''0'' then Some NZero else if is_digit c then Some NInt else None)"
| "num_next NInt c =
     (if is_digit c then Some NInt
      else if c = CHR ''.'' then Some NDot
      else if c = CHR ''e'' \<or> c = CHR ''E'' then Some NExp else None)"
| "num_next NZero c =
     (if c = CHR ''.'' then Some NDot
      else if c = CHR ''e'' \<or> c = CHR ''E'' then Some NExp else None)"
| "num_next NDot c = (if is_digit c then Some NFrac else None)"
| "num_next NFrac c =
     (if is_digit c then Some NFrac
      else if c = CHR ''e'' \<or> c = CHR ''E'' then Some NExp else None)"
| "num_next NExp c =
     (if c = CHR ''+'' \<or> c = CHR ''-'' then Some NExpSign
      else if is_digit c then Some NExpDig else None)"
| "num_next NExpSign c = (if is_digit c then Some NExpDig else None)"
| "num_next NExpDig c = (if is_digit c then Some NExpDig else None)"

definition num_final :: "num_state \<Rightarrow> bool" where
  "num_final n \<longleftrightarrow> n = NZero \<or> n = NInt \<or> n = NFrac \<or> n = NExpDig"

text \<open>\<open>stateEndValue\<close> and \<open>stateEndTop\<close>: the byte after a complete value.\<close>

fun end_step :: "mode \<times> frame list \<Rightarrow> char \<Rightarrow> (mode \<times> frame list) option" where
  "end_step (m, st) c =
     (if is_space c then Some (m, st)
      else (case (m, st) of
          (MColon, _) \<Rightarrow> (if c = CHR '':'' then Some (MValue, st) else None)
        | (MAfterVal, FKey ms # st') \<Rightarrow>
            (if c = CHR '','' then Some (MKey, st)
             else if c = CHR ''}'' then deliver (JObj (rev ms)) st' else None)
        | (MAfterElem, FArr xs # st') \<Rightarrow>
            (if c = CHR '','' then Some (MValue, st)
             else if c = CHR '']'' then deliver (JArr (rev xs)) st' else None)
        | _ \<Rightarrow> None))"

fun step :: "mode \<times> frame list \<Rightarrow> char \<Rightarrow> (mode \<times> frame list) option" where
  "step (MValue, st) c = (if is_space c then Some (MValue, st) else begin_value c st)"
| "step (MValueOrEnd, st) c =
     (if is_space c then Some (MValueOrEnd, st)
      else if c = CHR '']'' then end_step (MAfterElem, st) c else begin_value c st)"
| "step (MKey, st) c =
     (if is_space c then Some (MKey, st) else if c = CHR 0x22 then Some (MStr [], st) else None)"
| "step (MKeyOrEnd, st) c =
     (if is_space c then Some (MKeyOrEnd, st)
      else if c = CHR ''}'' then end_step (MAfterVal, st) c
      else if c = CHR 0x22 then Some (MStr [], st) else None)"
| "step (MStr acc, st) c =
     (if c = CHR 0x22 then deliver (JStr (unquote (rev acc))) st
      else if c = CHR 0x5C then Some (MEsc (c # acc), st)
      else if byte c < 32 then None
      else Some (MStr (c # acc), st))"
| "step (MEsc acc, st) c =
     (if c \<in> set [CHR ''b'', CHR ''f'', CHR ''n'', CHR ''r'', CHR ''t'', CHR 0x5C, CHR ''/'', CHR 0x22]
      then Some (MStr (c # acc), st)
      else if c = CHR ''u'' then Some (MHex 0 (c # acc), st)
      else None)"
| "step (MHex n acc, st) c =
     (if hex_val c = None then None
      else if n = 3 then Some (MStr (c # acc), st)
      else Some (MHex (Suc n) (c # acc), st))"
| "step (MNum ns acc, st) c =
     (case num_next ns c of
        Some ns' \<Rightarrow> Some (MNum ns' (c # acc), st)
      | None \<Rightarrow>
          (if num_final ns then
             (case deliver (JNum (rev acc)) st of None \<Rightarrow> None | Some s \<Rightarrow> end_step s c)
           else None))"
| "step (MLit xs j, st) c =
     (case xs of
        [] \<Rightarrow> None
      | x # xs' \<Rightarrow> (if c \<noteq> x then None
                   else if xs' = [] then deliver j st else Some (MLit xs' j, st)))"
| "step (m, st) c = end_step (m, st) c"

fun run :: "mode \<times> frame list \<Rightarrow> bytes \<Rightarrow> (mode \<times> frame list) option" where
  "run s [] = Some s"
| "run s (c # cs) = (case step s c of None \<Rightarrow> None | Some s' \<Rightarrow> run s' cs)"

text \<open>
  At the end of the input the scanner is fed one space and must then have completed a
  top-level value (\<open>scanner.eof\<close>).
\<close>

definition json_parse :: "bytes \<Rightarrow> json option" where
  "json_parse s =
     (case run (MValue, []) (s @ [CHR '' '']) of
        Some (MTop j, _) \<Rightarrow> Some j
      | _ \<Rightarrow> None)"

definition json_valid :: "bytes \<Rightarrow> bool" where
  "json_valid s \<longleftrightarrow> json_parse s \<noteq> None"

lemma run_append: "run s (xs @ ys) = (case run s xs of None \<Rightarrow> None | Some s' \<Rightarrow> run s' ys)"
  by (induction xs arbitrary: s) (auto split: option.splits)

subsection \<open>Decoding into Go values\<close>

text \<open>
  Every decoder takes the target's current value, paired with the error flag so far, and
  returns both. \<open>null\<close> leaves strings and booleans alone and resets pointers.
\<close>

definition decode_string :: "json \<Rightarrow> bytes \<times> bool \<Rightarrow> bytes \<times> bool" where
  "decode_string j t =
     (case j of JNull \<Rightarrow> t | JStr s \<Rightarrow> (s, snd t) | _ \<Rightarrow> (fst t, True))"

definition decode_bool :: "json \<Rightarrow> bool \<times> bool \<Rightarrow> bool \<times> bool" where
  "decode_bool j t =
     (case j of JNull \<Rightarrow> t | JBool b \<Rightarrow> (b, snd t) | _ \<Rightarrow> (fst t, True))"

definition decode_int :: "json \<Rightarrow> int \<times> bool \<Rightarrow> int \<times> bool" where
  "decode_int j t =
     (case j of
        JNull \<Rightarrow> t
      | JNum lit \<Rightarrow> (case parse_int lit of Some n \<Rightarrow> (n, snd t) | None \<Rightarrow> (fst t, True))
      | _ \<Rightarrow> (fst t, True))"

text \<open>
  A pointer target is allocated (zero valued) before the value is looked at, so a value of
  the wrong type leaves a non-nil pointer behind.
\<close>

definition decode_int_ptr :: "json \<Rightarrow> int option \<times> bool \<Rightarrow> int option \<times> bool" where
  "decode_int_ptr j t =
     (let cur = (case fst t of None \<Rightarrow> 0 | Some n \<Rightarrow> n) in
      case j of
        JNull \<Rightarrow> (None, snd t)
      | JNum lit \<Rightarrow> (case parse_int lit of Some n \<Rightarrow> (Some n, snd t) | None \<Rightarrow> (Some cur, True))
      | _ \<Rightarrow> (Some cur, True))"

definition decode_bool_ptr :: "json \<Rightarrow> bool option \<times> bool \<Rightarrow> bool option \<times> bool" where
  "decode_bool_ptr j t =
     (let cur = (case fst t of None \<Rightarrow> False | Some b \<Rightarrow> b) in
      case j of
        JNull \<Rightarrow> (None, snd t)
      | JBool b \<Rightarrow> (Some b, snd t)
      | _ \<Rightarrow> (Some cur, True))"

text \<open>Decoding into \<open>[]string\<close>: only whether it fails is used.\<close>

definition string_slice_ok :: "json \<Rightarrow> bool" where
  "string_slice_ok j =
     (case j of
        JNull \<Rightarrow> True
      | JArr xs \<Rightarrow> list_all (\<lambda>x. x = JNull \<or> (case x of JStr _ \<Rightarrow> True | _ \<Rightarrow> False)) xs
      | _ \<Rightarrow> False)"

text \<open>Decoding into a struct: one member after the other, later members overwrite.\<close>

definition decode_struct ::
  "(bytes \<times> json \<Rightarrow> 'a \<times> bool \<Rightarrow> 'a \<times> bool) \<Rightarrow> 'a \<Rightarrow> json \<Rightarrow> 'a \<times> bool" where
  "decode_struct member zero j =
     (case j of
        JNull \<Rightarrow> (zero, False)
      | JObj ms \<Rightarrow> fold member ms (zero, False)
      | _ \<Rightarrow> (zero, True))"

text \<open>\<open>json.Unmarshal\<close> of a text into a struct; a syntax error leaves the zero value.\<close>

definition unmarshal_struct ::
  "(bytes \<times> json \<Rightarrow> 'a \<times> bool \<Rightarrow> 'a \<times> bool) \<Rightarrow> 'a \<Rightarrow> bytes \<Rightarrow> 'a \<times> bool" where
  "unmarshal_struct member zero s =
     (case json_parse s of None \<Rightarrow> (zero, True) | Some j \<Rightarrow> decode_struct member zero j)"

text \<open>\<open>map[string]json.RawMessage\<close>: the last of several equal keys wins.\<close>

definition decode_raw_map :: "json \<Rightarrow> (bytes \<rightharpoonup> json) option" where
  "decode_raw_map j =
     (case j of
        JNull \<Rightarrow> Some Map.empty
      | JObj ms \<Rightarrow> Some (map_of (rev ms))
      | _ \<Rightarrow> None)"

definition unmarshal_raw_map :: "bytes \<Rightarrow> (bytes \<rightharpoonup> json) option" where
  "unmarshal_raw_map s =
     (case json_parse s of None \<Rightarrow> None | Some j \<Rightarrow> decode_raw_map j)"

text \<open>
  Decoding into \<open>any\<close> converts every number with \<open>strconv.ParseFloat(_, 64)\<close>,
  which fails exactly when the value rounds to infinity. As in the library, the written
  exponent stops growing once it has reached 10000.
\<close>

definition exp_digits :: "bytes \<Rightarrow> int" where
  "exp_digits ds = foldl (\<lambda>e d. if e < 10000 then 10 * e + digit_val d else e) 0 ds"

definition float64_ok :: "bytes \<Rightarrow> bool" where
  "float64_ok lit =
     (let s = (if lit \<noteq> [] \<and> hd lit = CHR ''-'' then tl lit else lit);
          ip = takeWhile is_digit s;
          r = dropWhile is_digit s;
          fp = (if r \<noteq> [] \<and> hd r = CHR ''.'' then takeWhile is_digit (tl r) else []);
          r' = (if r \<noteq> [] \<and> hd r = CHR ''.'' then dropWhile is_digit (tl r) else r);
          ex = (if r' = [] then 0
                else (let t = tl r' in
                      if t \<noteq> [] \<and> hd t = CHR ''-'' then - exp_digits (tl t)
                      else if t \<noteq> [] \<and> hd t = CHR ''+'' then exp_digits (tl t)
                      else exp_digits t));
          m = foldl (\<lambda>a d. 10 * a + digit_val d) 0 (ip @ fp);
          e = ex - int (length fp)
      in m = 0 \<or> (if 0 \<le> e then m * 10 ^ nat e < 2 ^ 1024 - 2 ^ 970
                   else m < (2 ^ 1024 - 2 ^ 970) * 10 ^ nat (- e)))"

fun json_floats_ok :: "json \<Rightarrow> bool" where
  "json_floats_ok (JNum lit) = float64_ok lit"
| "json_floats_ok (JArr xs) = list_all json_floats_ok xs"
| "json_floats_ok (JObj ms) = list_all (\<lambda>m. json_floats_ok (snd m)) ms"
| "json_floats_ok _ = True"

text \<open>\<open>json.Unmarshal\<close> into \<open>any\<close> succeeds.\<close>

definition unmarshal_any_ok :: "bytes \<Rightarrow> bool" where
  "unmarshal_any_ok s = (case json_parse s of None \<Rightarrow> False | Some j \<Rightarrow> json_floats_ok j)"

lemma json_validD: "unmarshal_any_ok s \<Longrightarrow> json_valid s"
  by (auto simp: unmarshal_any_ok_def json_valid_def split: option.splits)

lemma unmarshal_raw_map_valid: "unmarshal_raw_map s = Some m \<Longrightarrow> json_valid s"
  by (auto simp: unmarshal_raw_map_def json_valid_def split: option.splits)

lemma unmarshal_struct_valid: "\<not> snd (unmarshal_struct f z s) \<Longrightarrow> json_valid s"
  by (auto simp: unmarshal_struct_def json_valid_def split: option.splits)

end
