(* ===== verification/Nostr.thy ===== *)
theory Nostr
  imports GoStd
begin

text \<open>
  The types of the \<open>go-nostr\<close> library that the program handles, with the fields it reads,
  and the library functions it calls as parameters of the model.

  \<open>Tags.Find\<close> is code outside the repository: the definitions take it as an argument,
  the field \<open>tags_find\<close> of the record \<open>ext\<close>, and what its documentation promises is
  the locale \<open>tag_finder\<close>. The text of a JSON decoding error only ever ends up inside a
  reason; it is the field \<open>json_error\<close>, and nothing is assumed about it unless a theorem
  says so.
\<close>

type_synonym tag = "bytes list"

record event =
  ev_id :: bytes
  ev_pubkey :: bytes
  ev_created_at :: int
  ev_kind :: int
  ev_tags :: "tag list"
  ev_content :: bytes

record nostr_filter =
  f_ids :: "bytes list"
  f_kinds :: "int list"
  f_authors :: "bytes list"
  f_since :: "int option"

record ext =
  tags_find :: "tag list \<Rightarrow> bytes \<Rightarrow> tag option"
  json_error :: "bytes \<Rightarrow> bytes"

text \<open>
  \<open>Tags.Find(key)\<close>: "the first tag with the given key that also has at least one value".
\<close>

locale tag_finder =
  fixes finder :: "tag list \<Rightarrow> bytes \<Rightarrow> tag option"
  assumes find_sound: "finder ts k = Some t \<Longrightarrow> t \<in> set ts \<and> 2 \<le> length t \<and> t ! 0 = k"
    and find_complete: "finder ts k = None \<Longrightarrow> t \<in> set ts \<Longrightarrow> 2 \<le> length t \<Longrightarrow> t ! 0 \<noteq> k"
begin

lemma find_shape:
  assumes "finder ts k = Some t"
  obtains v rest where "t = k # v # rest" and "t \<in> set ts"
proof -
  obtain a v rest where t: "t = a # v # rest"
    using find_sound [OF assms] by (cases t rule: remdups_adj.cases) auto
  with find_sound [OF assms] have "a = k" "t \<in> set ts" by auto
  with t show ?thesis by (auto intro: that)
qed

lemma find_defined: "t \<in> set ts \<Longrightarrow> 2 \<le> length t \<Longrightarrow> finder ts (t ! 0) \<noteq> None"
  using find_complete by blast

lemma find_Nil: "finder [] k = None"
  using find_sound [of "[]" k] by (cases "finder [] k") auto

end

text \<open>A finder that does what the documentation says.\<close>

definition first_tag :: "tag list \<Rightarrow> bytes \<Rightarrow> tag option" where
  "first_tag ts k = find (\<lambda>t. 2 \<le> length t \<and> t ! 0 = k) ts"

interpretation ft: tag_finder first_tag
  by unfold_locales (auto simp: first_tag_def find_None_iff dest: find_Some_cases)

definition sample_ext :: ext where
  "sample_ext = \<lparr>tags_find = first_tag, json_error = (\<lambda>_. ''invalid JSON'')\<rparr>"

end
