(* ===== verification/EventModel.thy ===== *)
theory EventModel
  imports GoJson Nostr
begin

text \<open>
  \<open>src/internal/eventmodel/eventmodel.go\<close>: the event kinds, their retention classes, and
  the schema validation of NostrHost's own kinds. A validator returns Go's \<open>error\<close>:
  \<^term>\<open>None\<close> for nil. The branches stand in the order of the code, and each reason is the
  code's text, because \<open>EventProtocol\<close> reads it.
\<close>

subsection \<open>Kinds\<close>

definition KindOperationRequest :: int where [kind_defs]: "KindOperationRequest = 2200"
definition KindOperationApproval :: int where [kind_defs]: "KindOperationApproval = 2201"
definition KindOperationRejection :: int where [kind_defs]: "KindOperationRejection = 2202"
definition KindExecutionStarted :: int where [kind_defs]: "KindExecutionStarted = 2203"
definition KindExecutionResult :: int where [kind_defs]: "KindExecutionResult = 2204"
definition KindDelegation :: int where [kind_defs]: "KindDelegation = 27236"
definition KindDelegationRevocation :: int where [kind_defs]: "KindDelegationRevocation = 27237"
definition KindSystemEvent :: int where [kind_defs]: "KindSystemEvent = 2210"
definition KindServiceEvent :: int where [kind_defs]: "KindServiceEvent = 2211"
definition KindBackupEvent :: int where [kind_defs]: "KindBackupEvent = 2212"
definition KindSecurityEvent :: int where [kind_defs]: "KindSecurityEvent = 2213"
definition KindCapability :: int where [kind_defs]: "KindCapability = 31100"
definition KindTrustPolicy :: int where [kind_defs]: "KindTrustPolicy = 31101"
definition KindIdentityDefinition :: int where [kind_defs]: "KindIdentityDefinition = 31102"
definition KindBuildAttestation :: int where [kind_defs]: "KindBuildAttestation = 31300"

definition SeverityInfo :: bytes where "SeverityInfo = ''info''"
definition SeverityWarning :: bytes where "SeverityWarning = ''warning''"
definition SeverityCritical :: bytes where "SeverityCritical = ''critical''"

definition ClassImmutable :: bytes where "ClassImmutable = ''immutable''"
definition ClassReplaceable :: bytes where "ClassReplaceable = ''replaceable''"
definition ClassPrunable :: bytes where "ClassPrunable = ''prunable''"
definition ClassEphemeral :: bytes where "ClassEphemeral = ''ephemeral''"

text \<open>\<open>Class\<close>\<close>

definition retention_class :: "int \<Rightarrow> bytes" where
  "retention_class kind =
     (if kind = KindDelegation \<or> kind = KindDelegationRevocation then ClassImmutable
      else if 20000 \<le> kind \<and> kind \<le> 29999 then ClassEphemeral
      else if (10000 \<le> kind \<and> kind \<le> 19999) \<or> (30000 \<le> kind \<and> kind \<le> 39999)
        then ClassReplaceable
      else ClassImmutable)"

definition IsCustomKind :: "int \<Rightarrow> bool" where
  "IsCustomKind kind =
     (kind \<in> set [KindOperationRequest, KindOperationApproval, KindOperationRejection,
        KindExecutionStarted, KindExecutionResult, KindSystemEvent,
        KindServiceEvent, KindBackupEvent, KindSecurityEvent,
        KindDelegation, KindDelegationRevocation,
        KindCapability, KindTrustPolicy, KindIdentityDefinition, KindBuildAttestation])"

definition ChainKinds :: "int list" where
  "ChainKinds =
     [KindOperationRequest, KindOperationApproval, KindOperationRejection,
      KindExecutionStarted, KindExecutionResult]"

subsection \<open>Errors\<close>

record model_error =
  err_kind :: int
  err_reason :: bytes

definition kind_error :: "int \<Rightarrow> bytes \<Rightarrow> model_error option" where
  "kind_error kind reason = Some \<lparr>err_kind = kind, err_reason = reason\<rparr>"

text \<open>\<open>EventModelError.Error\<close>\<close>

definition error_text :: "model_error \<Rightarrow> bytes" where
  "error_text e = ''invalid kind '' @ itoa (err_kind e) @ '' event: '' @ err_reason e"

subsection \<open>Helpers\<close>

definition is_hex :: "char \<Rightarrow> bool" where
  "is_hex c \<longleftrightarrow>
     (48 \<le> byte c \<and> byte c \<le> 57) \<or> (97 \<le> byte c \<and> byte c \<le> 102) \<or> (65 \<le> byte c \<and> byte c \<le> 70)"

definition validHex64 :: "bytes \<Rightarrow> bool" where
  "validHex64 s \<longleftrightarrow> length s = 64 \<and> list_all is_hex s"

text \<open>The test \<open>t == nil || len(t) < 2\<close> on the result of \<open>Find\<close>.\<close>

definition no_value :: "tag option \<Rightarrow> bool" where
  "no_value t = (case t of None \<Rightarrow> True | Some v \<Rightarrow> length v < 2)"

text \<open>\<open>t[1]\<close>, read only where \<^const>\<open>no_value\<close> is false.\<close>

definition tag_value :: "tag option \<Rightarrow> bytes" where
  "tag_value t = (case t of Some (_ # v # _) \<Rightarrow> v | _ \<Rightarrow> [])"

definition validateJSONContent :: "event \<Rightarrow> bytes \<Rightarrow> model_error option" where
  "validateJSONContent ev what =
     (if ev_content ev = [] then None
      else if unmarshal_any_ok (ev_content ev) then None
      else kind_error (ev_kind ev) (what @ '' content must be valid JSON''))"

definition validateAddressable :: "ext \<Rightarrow> event \<Rightarrow> bytes \<Rightarrow> model_error option" where
  "validateAddressable X ev what =
     (let d = tags_find X (ev_tags ev) ''d'' in
      if no_value d \<or> tag_value d = []
      then kind_error (ev_kind ev) (what @ '' must carry a non-empty 'd' tag'')
      else validateJSONContent ev what)"

subsection \<open>The envelope\<close>

record envelope =
  env_schema :: "int option"
  env_revision :: "int option"
  env_subject :: bytes
  env_updated_by :: bytes
  env_reason :: bytes

definition empty_envelope :: envelope where
  "empty_envelope =
     \<lparr>env_schema = None, env_revision = None, env_subject = [], env_updated_by = [],
      env_reason = []\<rparr>"

definition envelope_member :: "bytes \<times> json \<Rightarrow> envelope \<times> bool \<Rightarrow> envelope \<times> bool" where
  "envelope_member m t =
     (let (k, j) = m; (e, err) = t in
      if field_matches ''schema'' k then
        (let (v, err') = decode_int_ptr j (env_schema e, err) in (e\<lparr>env_schema := v\<rparr>, err'))
      else if field_matches ''revision'' k then
        (let (v, err') = decode_int_ptr j (env_revision e, err) in (e\<lparr>env_revision := v\<rparr>, err'))
      else if field_matches ''subject'' k then
        (let (v, err') = decode_string j (env_subject e, err) in (e\<lparr>env_subject := v\<rparr>, err'))
      else if field_matches ''updated_by'' k then
        (let (v, err') = decode_string j (env_updated_by e, err) in (e\<lparr>env_updated_by := v\<rparr>, err'))
      else if field_matches ''reason'' k then
        (let (v, err') = decode_string j (env_reason e, err) in (e\<lparr>env_reason := v\<rparr>, err'))
      else t)"

definition unmarshal_envelope :: "bytes \<Rightarrow> envelope \<times> bool" where
  "unmarshal_envelope s = unmarshal_struct envelope_member empty_envelope s"

definition validateEnvelope :: "ext \<Rightarrow> event \<Rightarrow> bytes \<Rightarrow> bool \<Rightarrow> model_error option" where
  "validateEnvelope X ev body addressable =
     (if body = [] then None
      else (let (env, err) = unmarshal_envelope body in
        if err then None
        else if (case env_schema env of None \<Rightarrow> False | Some n \<Rightarrow> n < 1)
          then kind_error (ev_kind ev) ''envelope 'schema' must be an integer >= 1''
        else if (case env_revision env of None \<Rightarrow> False | Some n \<Rightarrow> n < 0)
          then kind_error (ev_kind ev) ''envelope 'revision' must be an integer >= 0''
        else if addressable \<and> env_subject env \<noteq> [] \<and>
            (let d = tags_find X (ev_tags ev) ''d'' in no_value d \<or> env_subject env \<noteq> tag_value d)
          then kind_error (ev_kind ev) ''envelope 'subject' must mirror the 'd' tag''
        else None))"

subsection \<open>The validators\<close>

record notice_body =
  nb_class :: bytes
  nb_severity :: bytes
  nb_summary :: bytes

definition empty_notice :: notice_body where
  "empty_notice = \<lparr>nb_class = [], nb_severity = [], nb_summary = []\<rparr>"

definition notice_member :: "bytes \<times> json \<Rightarrow> notice_body \<times> bool \<Rightarrow> notice_body \<times> bool" where
  "notice_member m t =
     (let (k, j) = m; (b, err) = t in
      if field_matches ''class'' k then
        (let (v, err') = decode_string j (nb_class b, err) in (b\<lparr>nb_class := v\<rparr>, err'))
      else if field_matches ''severity'' k then
        (let (v, err') = decode_string j (nb_severity b, err) in (b\<lparr>nb_severity := v\<rparr>, err'))
      else if field_matches ''summary'' k then
        (let (v, err') = decode_string j (nb_summary b, err) in (b\<lparr>nb_summary := v\<rparr>, err'))
      else t)"

definition unmarshal_notice :: "bytes \<Rightarrow> notice_body \<times> bool" where
  "unmarshal_notice s = unmarshal_struct notice_member empty_notice s"

definition validateNotice :: "event \<Rightarrow> model_error option" where
  "validateNotice ev =
     (case validateJSONContent ev ''notice payload'' of
        Some e \<Rightarrow> Some e
      | None \<Rightarrow>
          (if ev_content ev = [] then None
           else (let (body, err) = unmarshal_notice (ev_content ev) in
             if err then None
             else if nb_severity body \<in> set [[], SeverityInfo, SeverityWarning, SeverityCritical]
             then None
             else kind_error (ev_kind ev)
                ''notice severity must be one of info|warning|critical'')))"

definition validateDelegation :: "ext \<Rightarrow> event \<Rightarrow> model_error option" where
  "validateDelegation X ev =
     (let p = tags_find X (ev_tags ev) ''p'';
          server = tags_find X (ev_tags ev) ''server'';
          expiry = tags_find X (ev_tags ev) ''expiry'' in
      if no_value p \<or> no_value server \<or> no_value expiry
      then kind_error (ev_kind ev) ''delegation requires p, server, and expiry tags''
      else if \<not> validHex64 (tag_value p) \<or> \<not> validHex64 (tag_value server)
      then kind_error (ev_kind ev) ''delegation p and server tags must be 64-hex pubkeys''
      else if (case parse_int (tag_value expiry) of None \<Rightarrow> True | Some t \<Rightarrow> t \<le> 0)
      then kind_error (ev_kind ev) ''delegation expiry must be a positive unix timestamp''
      else if tags_find X (ev_tags ev) ''scope'' = None
      then kind_error (ev_kind ev) ''delegation requires at least one scope tag''
      else None)"

definition validateDelegationRevocation :: "ext \<Rightarrow> event \<Rightarrow> model_error option" where
  "validateDelegationRevocation X ev =
     (let e = tags_find X (ev_tags ev) ''e'' in
      if no_value e \<or> \<not> validHex64 (tag_value e)
      then kind_error (ev_kind ev) ''delegation revocation requires a 64-hex e tag''
      else None)"

definition missing_schema_reason :: bytes where
  "missing_schema_reason = ''trust policy must carry an envelope 'schema'' @ [CHR 0x27]"

definition validateTrustPolicy :: "ext \<Rightarrow> event \<Rightarrow> model_error option" where
  "validateTrustPolicy X ev =
     (case validateAddressable X ev ''trust policy'' of
        Some e \<Rightarrow> Some e
      | None \<Rightarrow>
     (case validateEnvelope X ev (ev_content ev) True of
        Some e \<Rightarrow> Some e
      | None \<Rightarrow>
          (if ev_content ev = [] then kind_error (ev_kind ev) missing_schema_reason
           else (let (env, err) = unmarshal_envelope (ev_content ev) in
             if err then kind_error (ev_kind ev)
                 (''trust policy content must be JSON: '' @ json_error X (ev_content ev))
             else if env_schema env = None then kind_error (ev_kind ev) missing_schema_reason
             else None))))"

definition missing_type_reason :: bytes where
  "missing_type_reason = ''capability content must declare a 'type'' @ [CHR 0x27]"

definition validateCapability :: "ext \<Rightarrow> event \<Rightarrow> model_error option" where
  "validateCapability X ev =
     (let d = tags_find X (ev_tags ev) ''d'' in
      if no_value d
      then kind_error (ev_kind ev) ''capability event requires a non-empty 'd' tag''
      else if \<not> validHex64 (tag_value d)
      then kind_error (ev_kind ev)
        ''capability event 'd' tag must be the subject pubkey (64-hex)''
      else if \<not> json_valid (ev_content ev)
      then kind_error (ev_kind ev) ''capability content must be JSON''
      else (case validateEnvelope X ev (ev_content ev) True of
        Some e \<Rightarrow> Some e
      | None \<Rightarrow>
     (case unmarshal_raw_map (ev_content ev) of
        None \<Rightarrow> kind_error (ev_kind ev) ''capability content must be JSON''
      | Some body \<Rightarrow>
          (let (typeStr, terr) =
                 (case body ''type'' of None \<Rightarrow> ([], False) | Some raw \<Rightarrow> decode_string raw ([], False))
           in if terr \<or> typeStr = [] then kind_error (ev_kind ev) missing_type_reason
              else (case body ''scopes'' of
                  None \<Rightarrow> None
                | Some raw \<Rightarrow>
                    (if string_slice_ok raw then None
                     else kind_error (ev_kind ev)
                       ''capability 'scopes' must be an array of strings''))))))"

definition signer_type_reason :: bytes where
  "signer_type_reason =
     ''identity definition signer_type must be one of nip07|nip46|passkey|unknown''"

definition missing_username_reason :: bytes where
  "missing_username_reason =
     ''identity definition content must declare a non-empty 'username'' @ [CHR 0x27]"

definition validateIdentityDefinition :: "ext \<Rightarrow> event \<Rightarrow> model_error option" where
  "validateIdentityDefinition X ev =
     (let d = tags_find X (ev_tags ev) ''d'' in
      if no_value d
      then kind_error (ev_kind ev) ''identity definition requires a non-empty 'd' tag''
      else if \<not> validHex64 (tag_value d)
      then kind_error (ev_kind ev)
        ''identity definition 'd' tag must be the subject pubkey (64-hex)''
      else if \<not> json_valid (ev_content ev)
      then kind_error (ev_kind ev) ''identity definition content must be JSON''
      else (case validateEnvelope X ev (ev_content ev) True of
        Some e \<Rightarrow> Some e
      | None \<Rightarrow>
     (case unmarshal_raw_map (ev_content ev) of
        None \<Rightarrow> kind_error (ev_kind ev) ''identity definition content must be JSON''
      | Some raw \<Rightarrow>
          (let username =
                 (case raw ''username'' of None \<Rightarrow> [] | Some v \<Rightarrow> fst (decode_string v ([], False)));
               (signerType, serr) =
                 (case raw ''signer_type'' of None \<Rightarrow> ([], False) | Some v \<Rightarrow> decode_string v ([], False));
               (enabled, eerr) =
                 (case raw ''enabled'' of None \<Rightarrow> (True, False) | Some v \<Rightarrow> decode_bool v (True, False));
               aerr =
                 (case raw ''admin'' of None \<Rightarrow> False | Some v \<Rightarrow> snd (decode_bool v (False, False)))
           in if serr then kind_error (ev_kind ev) signer_type_reason
              else if eerr
              then kind_error (ev_kind ev) ''identity definition 'enabled' must be a boolean''
              else if aerr
              then kind_error (ev_kind ev) ''identity definition 'admin' must be a boolean''
              else if trim_space username = [] \<and> enabled
              then kind_error (ev_kind ev) missing_username_reason
              else if signerType \<in> set [[], ''nip07'', ''nip46'', ''passkey'', ''unknown''] then None
              else kind_error (ev_kind ev) signer_type_reason))))"

text \<open>The anonymous struct with the single field \<open>Tool\<close>.\<close>

definition tool_member :: "bytes \<times> json \<Rightarrow> bytes \<times> bool \<Rightarrow> bytes \<times> bool" where
  "tool_member m t =
     (if field_matches ''tool'' (fst m) then decode_string (snd m) t else t)"

definition unmarshal_tool :: "bytes \<Rightarrow> bytes \<times> bool" where
  "unmarshal_tool s = unmarshal_struct tool_member [] s"

definition validateOperationRequest :: "ext \<Rightarrow> event \<Rightarrow> model_error option" where
  "validateOperationRequest X ev =
     (let (tool, err) = unmarshal_tool (ev_content ev) in
      if err then kind_error (ev_kind ev)
          (''operation request content must be JSON: '' @ json_error X (ev_content ev))
      else if trim_space tool = []
      then kind_error (ev_kind ev)
        (''operation request content must declare a non-empty 'tool'' @ [CHR 0x27])
      else None)"

definition validateChainStep :: "ext \<Rightarrow> event \<Rightarrow> model_error option" where
  "validateChainStep X ev =
     (let e = tags_find X (ev_tags ev) ''e'' in
      if no_value e \<or> tag_value e = []
      then kind_error (ev_kind ev)
        ''operation chain events must reference the request via an 'e' tag''
      else validateJSONContent ev ''chain step'')"

text \<open>\<open>Validate\<close>\<close>

definition Validate :: "ext \<Rightarrow> event \<Rightarrow> model_error option" where
  "Validate X ev =
     (let kind = ev_kind ev in
      if \<not> IsCustomKind kind then None
      else if kind = KindCapability then validateCapability X ev
      else if kind = KindIdentityDefinition then validateIdentityDefinition X ev
      else if kind = KindTrustPolicy then validateTrustPolicy X ev
      else if kind = KindBuildAttestation then validateAddressable X ev ''build attestation''
      else if kind = KindOperationRequest then validateOperationRequest X ev
      else if kind \<in> set [KindOperationApproval, KindOperationRejection, KindExecutionStarted,
          KindExecutionResult] then validateChainStep X ev
      else if kind = KindDelegation then validateDelegation X ev
      else if kind = KindDelegationRevocation then validateDelegationRevocation X ev
      else if kind \<in> set [KindSystemEvent, KindServiceEvent, KindBackupEvent, KindSecurityEvent]
      then validateNotice ev
      else None)"

text \<open>\<open>Notice\<close>: class, severity, summary and whether the body is notice-shaped.\<close>

definition Notice :: "event \<Rightarrow> bytes \<times> bytes \<times> bytes \<times> bool" where
  "Notice ev =
     (if ev_content ev = [] then ([], [], [], False)
      else (let (body, err) = unmarshal_notice (ev_content ev) in
        if err then ([], [], [], False)
        else (nb_class body, nb_severity body, nb_summary body, True)))"

end
