(* ===== verification/JsonPrint.thy ===== *)
theory JsonPrint
  imports GoJson
begin

text \<open>
  A printer for JSON values and the proof that the scanner reads back what it prints. The
  component theories use it to build contents whose decoding is known for every payload, and
  it is the evidence that the scanner of \<open>GoJson\<close> accepts what it should.

  Strings are printed with the double quote and the backslash escaped; they have to consist of
  printable ASCII characters. Numbers are printed as their literal.
\<close>

definition plain :: "bytes \<Rightarrow> bool" where
  "plain s \<longleftrightarrow> list_all (\<lambda>c. 32 \<le> byte c \<and> byte c < 128) s"

fun escape :: "bytes \<Rightarrow> bytes" where
  "escape [] = []"
| "escape (c # cs) =
     (if c = CHR 0x22 \<or> c = CHR 0x5C then CHR 0x5C # c # escape cs else c # escape cs)"

definition quoted :: "bytes \<Rightarrow> bytes" where
  "quoted s = CHR 0x22 # escape s @ [CHR 0x22]"

fun join :: "bytes list \<Rightarrow> bytes" where
  "join [] = []"
| "join [x] = x"
| "join (x # y # zs) = x @ CHR '','' # join (y # zs)"

fun json_print :: "json \<Rightarrow> bytes" where
  "json_print JNull = ''null''"
| "json_print (JBool b) = (if b then ''true'' else ''false'')"
| "json_print (JNum lit) = lit"
| "json_print (JStr s) = quoted s"
| "json_print (JArr xs) = CHR ''['' # join (map json_print xs) @ '']''"
| "json_print (JObj ms) =
     CHR ''{'' # join (map (\<lambda>m. quoted (fst m) @ CHR '':'' # json_print (snd m)) ms) @ ''}''"

subsection \<open>Printable values\<close>

definition num_start :: "char \<Rightarrow> num_state option" where
  "num_start c =
     (if c = CHR ''-'' then Some NNeg else if c = CHR ''0'' then Some NZero
      else if is_digit c then Some NInt else None)"

fun num_run :: "num_state \<Rightarrow> bytes \<Rightarrow> num_state option" where
  "num_run n [] = Some n"
| "num_run n (c # cs) = (case num_next n c of None \<Rightarrow> None | Some n' \<Rightarrow> num_run n' cs)"

definition num_literal :: "bytes \<Rightarrow> bool" where
  "num_literal s =
     (case s of [] \<Rightarrow> False
      | c # cs \<Rightarrow> (case num_start c of None \<Rightarrow> False
          | Some n \<Rightarrow> (case num_run n cs of None \<Rightarrow> False | Some n' \<Rightarrow> num_final n')))"

fun json_depth :: "json \<Rightarrow> int" where
  "json_depth (JArr xs) = 1 + foldr (\<lambda>x d. max (json_depth x) d) xs 0"
| "json_depth (JObj ms) = 1 + foldr (\<lambda>m d. max (json_depth (snd m)) d) ms 0"
| "json_depth _ = 0"

fun printable :: "json \<Rightarrow> bool" where
  "printable (JNum lit) = num_literal lit"
| "printable (JStr s) = plain s"
| "printable (JArr xs) = list_all printable xs"
| "printable (JObj ms) = list_all (\<lambda>m. plain (fst m) \<and> printable (snd m)) ms"
| "printable _ = True"

lemma foldr_max_ge: "x \<in> set xs \<Longrightarrow> f x \<le> foldr (\<lambda>x d. max (f x) d) xs (0::int)"
  by (induction xs) auto

lemma foldr_max_nonneg: "0 \<le> foldr (\<lambda>x d. max (f x) d) xs (0::int)"
  by (induction xs) auto

subsection \<open>Strings\<close>

lemma unquote_escape: "plain s \<Longrightarrow> unquote (escape s) = s"
proof (induction s)
  case (Cons c cs)
  then have c: "byte c < 128" and IH: "unquote (escape cs) = cs" by (auto simp: plain_def)
  show ?case
  proof (cases "c = CHR 0x22 \<or> c = CHR 0x5C")
    case True
    then have "c \<noteq> CHR ''u''" and "esc_char c = c" by (auto simp: esc_char_def)
    with True IH show ?thesis by (simp add: unquote.simps(2))
  next
    case False
    with c IH show ?thesis by (simp add: unquote.simps(2))
  qed
qed simp

lemma run_escape:
  "plain s \<Longrightarrow> run (MStr acc, st) (escape s @ rest) = run (MStr (rev (escape s) @ acc), st) rest"
proof (induction s arbitrary: acc)
  case (Cons c cs)
  then have "32 \<le> byte c" by (simp add: plain_def)
  with Cons show ?case by (auto simp: plain_def)
qed simp

lemma run_quoted:
  assumes "plain s"
  shows "run (MStr [], st) (escape s @ CHR 0x22 # rest) =
     (case deliver (JStr s) st of None \<Rightarrow> None | Some t \<Rightarrow> run t rest)"
  using assms by (simp add: run_escape unquote_escape)

subsection \<open>Numbers\<close>

definition stop :: "char \<Rightarrow> bool" where
  "stop c \<longleftrightarrow> c = CHR '','' \<or> c = CHR '']'' \<or> c = CHR ''}'' \<or> c = CHR '' ''"

lemma num_next_stop: "num_final n \<Longrightarrow> stop c \<Longrightarrow> num_next n c = None"
  by (auto simp: num_final_def stop_def is_digit_def byte_def)

lemma deliver_num:
  "deliver (JNum l) st = Some (m, st') \<Longrightarrow> m = MColon \<or> m = MAfterVal \<or> m = MAfterElem \<or> (\<exists>j. m = MTop j)"
  by (induction "JNum l" st rule: deliver.induct) auto

lemma step_delivered:
  "deliver (JNum l) st = Some t \<Longrightarrow> step t c = end_step t c"
  by (cases t) (auto dest: deliver_num)

lemma run_num:
  "num_run n s = Some n' \<Longrightarrow> num_final n' \<Longrightarrow> stop c \<Longrightarrow>
   run (MNum n acc, st) (s @ c # rest) =
     (case deliver (JNum (rev acc @ s)) st of None \<Rightarrow> None | Some t \<Rightarrow> run t (c # rest))"
proof (induction s arbitrary: n acc)
  case Nil
  then show ?case
    by (auto simp: num_next_stop step_delivered split: option.splits)
next
  case (Cons d ds)
  then show ?case by (auto split: option.splits)
qed

lemma num_start_begin:
  assumes "num_start c = Some n"
  shows "begin_value c st = Some (MNum n [c], st)" and "\<not> is_space c" and "c \<noteq> CHR '']''"
proof -
  have "c = CHR ''-'' \<or> is_digit c" using assms
    by (auto simp: num_start_def is_digit_def byte_def split: if_splits)
  then have "c \<noteq> CHR ''{''" "c \<noteq> CHR ''[''" "c \<noteq> CHR 0x22" "\<not> is_space c" "c \<noteq> CHR '']''"
    by (auto simp: is_digit_def byte_def is_space_def)
  then show "begin_value c st = Some (MNum n [c], st)" and "\<not> is_space c" and "c \<noteq> CHR '']''"
    using assms by (auto simp: begin_value_def num_start_def split: if_splits)
qed

subsection \<open>The scanner reads back what is printed\<close>

definition reads :: "mode \<Rightarrow> json \<Rightarrow> frame list \<Rightarrow> bool" where
  "reads m j st \<longleftrightarrow>
     (\<forall>c rest. stop c \<longrightarrow>
        run (m, st) (json_print j @ c # rest) =
          (case deliver j st of None \<Rightarrow> None | Some t \<Rightarrow> run t (c # rest)))"

lemma readsD:
  "reads m j st \<Longrightarrow> stop c \<Longrightarrow>
   run (m, st) (json_print j @ c # rest) =
     (case deliver j st of None \<Rightarrow> None | Some t \<Rightarrow> run t (c # rest))"
  by (simp add: reads_def)

lemma stop_chars [simp]: "stop CHR '',''" "stop CHR '']''" "stop CHR ''}''" "stop CHR '' ''"
  by (simp_all add: stop_def)

lemma run_elements:
  assumes "reads m x (FArr acc # st)"
    and "\<And>y acc'. y \<in> set xs \<Longrightarrow> reads MValue y (FArr acc' # st)"
  shows "run (m, FArr acc # st) (join (map json_print (x # xs)) @ CHR '']'' # rest) =
     (case deliver (JArr (rev acc @ x # xs)) st of None \<Rightarrow> None | Some t \<Rightarrow> run t rest)"
  using assms
proof (induction xs arbitrary: m x acc)
  case Nil
  then show ?case by (simp add: readsD is_space_def)
next
  case (Cons y ys)
  from Cons.prems(2) [of y "x # acc"] have "reads MValue y (FArr (x # acc) # st)" by simp
  from Cons.IH [OF this] Cons.prems(2) show ?case
    by (simp add: readsD [OF Cons.prems(1)] is_space_def)
qed

lemma run_key:
  assumes "plain k" and "m = MKey \<or> m = MKeyOrEnd"
  shows "run (m, FKey acc # st) (quoted k @ CHR '':'' # rest) = run (MValue, FVal acc k # st) rest"
  using assms by (auto simp: quoted_def is_space_def run_quoted)

lemma run_members:
  assumes "plain (fst x)" and "mk = MKey \<or> mk = MKeyOrEnd"
    and "\<And>acc'. reads MValue (snd x) (FVal acc' (fst x) # st)"
    and "\<And>y acc'. y \<in> set ms \<Longrightarrow> plain (fst y) \<and> reads MValue (snd y) (FVal acc' (fst y) # st)"
  shows "run (mk, FKey acc # st)
       (join (map (\<lambda>m. quoted (fst m) @ CHR '':'' # json_print (snd m)) (x # ms)) @ CHR ''}'' # rest) =
     (case deliver (JObj (rev acc @ x # ms)) st of None \<Rightarrow> None | Some t \<Rightarrow> run t rest)"
  using assms
proof (induction ms arbitrary: mk x acc)
  case Nil
  then show ?case by (simp add: run_key readsD is_space_def)
next
  case (Cons y ys)
  from Cons.prems(4) [of y] have "plain (fst y)" "\<And>acc'. reads MValue (snd y) (FVal acc' (fst y) # st)"
    by auto
  from Cons.IH [OF this(1) _ this(2), of MKey "x # acc"] Cons.prems(4) show ?case
    using Cons.prems(1,2) by (simp add: run_key readsD [OF Cons.prems(3)] is_space_def)
qed

lemma reads_print:
  "printable j \<Longrightarrow> int (length st) + json_depth j \<le> max_depth \<Longrightarrow> m = MValue \<or> m = MValueOrEnd \<Longrightarrow>
   reads m j st"
proof (induction j arbitrary: st m)
  case (JNum lit)
  then obtain c cs n n' where lit: "lit = c # cs" "num_start c = Some n" "num_run n cs = Some n'"
    "num_final n'"
    by (auto simp: num_literal_def split: list.splits option.splits)
  then show ?case using JNum.prems(3) run_num [OF lit(3,4)]
    by (auto simp: reads_def num_start_begin)
next
  case (JArr xs)
  have push: "push (FArr []) st = Some (FArr [] # st)"
    using JArr.prems(2) foldr_max_nonneg [of json_depth xs] by (simp add: push_def)
  have IH: "reads m' x (FArr acc # st)" if "x \<in> set xs" "m' = MValue \<or> m' = MValueOrEnd" for x m' acc
    using JArr.IH [OF that(1) _ _ that(2)] JArr.prems foldr_max_ge [OF that(1), of json_depth] that(1)
    by (auto simp: list_all_iff)
  show ?case
  proof (cases xs)
    case Nil
    then show ?thesis using JArr.prems(3) push
      by (auto simp: reads_def begin_value_def is_space_def)
  next
    case (Cons y ys)
    then show ?thesis using JArr.prems(3) push IH run_elements [of MValueOrEnd y "[]" st ys]
      by (auto simp: reads_def [of m] begin_value_def is_space_def simp del: list.map)
  qed
next
  case (JObj ms)
  have push: "push (FKey []) st = Some (FKey [] # st)"
    using JObj.prems(2) foldr_max_nonneg [of "\<lambda>m. json_depth (snd m)" ms] by (simp add: push_def)
  have IH: "plain (fst x) \<and> reads MValue (snd x) (FVal acc (fst x) # st)" if "x \<in> set ms" for x acc
    using JObj.IH [OF that, of "snd x"] JObj.prems that
      foldr_max_ge [OF that, of "\<lambda>m. json_depth (snd m)"]
    by (cases x) (auto simp: list_all_iff)
  show ?case
  proof (cases ms)
    case Nil
    then show ?thesis using JObj.prems(3) push
      by (auto simp: reads_def begin_value_def is_space_def)
  next
    case (Cons y ys)
    then show ?thesis using JObj.prems(3) push IH run_members [of y MKeyOrEnd st ys "[]"]
      by (auto simp: reads_def [of m] begin_value_def is_space_def simp del: list.map)
  qed
qed (auto simp: reads_def begin_value_def is_space_def is_digit_def byte_def quoted_def run_quoted)

theorem json_parse_print:
  assumes "printable j" and "json_depth j \<le> max_depth"
  shows "json_parse (json_print j) = Some j"
proof -
  have "reads MValue j []" using assms by (intro reads_print) auto
  from readsD [OF this, of "CHR '' ''" "[]"] show ?thesis
    by (simp add: json_parse_def is_space_def)
qed

text \<open>A printed integer is a JSON number.\<close>

lemma num_run_digits: "list_all is_digit ds \<Longrightarrow> num_run NInt ds = Some NInt"
  by (induction ds) auto

lemma nat_digits_head:
  "0 < n \<Longrightarrow> \<exists>c cs. nat_digits n = c # cs \<and> is_digit c \<and> c \<noteq> CHR ''0'' \<and> list_all is_digit cs"
proof (induction n rule: nat_digits.induct)
  case (1 n)
  show ?case
  proof (cases "n < 10")
    case True
    have "byte CHR ''0'' = 48" by (simp add: byte_def)
    then have "byte (digit_char n) \<noteq> byte CHR ''0''" using True 1(2) byte_digit_char [of n] by simp
    then have "digit_char n \<noteq> CHR ''0''" by metis
    then show ?thesis using True 1(2) by (simp add: nat_digits.simps [of n])
  next
    case False
    then obtain c cs where "nat_digits (n div 10) = c # cs" "is_digit c" "c \<noteq> CHR ''0''" "list_all is_digit cs"
      using 1 by force
    then show ?thesis using False by (simp add: nat_digits.simps [of n])
  qed
qed

lemma itoa_literal: "num_literal (itoa n)"
proof (cases "n = 0")
  case True
  show ?thesis unfolding True by code_simp
next
  case False
  then obtain c cs where d: "nat_digits \<bar>n\<bar> = c # cs" "is_digit c" "c \<noteq> CHR ''0''" "list_all is_digit cs"
    using nat_digits_head [of "\<bar>n\<bar>"] by auto
  then have "c \<noteq> CHR ''-''" by (metis sign_not_digit(1))
  then show ?thesis using d num_run_digits [of cs]
    by (auto simp: num_literal_def num_start_def itoa_def num_final_def abs_if split: if_splits)
qed

end
