(* ===== verification/EventModelProps.thy ===== *)
theory EventModelProps
  imports EventModel JsonPrint
begin

text \<open>
  What \<open>eventmodel.Validate\<close> accepts, kind by kind, stated over the tags and the decoded
  content instead of the order of the checks; where the envelope rules stop being enforced;
  and the retention classes.
\<close>

subsection \<open>Reading a tag\<close>

definition first_value :: "ext \<Rightarrow> event \<Rightarrow> bytes \<Rightarrow> bytes option" where
  "first_value X ev k =
     (if no_value (tags_find X (ev_tags ev) k) then None
      else Some (tag_value (tags_find X (ev_tags ev) k)))"

lemma no_value_iff: "no_value (tags_find X (ev_tags ev) k) \<longleftrightarrow> first_value X ev k = None"
  by (simp add: first_value_def)

lemma tag_value_first:
  "first_value X ev k = Some v \<Longrightarrow> tag_value (tags_find X (ev_tags ev) k) = v"
  by (simp add: first_value_def split: if_splits)

lemma first_value_tag:
  assumes "tag_finder (tags_find X)" and "first_value X ev k = Some v"
  shows "\<exists>rest. k # v # rest \<in> set (ev_tags ev)"
proof -
  from assms(2) obtain t where t: "tags_find X (ev_tags ev) k = Some t" "tag_value (Some t) = v"
    by (auto simp: first_value_def no_value_def split: if_splits option.splits)
  from tag_finder.find_shape [OF assms(1) t(1)] obtain w rest
    where "t = k # w # rest" "t \<in> set (ev_tags ev)" by blast
  with t(2) show ?thesis by (auto simp: tag_value_def)
qed

lemma first_value_of_tag:
  assumes "tag_finder (tags_find X)" and "k # v # rest \<in> set (ev_tags ev)"
  shows "first_value X ev k \<noteq> None"
  using tag_finder.find_defined [OF assms] tag_finder.find_sound [OF assms(1)]
  by (fastforce simp: first_value_def no_value_def split: option.splits)

lemma kind_error_not_None [simp]: "kind_error k r \<noteq> None" "None \<noteq> kind_error k r"
  by (simp_all add: kind_error_def)

lemma kind_error_Some [simp]: "kind_error k r = Some e \<longleftrightarrow> e = \<lparr>err_kind = k, err_reason = r\<rparr>"
  by (auto simp: kind_error_def)

lemma json_parse_Nil [simp]: "json_parse [] = None"
  by code_simp

lemma json_valid_nonempty: "json_valid s \<Longrightarrow> s \<noteq> []"
  by (auto simp: json_valid_def)

lemma kinds_distinct [simp]: "\<not> IsCustomKind 1" "IsCustomKind KindCapability"
  "IsCustomKind KindTrustPolicy" "IsCustomKind KindIdentityDefinition"
  "IsCustomKind KindBuildAttestation" "IsCustomKind KindOperationRequest"
  "IsCustomKind KindDelegation" "IsCustomKind KindDelegationRevocation"
  by (simp_all add: IsCustomKind_def kind_defs)

subsection \<open>The validator selected by a kind\<close>

lemma Validate_capability: "ev_kind ev = KindCapability \<Longrightarrow> Validate X ev = validateCapability X ev"
  by (simp add: Validate_def)

lemma Validate_identity:
  "ev_kind ev = KindIdentityDefinition \<Longrightarrow> Validate X ev = validateIdentityDefinition X ev"
  by (simp add: Validate_def IsCustomKind_def kind_defs)

lemma Validate_trust:
  "ev_kind ev = KindTrustPolicy \<Longrightarrow> Validate X ev = validateTrustPolicy X ev"
  by (simp add: Validate_def IsCustomKind_def kind_defs)

lemma Validate_request:
  "ev_kind ev = KindOperationRequest \<Longrightarrow> Validate X ev = validateOperationRequest X ev"
  by (simp add: Validate_def IsCustomKind_def kind_defs)

lemma Validate_chain:
  "ev_kind ev \<in> set ChainKinds \<Longrightarrow> ev_kind ev \<noteq> KindOperationRequest \<Longrightarrow>
   Validate X ev = validateChainStep X ev"
  by (auto simp: Validate_def ChainKinds_def IsCustomKind_def kind_defs)

lemma Validate_delegation:
  "ev_kind ev = KindDelegation \<Longrightarrow> Validate X ev = validateDelegation X ev"
  by (simp add: Validate_def IsCustomKind_def kind_defs)

lemma Validate_revocation:
  "ev_kind ev = KindDelegationRevocation \<Longrightarrow> Validate X ev = validateDelegationRevocation X ev"
  by (simp add: Validate_def IsCustomKind_def kind_defs)

definition NoticeKinds :: "int list" where
  "NoticeKinds = [KindSystemEvent, KindServiceEvent, KindBackupEvent, KindSecurityEvent]"

lemma Validate_notice: "ev_kind ev \<in> set NoticeKinds \<Longrightarrow> Validate X ev = validateNotice ev"
  by (auto simp: Validate_def NoticeKinds_def IsCustomKind_def kind_defs)

lemmas Validate_by_kind =
  Validate_capability Validate_identity Validate_trust Validate_request Validate_chain
  Validate_delegation Validate_revocation Validate_notice

subsection \<open>The envelope\<close>

definition envelope_rules :: "ext \<Rightarrow> event \<Rightarrow> bool" where
  "envelope_rules X ev \<longleftrightarrow>
     (let env = fst (unmarshal_envelope (ev_content ev)) in
      (\<forall>n. env_schema env = Some n \<longrightarrow> 1 \<le> n) \<and>
      (\<forall>n. env_revision env = Some n \<longrightarrow> 0 \<le> n) \<and>
      (env_subject env = [] \<or> first_value X ev ''d'' = Some (env_subject env)))"

text \<open>
  The rules bind only when the whole header decodes: any header field of the wrong type makes
  the check return nil.
\<close>

lemma validateEnvelope_iff:
  assumes "ev_content ev \<noteq> []"
  shows "validateEnvelope X ev (ev_content ev) True = None \<longleftrightarrow>
     snd (unmarshal_envelope (ev_content ev)) \<or> envelope_rules X ev"
  using assms
  by (cases "unmarshal_envelope (ev_content ev)")
    (auto simp: validateEnvelope_def envelope_rules_def Let_def no_value_iff tag_value_first
      split: option.splits)

subsection \<open>What each kind accepts\<close>

definition hex_value :: "ext \<Rightarrow> event \<Rightarrow> bytes \<Rightarrow> bool" where
  "hex_value X ev k \<longleftrightarrow> (\<exists>v. first_value X ev k = Some v \<and> validHex64 v)"

lemma hex_value_iff:
  "hex_value X ev k \<longleftrightarrow>
     \<not> no_value (tags_find X (ev_tags ev) k) \<and> validHex64 (tag_value (tags_find X (ev_tags ev) k))"
  by (auto simp: hex_value_def first_value_def)

text \<open>The header of the content does not decode: one of its fields has the wrong JSON type.\<close>

definition envelope_mistyped :: "event \<Rightarrow> bool" where
  "envelope_mistyped ev \<longleftrightarrow> snd (unmarshal_envelope (ev_content ev))"

lemma decode_string_nonempty:
  "\<not> snd (decode_string j ([], False)) \<and> fst (decode_string j ([], False)) \<noteq> [] \<longleftrightarrow>
   (\<exists>s. j = JStr s \<and> s \<noteq> [])"
  by (auto simp: decode_string_def split: json.splits)

lemma string_member_iff:
  "(\<exists>s e. (case body k of None \<Rightarrow> ([], False) | Some raw \<Rightarrow> decode_string raw ([], False)) = (s, e)
      \<and> \<not> e \<and> s \<noteq> []) \<longleftrightarrow> (\<exists>s. body k = Some (JStr s) \<and> s \<noteq> [])"
proof (cases "body k")
  case (Some raw)
  then show ?thesis using decode_string_nonempty [of raw] by (auto simp: prod_eq_iff)
qed simp

lemma capability_iff:
  assumes "ev_kind ev = KindCapability"
  shows "Validate X ev = None \<longleftrightarrow>
    hex_value X ev ''d'' \<and> (envelope_mistyped ev \<or> envelope_rules X ev) \<and>
    (\<exists>body. unmarshal_raw_map (ev_content ev) = Some body \<and>
       (\<exists>t. body ''type'' = Some (JStr t) \<and> t \<noteq> []) \<and>
       (\<forall>raw. body ''scopes'' = Some raw \<longrightarrow> string_slice_ok raw))"
proof (cases "hex_value X ev ''d'' \<and> json_valid (ev_content ev)")
  case False
  then show ?thesis using assms
    by (auto simp: Validate_capability validateCapability_def Let_def hex_value_iff
        dest: unmarshal_raw_map_valid)
next
  case True
  then have ne: "ev_content ev \<noteq> []" by (auto dest: json_valid_nonempty)
  show ?thesis
  proof (cases "unmarshal_raw_map (ev_content ev)")
    case None
    then show ?thesis using assms True
      by (auto simp: Validate_capability validateCapability_def Let_def hex_value_iff split: option.splits)
  next
    case (Some body)
    obtain s e where se:
      "(case body ''type'' of None \<Rightarrow> ([], False) | Some raw \<Rightarrow> decode_string raw ([], False)) = (s, e)"
      by (cases "case body ''type'' of None \<Rightarrow> ([], False) | Some raw \<Rightarrow> decode_string raw ([], False)")
    then have "(\<not> e \<and> s \<noteq> []) \<longleftrightarrow> (\<exists>t. body ''type'' = Some (JStr t) \<and> t \<noteq> [])"
      using string_member_iff [of body "''type''"] by auto
    then show ?thesis using assms True Some se validateEnvelope_iff [OF ne, of X]
      by (auto simp: Validate_capability validateCapability_def Let_def hex_value_iff envelope_mistyped_def
          split: option.splits)
  qed
qed

text \<open>C6: A capability grant (kind 31100) is accepted exactly when its first \<open>d\<close> tag is a
  64-hex pubkey, its content is a JSON object whose \<open>type\<close> is a non-empty string and whose
  \<open>scopes\<close>, if present, is a list of strings, and the fields of its envelope obey the rules, or one
  of them has the wrong JSON type: then the code checks none of them.\<close>

theorem capability_accepted_iff:
  assumes "ev_kind ev = KindCapability"
  shows "Validate X ev = None \<longleftrightarrow>
    hex_value X ev ''d'' \<and> (envelope_mistyped ev \<or> envelope_rules X ev) \<and>
    (\<exists>body. unmarshal_raw_map (ev_content ev) = Some body \<and>
       (\<exists>t. body ''type'' = Some (JStr t) \<and> t \<noteq> []) \<and>
       (\<forall>raw. body ''scopes'' = Some raw \<longrightarrow> string_slice_ok raw))"
  using assms by (rule capability_iff)

text \<open>The Boolean decoders on a fresh target.\<close>

lemma decode_bool_fresh:
  "snd (decode_bool j (b, False)) \<longleftrightarrow> j \<noteq> JNull \<and> (\<forall>b'. j \<noteq> JBool b')"
  "fst (decode_bool j (b, False)) = (case j of JBool b' \<Rightarrow> b' | _ \<Rightarrow> b)"
  by (auto simp: decode_bool_def split: json.splits)

definition bool_or_absent :: "(bytes \<rightharpoonup> json) \<Rightarrow> bytes \<Rightarrow> bool" where
  "bool_or_absent body k \<longleftrightarrow> (\<forall>j. body k = Some j \<longrightarrow> j = JNull \<or> (\<exists>b. j = JBool b))"

definition string_of_member :: "(bytes \<rightharpoonup> json) \<Rightarrow> bytes \<Rightarrow> bytes" where
  "string_of_member body k = (case body k of Some (JStr s) \<Rightarrow> s | _ \<Rightarrow> [])"

definition known_signer :: "(bytes \<rightharpoonup> json) \<Rightarrow> bool" where
  "known_signer body \<longleftrightarrow>
     (body ''signer_type'' = None \<or> body ''signer_type'' = Some JNull \<or>
      (\<exists>s \<in> {[], ''nip07'', ''nip46'', ''passkey'', ''unknown''}.
         body ''signer_type'' = Some (JStr s)))"

definition disabled :: "(bytes \<rightharpoonup> json) \<Rightarrow> bool" where
  "disabled body \<longleftrightarrow> body ''enabled'' = Some (JBool False)"

lemma fst_decode_string: "fst (decode_string j ([], False)) = (case j of JStr s \<Rightarrow> s | _ \<Rightarrow> [])"
  by (simp add: decode_string_def split: json.splits)

text \<open>C28: An identity definition (kind 31102) is accepted exactly when its \<open>d\<close> tag is a
  64-hex pubkey, the fields of its envelope obey the rules or one of them has the wrong JSON type
  (then the code checks none of them), \<open>enabled\<close> and \<open>admin\<close> are absent, null or
  booleans, the signer type is one of the four known ones (or empty), and the username is not
  blank unless the mapping is disabled: a revocation needs no username.\<close>

theorem identity_accepted_iff:
  assumes "ev_kind ev = KindIdentityDefinition"
  shows "Validate X ev = None \<longleftrightarrow>
    hex_value X ev ''d'' \<and> (envelope_mistyped ev \<or> envelope_rules X ev) \<and>
    (\<exists>body. unmarshal_raw_map (ev_content ev) = Some body \<and>
       bool_or_absent body ''enabled'' \<and> bool_or_absent body ''admin'' \<and> known_signer body \<and>
       (trim_space (string_of_member body ''username'') \<noteq> [] \<or> disabled body))"
proof (cases "hex_value X ev ''d'' \<and> json_valid (ev_content ev)")
  case False
  then show ?thesis using assms
    by (auto simp: Validate_identity validateIdentityDefinition_def Let_def hex_value_iff
        dest: unmarshal_raw_map_valid)
next
  case True
  then have ne: "ev_content ev \<noteq> []" by (auto dest: json_valid_nonempty)
  show ?thesis
  proof (cases "unmarshal_raw_map (ev_content ev)")
    case None
    then show ?thesis using assms True
      by (auto simp: Validate_identity validateIdentityDefinition_def Let_def hex_value_iff
          split: option.splits)
  next
    case (Some body)
    have user: "(case body ''username'' of None \<Rightarrow> []
        | Some v \<Rightarrow> fst (decode_string v ([], False))) = string_of_member body ''username''"
      by (simp add: string_of_member_def fst_decode_string split: option.splits)
    obtain st se where s: "(case body ''signer_type'' of None \<Rightarrow> ([], False)
        | Some v \<Rightarrow> decode_string v ([], False)) = (st, se)" by force
    then have sig: "\<not> se \<and> st \<in> set [[], ''nip07'', ''nip46'', ''passkey'', ''unknown''] \<longleftrightarrow> known_signer body"
      by (auto simp: known_signer_def decode_string_def split: option.splits json.splits)
    obtain en ee where e: "(case body ''enabled'' of None \<Rightarrow> (True, False)
        | Some v \<Rightarrow> decode_bool v (True, False)) = (en, ee)" by force
    then have enb: "\<not> ee \<longleftrightarrow> bool_or_absent body ''enabled''" "\<not> ee \<Longrightarrow> \<not> en \<longleftrightarrow> disabled body"
      by (auto simp: bool_or_absent_def disabled_def decode_bool_def split: option.splits json.splits)
    obtain ae where a: "(case body ''admin'' of None \<Rightarrow> False
        | Some v \<Rightarrow> snd (decode_bool v (False, False))) = ae" by force
    then have adm: "\<not> ae \<longleftrightarrow> bool_or_absent body ''admin''"
      by (auto simp: bool_or_absent_def decode_bool_fresh split: option.splits)
    show ?thesis
      using assms True Some validateEnvelope_iff [OF ne, of X] sig enb adm
      by (auto simp: Validate_identity validateIdentityDefinition_def Let_def hex_value_iff
          envelope_mistyped_def user s e a simp del: list.set split: option.splits)
  qed
qed

text \<open>A trust policy (kind 31101) is accepted exactly when it has a non-empty \<open>d\<close> tag,
  its content is JSON whose whole header decodes, the envelope rules hold, and it declares a
  schema, which is then at least 1.\<close>

theorem trust_policy_accepted_iff:
  assumes "ev_kind ev = KindTrustPolicy"
  shows "Validate X ev = None \<longleftrightarrow>
    (\<exists>d. first_value X ev ''d'' = Some d \<and> d \<noteq> []) \<and>
    unmarshal_any_ok (ev_content ev) \<and> \<not> snd (unmarshal_envelope (ev_content ev)) \<and>
    envelope_rules X ev \<and>
    (\<exists>n \<ge> 1. env_schema (fst (unmarshal_envelope (ev_content ev))) = Some n)"
proof (cases "ev_content ev = []")
  case True
  then show ?thesis using assms
    by (auto simp: Validate_trust validateTrustPolicy_def unmarshal_any_ok_def split: option.splits)
next
  case False
  have addr: "validateAddressable X ev ''trust policy'' = None \<longleftrightarrow>
      (\<exists>d. first_value X ev ''d'' = Some d \<and> d \<noteq> []) \<and> unmarshal_any_ok (ev_content ev)"
    using False by (auto simp: validateAddressable_def validateJSONContent_def Let_def
        no_value_iff tag_value_first split: option.splits)
  obtain env err where ue: "unmarshal_envelope (ev_content ev) = (env, err)" by force
  have "envelope_rules X ev \<Longrightarrow> env_schema env = Some n \<Longrightarrow> 1 \<le> n" for n
    by (simp add: envelope_rules_def ue)
  then show ?thesis using False addr assms ue validateEnvelope_iff [OF False, of X]
    by (cases "env_schema env")
      (auto simp: Validate_trust validateTrustPolicy_def split: option.splits)
qed

text \<open>An operation request (kind 2200) is accepted exactly when its content decodes into
  an object whose \<open>tool\<close> is a string with something other than white space in it.\<close>

theorem operation_request_accepted_iff:
  assumes "ev_kind ev = KindOperationRequest"
  shows "Validate X ev = None \<longleftrightarrow>
    (\<exists>tool. unmarshal_tool (ev_content ev) = (tool, False) \<and> trim_space tool \<noteq> [])"
  using assms
  by (cases "unmarshal_tool (ev_content ev)")
    (auto simp: Validate_request validateOperationRequest_def)

text \<open>An approval, rejection, execution start or execution result is accepted exactly when
  it names a request in an \<open>e\<close> tag and its content is empty or JSON.\<close>

theorem chain_step_accepted_iff:
  assumes "ev_kind ev \<in> set ChainKinds" and "ev_kind ev \<noteq> KindOperationRequest"
  shows "Validate X ev = None \<longleftrightarrow>
    (\<exists>r. first_value X ev ''e'' = Some r \<and> r \<noteq> []) \<and>
    (ev_content ev = [] \<or> unmarshal_any_ok (ev_content ev))"
  using assms
  by (auto simp: Validate_chain validateChainStep_def validateJSONContent_def Let_def
      no_value_iff tag_value_first split: option.splits)

text \<open>C40: A delegation (kind 27236) is accepted exactly when its first p and server tags hold 64-hex pubkeys,
  its first expiry tag a decimal between 1 and the largest 64-bit timestamp, and it has a scope tag;
  whether it has expired is not looked at.\<close>

theorem delegation_accepted_iff:
  assumes "ev_kind ev = KindDelegation"
  shows "Validate X ev = None \<longleftrightarrow>
    hex_value X ev ''p'' \<and> hex_value X ev ''server'' \<and>
    (\<exists>e t. first_value X ev ''expiry'' = Some e \<and> parse_int e = Some t \<and> 0 < t \<and> t < 2 ^ 63) \<and>
    tags_find X (ev_tags ev) ''scope'' \<noteq> None"
proof -
  have range: "t < 2 ^ 63" if "parse_int e = Some t" for e t
    using parse_int_range [OF that] by (simp add: int64_ok_def)
  show ?thesis
    unfolding Validate_delegation [OF assms] validateDelegation_def Let_def no_value_iff
    by (auto simp: hex_value_def tag_value_first dest: range [simplified] split: option.splits)
qed

text \<open>An accepted delegation (kind 27236) carries a delegate and a server tag with 64-hex
  pubkeys, a decimal expiry between 1 and the largest 64-bit timestamp, and a scope tag.\<close>

theorem delegation_accepted_tags:
  assumes "tag_finder (tags_find X)" and "ev_kind ev = KindDelegation" and "Validate X ev = None"
  shows "\<exists>p server expiry t scope.
    (\<exists>r. ''p'' # p # r \<in> set (ev_tags ev)) \<and> validHex64 p \<and>
    (\<exists>r. ''server'' # server # r \<in> set (ev_tags ev)) \<and> validHex64 server \<and>
    (\<exists>r. ''expiry'' # expiry # r \<in> set (ev_tags ev)) \<and>
    parse_int expiry = Some t \<and> 0 < t \<and> t < 2 ^ 63 \<and>
    (\<exists>r. ''scope'' # scope # r \<in> set (ev_tags ev))"
proof -
  note v = assms(3) [unfolded Validate_delegation [OF assms(2)] validateDelegation_def Let_def
      no_value_iff]
  obtain p s e where vals: "first_value X ev ''p'' = Some p" "first_value X ev ''server'' = Some s"
    "first_value X ev ''expiry'' = Some e"
    using v by (auto split: if_splits)
  from v have hex: "validHex64 p" "validHex64 s"
    by (auto simp: vals tag_value_first split: if_splits)
  from v obtain t where t: "parse_int e = Some t" "0 < t"
    by (auto simp: vals tag_value_first split: if_splits option.splits)
  from v obtain sc where sc: "tags_find X (ev_tags ev) ''scope'' = Some sc"
    by (auto simp: vals tag_value_first split: if_splits option.splits)
  obtain scope r where "''scope'' # scope # r \<in> set (ev_tags ev)"
    by (rule tag_finder.find_shape [OF assms(1) sc]) simp
  moreover have "t < 2 ^ 63" using parse_int_range [OF t(1)] by (simp add: int64_ok_def)
  ultimately show ?thesis
    using hex t vals [THEN first_value_tag [OF assms(1)]] by blast
qed

text \<open>A delegation revocation (kind 27237) is accepted exactly when its \<open>e\<close> tag holds a
  64-hex event id.\<close>

theorem revocation_accepted_iff:
  assumes "ev_kind ev = KindDelegationRevocation"
  shows "Validate X ev = None \<longleftrightarrow> hex_value X ev ''e''"
  using assms
  by (auto simp: Validate_revocation validateDelegationRevocation_def Let_def hex_value_iff)

lemma accepted_severity:
  assumes "ev_kind ev \<in> set NoticeKinds" and "Validate X ev = None"
    and "Notice ev = (cl, sev, summ, True)"
  shows "sev \<in> {[], SeverityInfo, SeverityWarning, SeverityCritical}"
  using assms
  by (auto simp: Validate_notice validateNotice_def Notice_def split: option.splits if_splits prod.splits)

text \<open>Every notice (2210 to 2213) that is accepted and notice-shaped has severity info,
  warning, critical or none, so the notification service only ever thresholds on known levels.\<close>

theorem notice_severity_known:
  assumes "ev_kind ev \<in> set NoticeKinds" and "Validate X ev = None"
    and "Notice ev = (cl, sev, summ, True)"
  shows "sev \<in> {[], SeverityInfo, SeverityWarning, SeverityCritical}"
  using accepted_severity [OF assms] .

text \<open>A rejection names the event's own kind, and only NostrHost's own kinds are ever
  rejected: every other kind passes.\<close>

theorem rejection_kind:
  assumes "Validate X ev = Some e"
  shows "IsCustomKind (ev_kind ev) \<and> err_kind e = ev_kind ev"
proof -
  have json: "validateJSONContent ev w = Some e \<Longrightarrow> err_kind e = ev_kind ev" for w
    by (auto simp: validateJSONContent_def split: if_splits)
  have addr: "validateAddressable X ev w = Some e \<Longrightarrow> err_kind e = ev_kind ev" for w
    by (auto simp: validateAddressable_def Let_def dest: json split: if_splits)
  have env: "validateEnvelope X ev b a = Some e \<Longrightarrow> err_kind e = ev_kind ev" for a b
    by (auto simp: validateEnvelope_def Let_def split: if_splits prod.splits)
  have cap: "validateCapability X ev = Some e \<Longrightarrow> err_kind e = ev_kind ev"
    by (auto simp: validateCapability_def Let_def dest: env split: if_splits prod.splits option.splits)
  have ident: "validateIdentityDefinition X ev = Some e \<Longrightarrow> err_kind e = ev_kind ev"
    by (auto simp: validateIdentityDefinition_def Let_def dest: env
        split: if_splits prod.splits option.splits)
  have trust: "validateTrustPolicy X ev = Some e \<Longrightarrow> err_kind e = ev_kind ev"
    by (auto simp: validateTrustPolicy_def dest: env addr split: if_splits prod.splits option.splits)
  have rest: "validateOperationRequest X ev = Some e \<Longrightarrow> err_kind e = ev_kind ev"
    "validateChainStep X ev = Some e \<Longrightarrow> err_kind e = ev_kind ev"
    "validateDelegation X ev = Some e \<Longrightarrow> err_kind e = ev_kind ev"
    "validateDelegationRevocation X ev = Some e \<Longrightarrow> err_kind e = ev_kind ev"
    "validateNotice ev = Some e \<Longrightarrow> err_kind e = ev_kind ev"
    by (auto simp: validateOperationRequest_def validateChainStep_def validateDelegation_def
        validateDelegationRevocation_def validateNotice_def Let_def
        dest: json split: if_splits prod.splits option.splits)
  show ?thesis using assms cap ident trust addr rest
    by (auto simp: Validate_def Let_def simp del: list.set split: if_splits)
qed

subsection \<open>Where the envelope stops being checked\<close>

text \<open>
  \<open>json_text\<close> writes JSON in a literal, with a backquote for the double quote.
\<close>

definition json_text :: "bytes \<Rightarrow> bytes" where
  "json_text s = map (\<lambda>c. if c = CHR 0x60 then CHR 0x22 else c) s"

definition hex_key :: "char \<Rightarrow> bytes" where
  "hex_key c = replicate 64 c"

lemma hex_key_a: "validHex64 (hex_key CHR ''a'')" and hex_key_b: "validHex64 (hex_key CHR ''b'')"
  by code_simp+

definition sample_event :: "int \<Rightarrow> tag list \<Rightarrow> bytes \<Rightarrow> event" where
  "sample_event k ts c =
     \<lparr>ev_id = hex_key CHR ''1'', ev_pubkey = hex_key CHR ''2'', ev_created_at = 1700000000,
      ev_kind = k, ev_tags = ts, ev_content = c\<rparr>"

text \<open>
  A grant that names another subject than its \<open>d\<close> tag, with a negative schema and a
  revision that is not a number.
\<close>

definition broken_envelope :: bytes where
  "broken_envelope =
     json_text ''{`type`:`agent`,`schema`:-1,`revision`:`x`,`subject`:`mallory`}''"

lemma broken_envelope_values:
  "unmarshal_envelope broken_envelope =
     (\<lparr>env_schema = Some (-1), env_revision = Some 0, env_subject = ''mallory'',
       env_updated_by = [], env_reason = []\<rparr>, True)"
  "unmarshal_raw_map broken_envelope =
     Some (map_of (rev [(''type'', JStr ''agent''), (''schema'', JNum ''-1''),
        (''revision'', JStr ''x''), (''subject'', JStr ''mallory'')]))"
proof -
  have p: "json_parse broken_envelope =
     Some (JObj [(''type'', JStr ''agent''), (''schema'', JNum ''-1''),
        (''revision'', JStr ''x''), (''subject'', JStr ''mallory'')])"
    by code_simp
  show "unmarshal_raw_map broken_envelope =
     Some (map_of (rev [(''type'', JStr ''agent''), (''schema'', JNum ''-1''),
        (''revision'', JStr ''x''), (''subject'', JStr ''mallory'')]))"
    by (simp add: unmarshal_raw_map_def p decode_raw_map_def)
  show "unmarshal_envelope broken_envelope =
     (\<lparr>env_schema = Some (-1), env_revision = Some 0, env_subject = ''mallory'',
       env_updated_by = [], env_reason = []\<rparr>, True)"
    by code_simp
qed

text \<open>One header field of the wrong type switches the whole envelope check off: under any
  64-hex \<open>d\<close> tag a capability grant whose content has schema -1, the string \<open>x\<close> as
  revision and a subject that is not the \<open>d\<close> tag is accepted.\<close>

theorem envelope_check_switched_off:
  assumes "ev_kind ev = KindCapability" and "ev_content ev = broken_envelope"
    and "hex_value X ev ''d''"
  shows "Validate X ev = None \<and> \<not> envelope_rules X ev"
proof -
  have "\<not> envelope_rules X ev"
    using assms(2) by (simp add: envelope_rules_def broken_envelope_values)
  moreover have "(envelope_mistyped ev \<or> envelope_rules X ev)"
    using assms(2) by (simp add: envelope_mistyped_def broken_envelope_values)
  moreover have "map_of (rev [(''type'', JStr ''agent''), (''schema'', JNum ''-1''),
      (''revision'', JStr ''x''), (''subject'', JStr ''mallory'')]) ''scopes'' = None"
    "map_of (rev [(''type'', JStr ''agent''), (''schema'', JNum ''-1''),
      (''revision'', JStr ''x''), (''subject'', JStr ''mallory'')]) ''type'' = Some (JStr ''agent'')"
    by simp_all
  ultimately show ?thesis
    using assms by (simp add: capability_iff broken_envelope_values del: rev.simps)
qed

subsection \<open>Contents that are read back\<close>

definition notice_json :: "bytes \<Rightarrow> bytes \<Rightarrow> bytes \<Rightarrow> bytes" where
  "notice_json cl sev summ =
     json_print (JObj [(''class'', JStr cl), (''severity'', JStr sev), (''summary'', JStr summ)])"

lemma plain_names:
  "plain ''class''" "plain ''severity''" "plain ''summary''" "plain ''tool''" "plain ''args''"
  by code_simp+

lemma notice_fields:
  "field_matches ''class'' ''class''" "\<not> field_matches ''class'' ''severity''"
  "\<not> field_matches ''class'' ''summary''" "field_matches ''severity'' ''severity''"
  "\<not> field_matches ''severity'' ''summary''" "field_matches ''summary'' ''summary''"
  "field_matches ''tool'' ''tool''" "\<not> field_matches ''tool'' ''args''"
  by code_simp+

lemma notice_json_parse:
  assumes "plain cl" "plain sev" "plain summ"
  shows "json_parse (notice_json cl sev summ) =
     Some (JObj [(''class'', JStr cl), (''severity'', JStr sev), (''summary'', JStr summ)])"
  unfolding notice_json_def using assms
  by (intro json_parse_print) (simp_all add: plain_names max_depth_def)

lemma notice_json_decodes:
  assumes "plain cl" "plain sev" "plain summ"
  shows "unmarshal_notice (notice_json cl sev summ) =
     (\<lparr>nb_class = cl, nb_severity = sev, nb_summary = summ\<rparr>, False)"
  using notice_fields
  by (simp add: unmarshal_notice_def unmarshal_struct_def notice_json_parse [OF assms]
      decode_struct_def notice_member_def decode_string_def empty_notice_def)

lemma notice_json_nonempty [simp]: "notice_json cl sev summ \<noteq> []"
  by (simp add: notice_json_def)

text \<open>C39: Printing a class, a severity and a summary of printable characters as a notice body
  and reading it with \<open>Notice\<close> gives the three back, and the event is accepted exactly when
  the severity is empty or one of the three levels.\<close>

theorem notice_roundtrip:
  assumes "plain cl" and "plain sev" and "plain summ"
    and "ev_content ev = notice_json cl sev summ" and "ev_kind ev \<in> set NoticeKinds"
  shows "Notice ev = (cl, sev, summ, True) \<and>
    (Validate X ev = None \<longleftrightarrow> sev \<in> {[], SeverityInfo, SeverityWarning, SeverityCritical})"
proof -
  have "unmarshal_any_ok (ev_content ev)"
    by (simp add: unmarshal_any_ok_def assms(4) notice_json_parse [OF assms(1-3)])
  then show ?thesis
    by (auto simp: Notice_def Validate_notice [OF assms(5)] validateNotice_def
        validateJSONContent_def assms(4) notice_json_decodes [OF assms(1-3)])
qed

text \<open>Whatever arguments it carries, a request naming a printable tool that is not blank is
  accepted: the validator does not reject a well-formed operation.\<close>

theorem operation_request_live:
  assumes "plain tool" and "trim_space tool \<noteq> []" and "printable args" and "json_depth args < max_depth"
    and "ev_kind ev = KindOperationRequest"
    and "ev_content ev = json_print (JObj [(''tool'', JStr tool), (''args'', args)])"
  shows "Validate X ev = None"
proof -
  let ?j = "JObj [(''tool'', JStr tool), (''args'', args)]"
  have "json_parse (json_print ?j) = Some ?j"
    using assms(1,3,4) by (intro json_parse_print) (simp_all add: plain_names max_depth_def)
  then have "unmarshal_tool (ev_content ev) = (tool, False)"
    using notice_fields
    by (simp add: assms(6) unmarshal_tool_def unmarshal_struct_def decode_struct_def tool_member_def
        decode_string_def)
  then show ?thesis using assms(2,5)
    by (simp add: Validate_request validateOperationRequest_def)
qed

subsection \<open>Retention classes\<close>

text \<open>No NostrHost kind is ephemeral: the four definitions are replaceable and every other
  custom kind is kept forever, the two delegation kinds included although they lie in the
  ephemeral range.\<close>

theorem custom_kind_retention:
  assumes "IsCustomKind kind"
  shows "retention_class kind =
    (if kind \<in> {KindCapability, KindTrustPolicy, KindIdentityDefinition, KindBuildAttestation}
     then ClassReplaceable else ClassImmutable)"
  using assms by (auto simp: IsCustomKind_def retention_class_def kind_defs)

text \<open>The retention class is decided by the NIP-01 ranges alone: \<open>Class\<close> returns
  ephemeral exactly on 20000 to 29999 less the two delegation kinds, replaceable exactly on
  10000 to 19999 and 30000 to 39999, and never prunable.\<close>

theorem retention_class_ranges:
  "(retention_class kind = ClassEphemeral \<longleftrightarrow>
      kind \<in> {20000..29999} - {KindDelegation, KindDelegationRevocation}) \<and>
   (retention_class kind = ClassReplaceable \<longleftrightarrow> kind \<in> {10000..19999} \<union> {30000..39999}) \<and>
   retention_class kind \<noteq> ClassPrunable"
  by (auto simp: retention_class_def kind_defs ClassEphemeral_def ClassReplaceable_def
      ClassImmutable_def ClassPrunable_def)

subsection \<open>Sample events\<close>

text \<open>Concrete events at which the theorems above apply.\<close>

definition capability_event :: event where
  "capability_event =
     sample_event KindCapability [[''d'', hex_key CHR ''a'']]
       (json_text ''{`type`:`agent`,`scopes`:[`app.read`],`revision`:1}'')"

definition identity_event :: event where
  "identity_event =
     sample_event KindIdentityDefinition [[''d'', hex_key CHR ''a'']]
       (json_text ''{`username`:``,`enabled`:false}'')"

definition trust_event :: event where
  "trust_event =
     sample_event KindTrustPolicy [[''d'', ''notification-rules'']]
       (json_text ''{`schema`:1,`revision`:3,`value`:{`rules`:[]}}'')"

definition request_event :: event where
  "request_event =
     sample_event KindOperationRequest [] (json_text ''{`tool`:`app.upgrade`,`args`:{}}'')"

definition approval_event :: event where
  "approval_event = sample_event KindOperationApproval [[''e'', hex_key CHR ''9'']] []"

definition delegation_event :: event where
  "delegation_event =
     sample_event KindDelegation
       [[''p'', hex_key CHR ''a''], [''server'', hex_key CHR ''b''], [''expiry'', ''9999999999''],
        [''scope'', ''apps.read'']] []"

definition revocation_event :: event where
  "revocation_event = sample_event KindDelegationRevocation [[''e'', hex_key CHR ''9'']] []"

definition notice_event :: event where
  "notice_event = sample_event KindBackupEvent [] (notice_json ''backup'' ''warning'' ''disk low'')"

definition broken_event :: event where
  "broken_event = sample_event KindCapability [[''d'', hex_key CHR ''a'']] broken_envelope"

lemma sample_event_simps [simp]:
  "ev_kind (sample_event k ts c) = k" "ev_tags (sample_event k ts c) = ts"
  "ev_content (sample_event k ts c) = c" "ev_pubkey (sample_event k ts c) = hex_key CHR ''2''"
  by (simp_all add: sample_event_def)

lemma sample_finder: "tag_finder (tags_find sample_ext)"
  using ft.tag_finder_axioms by (simp add: sample_ext_def)

theorem capability_accepted_iff_witness:
  "ev_kind capability_event = KindCapability \<and> hex_value sample_ext capability_event ''d''"
proof -
  have k: "ev_kind capability_event = KindCapability" by (simp add: capability_event_def)
  have "Validate sample_ext capability_event = None" by code_simp
  with capability_accepted_iff [OF k, of sample_ext] k show ?thesis by simp
qed

theorem identity_accepted_iff_witness:
  "ev_kind identity_event = KindIdentityDefinition \<and>
   (\<exists>body. unmarshal_raw_map (ev_content identity_event) = Some body \<and> known_signer body)"
proof -
  have k: "ev_kind identity_event = KindIdentityDefinition" by (simp add: identity_event_def)
  have "Validate sample_ext identity_event = None" by code_simp
  with identity_accepted_iff [OF k, of sample_ext] k show ?thesis by auto
qed

theorem trust_policy_accepted_iff_witness:
  "ev_kind trust_event = KindTrustPolicy \<and> envelope_rules sample_ext trust_event"
proof -
  have k: "ev_kind trust_event = KindTrustPolicy" by (simp add: trust_event_def)
  have "Validate sample_ext trust_event = None" by code_simp
  with trust_policy_accepted_iff [OF k, of sample_ext] k show ?thesis by auto
qed

theorem operation_request_accepted_iff_witness:
  "ev_kind request_event = KindOperationRequest \<and>
   (\<exists>tool. unmarshal_tool (ev_content request_event) = (tool, False))"
proof -
  have k: "ev_kind request_event = KindOperationRequest" by (simp add: request_event_def)
  have "Validate sample_ext request_event = None" by code_simp
  with operation_request_accepted_iff [OF k, of sample_ext] k show ?thesis by auto
qed

theorem chain_step_accepted_iff_witness:
  "ev_kind approval_event \<in> set ChainKinds \<and> first_value sample_ext approval_event ''e'' \<noteq> None"
proof -
  have k: "ev_kind approval_event \<in> set ChainKinds" "ev_kind approval_event \<noteq> KindOperationRequest"
    by (simp_all add: approval_event_def ChainKinds_def kind_defs)
  have "Validate sample_ext approval_event = None" by code_simp
  with chain_step_accepted_iff [OF k, of sample_ext] k show ?thesis by auto
qed

theorem delegation_accepted_iff_witness: "hex_value sample_ext delegation_event ''server''"
proof -
  have k: "ev_kind delegation_event = KindDelegation" by (simp add: delegation_event_def)
  have "Validate sample_ext delegation_event = None" by code_simp
  with delegation_accepted_iff [OF k, of sample_ext] show ?thesis by simp
qed

theorem delegation_accepted_tags_witness:
  "\<exists>p. (\<exists>r. ''p'' # p # r \<in> set (ev_tags delegation_event)) \<and> validHex64 p"
proof -
  have k: "ev_kind delegation_event = KindDelegation" by (simp add: delegation_event_def)
  have "Validate sample_ext delegation_event = None" by code_simp
  from delegation_accepted_tags [OF sample_finder k this] show ?thesis by blast
qed

theorem revocation_accepted_iff_witness: "hex_value sample_ext revocation_event ''e''"
proof -
  have k: "ev_kind revocation_event = KindDelegationRevocation" by (simp add: revocation_event_def)
  have "Validate sample_ext revocation_event = None" by code_simp
  with revocation_accepted_iff [OF k, of sample_ext] show ?thesis by simp
qed

lemma plain_samples: "plain ''backup''" "plain ''warning''" "plain ''disk low''" "plain ''app.upgrade''"
  by code_simp+

lemma notice_event_kind: "ev_kind notice_event \<in> set NoticeKinds"
  by (simp add: notice_event_def NoticeKinds_def)

theorem notice_roundtrip_witness:
  "Notice notice_event = (''backup'', ''warning'', ''disk low'', True)"
  using notice_roundtrip [OF plain_samples(1-3) _ notice_event_kind, of sample_ext]
  by (simp add: notice_event_def)

theorem notice_severity_known_witness:
  "''warning'' \<in> {[], SeverityInfo, SeverityWarning, SeverityCritical}"
proof -
  have "Validate sample_ext notice_event = None" by code_simp
  moreover have "Notice notice_event = (''backup'', ''warning'', ''disk low'', True)" by code_simp
  ultimately show ?thesis by (rule notice_severity_known [OF notice_event_kind])
qed

theorem operation_request_live_witness:
  "Validate sample_ext (sample_event KindOperationRequest []
     (json_print (JObj [(''tool'', JStr ''app.upgrade''), (''args'', JObj [])]))) = None"
proof -
  have "trim_space ''app.upgrade'' \<noteq> []" by code_simp
  then show ?thesis
    by (intro operation_request_live [of "''app.upgrade''" "JObj []"])
      (simp_all add: plain_samples max_depth_def)
qed

theorem envelope_check_switched_off_witness:
  "Validate sample_ext broken_event = None \<and> \<not> envelope_rules sample_ext broken_event"
proof -
  have "hex_value sample_ext broken_event ''d''"
    unfolding hex_value_iff by code_simp
  then show ?thesis
    by (intro envelope_check_switched_off) (simp_all add: broken_event_def)
qed

theorem rejection_kind_witness:
  "\<exists>e. Validate sample_ext (sample_event KindOperationRequest [] []) = Some e \<and>
     err_kind e = KindOperationRequest"
proof -
  have "Validate sample_ext (sample_event KindOperationRequest [] []) \<noteq> None" by code_simp
  then obtain e where "Validate sample_ext (sample_event KindOperationRequest [] []) = Some e" by blast
  with rejection_kind [OF this] show ?thesis by simp
qed

theorem custom_kind_retention_witness: "retention_class KindDelegation = ClassImmutable"
  using custom_kind_retention [of KindDelegation] by (simp add: IsCustomKind_def kind_defs)

end
