(* ===== verification/EventProtocol.thy ===== *)
theory EventProtocol
  imports EventModelProps
begin

text \<open>
  \<open>src/internal/eventprotocol/eventprotocol.go\<close>: the conformance consumer. It runs the event
  model on a corpus event and translates the reason of a rejection into a stable code by
  looking for phrases in it.
\<close>

record verdict =
  accept :: bool
  code :: bytes

text \<open>The corpus form of an event (\<open>Event\<close>); \<open>toNostr\<close> copies it field by field.\<close>

record corpus_event =
  c_id :: bytes
  c_kind :: int
  c_created_at :: int
  c_tags :: "bytes list list"
  c_content :: bytes
  c_pubkey :: bytes

definition toNostr :: "corpus_event \<Rightarrow> event" where
  "toNostr e =
     \<lparr>ev_id = c_id e, ev_pubkey = c_pubkey e, ev_created_at = c_created_at e, ev_kind = c_kind e,
      ev_tags = c_tags e, ev_content = c_content e\<rparr>"

definition codeFor :: "int \<Rightarrow> bytes \<Rightarrow> bytes" where
  "codeFor kind reason =
     (let trimmed = trim_space reason in
      if contains trimmed '''subject' must mirror'' then ''subject-mismatch''
      else if contains trimmed '''schema' must be an integer'' then ''schema-invalid''
      else if contains trimmed '''revision' must be an integer'' then ''revision-invalid''
      else if contains trimmed (''must carry an envelope 'schema'' @ [CHR 0x27])
        then ''31101:missing-schema''
      else if contains trimmed ''content must be JSON'' then ''content-not-json''
      else if kind = KindCapability then
        (if contains trimmed ''must be the subject pubkey'' then ''d-not-hex64''
         else if contains trimmed '''d' tag'' then ''missing-d''
         else if contains trimmed (''declare a 'type'' @ [CHR 0x27]) then ''31100:missing-type''
         else if contains trimmed '''scopes' must be an array'' then ''31100:scopes-not-array''
         else ''schema-invalid'')
      else if kind = KindTrustPolicy then
        (if contains trimmed '''d' tag'' then ''missing-d'' else ''schema-invalid'')
      else if kind = KindIdentityDefinition then
        (if contains trimmed ''must be the subject pubkey'' then ''d-not-hex64''
         else if contains trimmed '''d' tag'' then ''missing-d''
         else if contains trimmed (''non-empty 'username'' @ [CHR 0x27]) then ''31102:missing-username''
         else if contains trimmed ''signer_type must be one of'' then ''31102:bad-signer-type''
         else if contains trimmed '''enabled' must be a boolean'' then ''31102:enabled-not-bool''
         else if contains trimmed '''admin' must be a boolean'' then ''31102:admin-not-bool''
         else ''schema-invalid'')
      else if kind = KindDelegation then
        (if contains trimmed ''p, server, and expiry'' \<or> contains trimmed ''p and server tags''
           then ''27236:bad-tags''
         else if contains trimmed ''expiry must be'' then ''27236:bad-expiry''
         else if contains trimmed ''at least one scope'' then ''27236:missing-scope''
         else ''schema-invalid'')
      else if kind = KindDelegationRevocation then
        (if contains trimmed ''64-hex e tag'' then ''27237:missing-e'' else ''schema-invalid'')
      else ''schema-invalid'')"

text \<open>An \<open>error\<close> value, as \<open>errors.As\<close> sees it. The event model returns \<open>EventModelError\<close>s only.\<close>

datatype go_error = ModelError model_error | OtherError bytes

fun reasonCode :: "go_error \<Rightarrow> bytes" where
  "reasonCode (OtherError _) = ''schema-invalid''"
| "reasonCode (ModelError e) = codeFor (err_kind e) (err_reason e)"

definition protocol_validate :: "ext \<Rightarrow> corpus_event \<Rightarrow> verdict" where
  "protocol_validate X e =
     (let ev = toNostr e in
      if \<not> IsCustomKind (c_kind e) then \<lparr>accept = True, code = []\<rparr>
      else (case Validate X ev of
          Some err \<Rightarrow> \<lparr>accept = False, code = reasonCode (ModelError err)\<rparr>
        | None \<Rightarrow> \<lparr>accept = True, code = []\<rparr>))"

subsection \<open>The code of every reason\<close>

named_theorems reason_codes \<open>the code of each reason of the event model\<close>

lemma codes_capability [reason_codes]:
  "codeFor KindCapability ''capability event requires a non-empty 'd' tag'' = ''missing-d''"
  "codeFor KindCapability ''capability event 'd' tag must be the subject pubkey (64-hex)''
     = ''d-not-hex64''"
  "codeFor KindCapability ''capability content must be JSON'' = ''content-not-json''"
  "codeFor KindCapability missing_type_reason = ''31100:missing-type''"
  "codeFor KindCapability ''capability 'scopes' must be an array of strings''
     = ''31100:scopes-not-array''"
  by code_simp+

lemma codes_identity [reason_codes]:
  "codeFor KindIdentityDefinition ''identity definition requires a non-empty 'd' tag'' = ''missing-d''"
  "codeFor KindIdentityDefinition ''identity definition 'd' tag must be the subject pubkey (64-hex)''
     = ''d-not-hex64''"
  "codeFor KindIdentityDefinition ''identity definition content must be JSON'' = ''content-not-json''"
  "codeFor KindIdentityDefinition signer_type_reason = ''31102:bad-signer-type''"
  "codeFor KindIdentityDefinition ''identity definition 'enabled' must be a boolean''
     = ''31102:enabled-not-bool''"
  "codeFor KindIdentityDefinition ''identity definition 'admin' must be a boolean''
     = ''31102:admin-not-bool''"
  "codeFor KindIdentityDefinition missing_username_reason = ''31102:missing-username''"
  by code_simp+

lemma codes_delegation [reason_codes]:
  "codeFor KindDelegation ''delegation requires p, server, and expiry tags'' = ''27236:bad-tags''"
  "codeFor KindDelegation ''delegation p and server tags must be 64-hex pubkeys'' = ''27236:bad-tags''"
  "codeFor KindDelegation ''delegation expiry must be a positive unix timestamp''
     = ''27236:bad-expiry''"
  "codeFor KindDelegation ''delegation requires at least one scope tag'' = ''27236:missing-scope''"
  "codeFor KindDelegationRevocation ''delegation revocation requires a 64-hex e tag''
     = ''27237:missing-e''"
  by code_simp+

lemma codes_trust [reason_codes]:
  "codeFor KindTrustPolicy ''trust policy must carry a non-empty 'd' tag'' = ''missing-d''"
  "codeFor KindTrustPolicy ''trust policy content must be valid JSON'' = ''schema-invalid''"
  "codeFor KindTrustPolicy missing_schema_reason = ''31101:missing-schema''"
  by code_simp+

lemma codes_envelope [reason_codes]:
  "codeFor k ''envelope 'schema' must be an integer >= 1'' = ''schema-invalid''"
  "codeFor k ''envelope 'revision' must be an integer >= 0'' = ''revision-invalid''"
  "codeFor k ''envelope 'subject' must mirror the 'd' tag'' = ''subject-mismatch''"
proof -
  have t: "trim_space ''envelope 'schema' must be an integer >= 1'' = ''envelope 'schema' must be an integer >= 1''"
    "trim_space ''envelope 'revision' must be an integer >= 0'' = ''envelope 'revision' must be an integer >= 0''"
    "trim_space ''envelope 'subject' must mirror the 'd' tag'' = ''envelope 'subject' must mirror the 'd' tag''"
    by code_simp+
  show "codeFor k ''envelope 'schema' must be an integer >= 1'' = ''schema-invalid''"
    "codeFor k ''envelope 'revision' must be an integer >= 0'' = ''revision-invalid''"
    "codeFor k ''envelope 'subject' must mirror the 'd' tag'' = ''subject-mismatch''"
    by (simp_all add: codeFor_def t)
qed

text \<open>A decoding error is recognised by the text in front of the library's message.\<close>

lemma trim_left_stops:
  assumes "\<And>w. w \<in> set ws \<Longrightarrow> y \<notin> set w"
  shows "\<exists>zs. trim_left ws (xs @ y # ys) = zs @ y # ys"
proof (induction "length xs" arbitrary: xs rule: less_induct)
  case less
  show ?case
  proof (cases "find (\<lambda>w. w \<noteq> [] \<and> has_prefix (xs @ y # ys) w) ws")
    case None
    then show ?thesis by (simp add: trim_left.simps [of ws])
  next
    case (Some w)
    then have w: "w \<in> set ws" "w \<noteq> []" "has_prefix (xs @ y # ys) w"
      by (auto dest: find_Some_cases)
    then obtain t where t: "xs @ y # ys = w @ t" by (auto simp: has_prefix_iff)
    with assms [OF w(1)] obtain us where us: "xs = w @ us"
      by (auto simp: append_eq_append_conv2 Cons_eq_append_conv)
    with w(2) have "length us < length xs" by simp
    from less [OF this] us Some show ?thesis by (simp add: trim_left.simps [of ws])
  qed
qed

lemma trim_space_keeps:
  assumes "y = CHR '':''" and "trim_left space_runes (p @ y # q) = p @ y # q"
  shows "\<exists>q'. trim_space (p @ y # q) = p @ y # q'"
proof -
  have "y \<notin> set w" if "w \<in> set (map rev space_runes)" for w
    using that assms(1) by (auto simp: space_runes_def)
  then have "\<exists>zs. trim_left (map rev space_runes) (rev q @ y # rev p) = zs @ y # rev p"
    by (rule trim_left_stops)
  then obtain zs where "trim_left (map rev space_runes) (rev (p @ y # q)) = zs @ y # rev p" by auto
  then have "trim_space (p @ y # q) = p @ y # rev zs"
    by (simp add: trim_space_def assms(2))
  then show ?thesis by blast
qed

text \<open>
  The text of a decoding error must not itself contain one of the phrases that the translation
  looks for first.
\<close>

definition header_phrases :: "bytes list" where
  "header_phrases =
     ['''subject' must mirror'', '''schema' must be an integer'',
      '''revision' must be an integer'', ''must carry an envelope 'schema'' @ [CHR 0x27]]"

definition benign_errors :: "ext \<Rightarrow> bool" where
  "benign_errors X \<longleftrightarrow>
     (\<forall>c. \<forall>p \<in> set header_phrases.
        \<not> contains (''operation request content must be JSON: '' @ json_error X c) p \<and>
        \<not> contains (''trust policy content must be JSON: '' @ json_error X c) p)"

lemma contains_trimD:
  assumes "contains (trim_space s) p"
  shows "contains s p"
proof -
  obtain a where a: "s = a @ trim_left space_runes s" using trim_left_suffix by blast
  obtain b where "rev (trim_left space_runes s) = b @ trim_left (map rev space_runes) (rev (trim_left space_runes s))"
    using trim_left_suffix by blast
  then have "trim_left space_runes s = trim_space s @ rev b"
    by (metis rev_append rev_rev_ident trim_space_def)
  with a have "s = a @ trim_space s @ rev b" by simp
  with assms show ?thesis unfolding contains_iff by (metis append.assoc)
qed

lemma decoding_error_code:
  assumes "p = ''operation request content must be JSON'' \<or> p = ''trust policy content must be JSON''"
    and "\<forall>q \<in> set header_phrases. \<not> contains (p @ '': '' @ t) q"
  shows "codeFor k (p @ '': '' @ t) = ''content-not-json''"
proof -
  let ?s = "p @ CHR '':'' # CHR '' '' # t"
  have "trim_left space_runes ?s = ?s"
    using assms(1) by (intro trim_left_id) (auto simp: space_runes_def)
  from trim_space_keeps [OF refl this] obtain q' where q: "trim_space ?s = p @ CHR '':'' # q'" by blast
  have "contains ''operation request content must be JSON'' ''content must be JSON''"
    "contains ''trust policy content must be JSON'' ''content must be JSON''"
    by code_simp+
  then have "contains p ''content must be JSON''" using assms(1) by auto
  then have c: "contains (trim_space ?s) ''content must be JSON''"
    unfolding q by (rule contains_prefix_appendI)
  have "\<not> contains (trim_space ?s) h" if "h \<in> set header_phrases" for h
    using that assms(2) contains_trimD [of ?s h] by auto
  with c show ?thesis by (simp add: codeFor_def header_phrases_def)
qed

lemma benign_request:
  "benign_errors X \<Longrightarrow>
   codeFor k (''operation request content must be JSON: '' @ json_error X c) = ''content-not-json''"
  using decoding_error_code [of "''operation request content must be JSON''" "json_error X c" k]
  by (simp add: benign_errors_def)

lemma benign_trust:
  "benign_errors X \<Longrightarrow>
   codeFor k (''trust policy content must be JSON: '' @ json_error X c) = ''content-not-json''"
  using decoding_error_code [of "''trust policy content must be JSON''" "json_error X c" k]
  by (simp add: benign_errors_def)

subsection \<open>The translation by phrases is exact\<close>

definition bad_schema :: "envelope \<Rightarrow> bool" where
  "bad_schema env \<longleftrightarrow> (\<exists>n < 1. env_schema env = Some n)"

definition bad_revision :: "envelope \<Rightarrow> bool" where
  "bad_revision env \<longleftrightarrow> (\<exists>n < 0. env_revision env = Some n)"

definition bad_subject :: "ext \<Rightarrow> event \<Rightarrow> envelope \<Rightarrow> bool" where
  "bad_subject X ev env \<longleftrightarrow> env_subject env \<noteq> [] \<and> first_value X ev ''d'' \<noteq> Some (env_subject env)"

definition envelope_code :: "ext \<Rightarrow> event \<Rightarrow> bytes" where
  "envelope_code X ev =
     (let (env, err) = unmarshal_envelope (ev_content ev) in
      if ev_content ev = [] \<or> err then []
      else if bad_schema env then ''schema-invalid''
      else if bad_revision env then ''revision-invalid''
      else if bad_subject X ev env then ''subject-mismatch'' else [])"

lemma envelope_conditions:
  "(case env_schema env of None \<Rightarrow> False | Some n \<Rightarrow> n < 1) = bad_schema env"
  "(case env_revision env of None \<Rightarrow> False | Some n \<Rightarrow> n < 0) = bad_revision env"
  "(True \<and> env_subject env \<noteq> [] \<and>
     (no_value (tags_find X (ev_tags ev) ''d'') \<or> env_subject env \<noteq> tag_value (tags_find X (ev_tags ev) ''d'')))
   = bad_subject X ev env"
  by (auto simp: bad_schema_def bad_revision_def bad_subject_def first_value_def split: option.splits)

lemma envelope_code_spec:
  "case validateEnvelope X ev (ev_content ev) True of
     None \<Rightarrow> envelope_code X ev = []
   | Some e \<Rightarrow> envelope_code X ev = reasonCode (ModelError e) \<and> envelope_code X ev \<noteq> []"
proof (cases "unmarshal_envelope (ev_content ev)")
  case (Pair env err)
  show ?thesis
    unfolding validateEnvelope_def envelope_code_def Pair Let_def prod.case envelope_conditions
    by (simp add: kind_error_def reason_codes)
qed

definition bad_scopes :: "(bytes \<rightharpoonup> json) \<Rightarrow> bool" where
  "bad_scopes body \<longleftrightarrow> (\<exists>raw. body ''scopes'' = Some raw \<and> \<not> string_slice_ok raw)"

definition capability_code :: "ext \<Rightarrow> event \<Rightarrow> bytes" where
  "capability_code X ev =
     (if first_value X ev ''d'' = None then ''missing-d''
      else if \<not> hex_value X ev ''d'' then ''d-not-hex64''
      else if \<not> json_valid (ev_content ev) then ''content-not-json''
      else if envelope_code X ev \<noteq> [] then envelope_code X ev
      else (case unmarshal_raw_map (ev_content ev) of
          None \<Rightarrow> ''content-not-json''
        | Some body \<Rightarrow>
            (if string_of_member body ''type'' = [] then ''31100:missing-type''
             else if bad_scopes body then ''31100:scopes-not-array'' else [])))"

definition verdict_of :: "bytes \<Rightarrow> verdict" where
  "verdict_of c = \<lparr>accept = (c = []), code = c\<rparr>"

definition verdict_for :: "model_error option \<Rightarrow> verdict" where
  "verdict_for r =
     (case r of Some err \<Rightarrow> \<lparr>accept = False, code = reasonCode (ModelError err)\<rparr>
      | None \<Rightarrow> \<lparr>accept = True, code = []\<rparr>)"

lemma verdict_for_simps [simp]:
  "verdict_for None = verdict_of []"
  "codeFor k r \<noteq> [] \<Longrightarrow> verdict_for (kind_error k r) = verdict_of (codeFor k r)"
  by (simp_all add: verdict_for_def verdict_of_def kind_error_def)

lemma verdict_for_envelope:
  "verdict_for (case validateEnvelope X ev (ev_content ev) True of Some e \<Rightarrow> Some e | None \<Rightarrow> r) =
   (if envelope_code X ev \<noteq> [] then verdict_of (envelope_code X ev) else verdict_for r)"
  using envelope_code_spec [of X ev]
  by (auto simp: verdict_for_def verdict_of_def split: option.splits)

lemma type_condition:
  "(let (typeStr, terr) =
      (case body ''type'' of None \<Rightarrow> ([], False) | Some raw \<Rightarrow> decode_string raw ([], False))
    in if terr \<or> typeStr = [] then r else r') =
   (if string_of_member body ''type'' = [] then r else r')"
  by (auto simp: string_of_member_def decode_string_def split: option.splits json.splits)

lemma scopes_condition:
  "(case body ''scopes'' of None \<Rightarrow> None | Some raw \<Rightarrow> if string_slice_ok raw then None else r) =
   (if bad_scopes body then r else None)"
  by (auto simp: bad_scopes_def split: option.splits)

lemma hex_conditions:
  "(if no_value (tags_find X (ev_tags ev) k) then a
    else if \<not> validHex64 (tag_value (tags_find X (ev_tags ev) k)) then b else c) =
   (if first_value X ev k = None then a else if \<not> hex_value X ev k then b else c)"
  by (simp add: no_value_iff hex_value_iff)

lemma verdict_for_if: "verdict_for (if b then r else s) = (if b then verdict_for r else verdict_for s)"
  by simp

lemma verdict_of_if: "verdict_of (if b then r else s) = (if b then verdict_of r else verdict_of s)"
  by simp

lemma verdict_for_map_case:
  "verdict_for (case m of None \<Rightarrow> r | Some b \<Rightarrow> f b) =
   (case m of None \<Rightarrow> verdict_for r | Some b \<Rightarrow> verdict_for (f b))"
  by (simp split: option.splits)

lemma verdict_of_map_case:
  "verdict_of (case m of None \<Rightarrow> r | Some b \<Rightarrow> f b) =
   (case m of None \<Rightarrow> verdict_of r | Some b \<Rightarrow> verdict_of (f b))"
  by (simp split: option.splits)

lemmas verdict_push = verdict_for_if verdict_of_if verdict_for_map_case verdict_of_map_case

lemma protocol_validate_custom:
  "IsCustomKind (c_kind e) \<Longrightarrow> protocol_validate X e = verdict_for (Validate X (toNostr e))"
  by (simp add: protocol_validate_def verdict_for_def)

lemma capability_verdict:
  assumes "c_kind e = KindCapability"
  shows "protocol_validate X e = verdict_of (capability_code X (toNostr e))"
proof -
  have k: "ev_kind (toNostr e) = KindCapability" using assms by (simp add: toNostr_def)
  have "verdict_for (validateCapability X (toNostr e)) = verdict_of (capability_code X (toNostr e))"
    unfolding validateCapability_def capability_code_def k type_condition scopes_condition
    by (simp only: Let_def hex_conditions verdict_for_if verdict_for_envelope)
      (simp add: verdict_push reason_codes
        cong: if_cong option.case_cong)
  then show ?thesis using assms by (simp add: protocol_validate_custom Validate_capability [OF k])
qed


definition string_or_absent :: "(bytes \<rightharpoonup> json) \<Rightarrow> bytes \<Rightarrow> bool" where
  "string_or_absent body k \<longleftrightarrow> (\<forall>j. body k = Some j \<longrightarrow> j = JNull \<or> (\<exists>s. j = JStr s))"

lemma member_decoders:
  "(case body k of None \<Rightarrow> ([], False) | Some v \<Rightarrow> decode_string v ([], False)) =
     (string_of_member body k, \<not> string_or_absent body k)"
  "(case body k of None \<Rightarrow> [] | Some v \<Rightarrow> fst (decode_string v ([], False))) = string_of_member body k"
  "(case body ''enabled'' of None \<Rightarrow> (True, False) | Some v \<Rightarrow> decode_bool v (True, False)) =
     (\<not> disabled body, \<not> bool_or_absent body ''enabled'')"
  "(case body k of None \<Rightarrow> False | Some v \<Rightarrow> snd (decode_bool v (False, False))) =
     (\<not> bool_or_absent body k)"
  by (auto simp: string_of_member_def string_or_absent_def disabled_def bool_or_absent_def
      decode_string_def decode_bool_def split: option.splits json.splits)

definition identity_code :: "ext \<Rightarrow> event \<Rightarrow> bytes" where
  "identity_code X ev =
     (if first_value X ev ''d'' = None then ''missing-d''
      else if \<not> hex_value X ev ''d'' then ''d-not-hex64''
      else if \<not> json_valid (ev_content ev) then ''content-not-json''
      else if envelope_code X ev \<noteq> [] then envelope_code X ev
      else (case unmarshal_raw_map (ev_content ev) of
          None \<Rightarrow> ''content-not-json''
        | Some body \<Rightarrow>
            (if \<not> string_or_absent body ''signer_type'' then ''31102:bad-signer-type''
             else if \<not> bool_or_absent body ''enabled'' then ''31102:enabled-not-bool''
             else if \<not> bool_or_absent body ''admin'' then ''31102:admin-not-bool''
             else if trim_space (string_of_member body ''username'') = [] \<and> \<not> disabled body
             then ''31102:missing-username''
             else if string_of_member body ''signer_type''
                 \<in> set [[], ''nip07'', ''nip46'', ''passkey'', ''unknown'']
             then [] else ''31102:bad-signer-type'')))"

text \<open>The same exactness for identity definitions: every rejection gets the code of the first
  broken rule, in the order tags, JSON, envelope, signer type, enabled, admin, username, known
  signer.\<close>

theorem identity_verdict_exact:
  assumes "c_kind e = KindIdentityDefinition"
  shows "protocol_validate X e = verdict_of (identity_code X (toNostr e))"
proof -
  have k: "ev_kind (toNostr e) = KindIdentityDefinition" using assms by (simp add: toNostr_def)
  have "verdict_for (validateIdentityDefinition X (toNostr e)) =
      verdict_of (identity_code X (toNostr e))"
    unfolding validateIdentityDefinition_def identity_code_def k member_decoders
    by (simp only: Let_def prod.case hex_conditions verdict_for_if verdict_for_envelope)
      (simp add: verdict_push reason_codes del: list.set cong: if_cong option.case_cong)
  then show ?thesis using assms by (simp add: protocol_validate_custom Validate_identity [OF k])
qed

definition trust_code :: "ext \<Rightarrow> event \<Rightarrow> bytes" where
  "trust_code X ev =
     (if first_value X ev ''d'' = None \<or> first_value X ev ''d'' = Some [] then ''missing-d''
      else if ev_content ev \<noteq> [] \<and> \<not> unmarshal_any_ok (ev_content ev) then ''schema-invalid''
      else if envelope_code X ev \<noteq> [] then envelope_code X ev
      else if ev_content ev = [] then ''31101:missing-schema''
      else if snd (unmarshal_envelope (ev_content ev)) then ''content-not-json''
      else if env_schema (fst (unmarshal_envelope (ev_content ev))) = None
      then ''31101:missing-schema'' else [])"

lemma d_condition:
  "(no_value (tags_find X (ev_tags ev) k) \<or> tag_value (tags_find X (ev_tags ev) k) = []) =
   (first_value X ev k = None \<or> first_value X ev k = Some [])"
  by (auto simp: first_value_def)

text \<open>Trust policies: the codes are exact too, but content that is not JSON gets the code
  \<open>schema-invalid\<close> (its reason says "valid JSON", not the phrase the table knows), while
  JSON that does not decode into the header gets \<open>content-not-json\<close>.\<close>

theorem trust_verdict_exact:
  assumes "benign_errors X" and "c_kind e = KindTrustPolicy"
  shows "protocol_validate X e = verdict_of (trust_code X (toNostr e))"
proof -
  let ?ev = "toNostr e"
  have k: "ev_kind ?ev = KindTrustPolicy" using assms by (simp add: toNostr_def)
  obtain env err where ue: "unmarshal_envelope (ev_content ?ev) = (env, err)" by force
  have "validateTrustPolicy X ?ev =
     (if first_value X ?ev ''d'' = None \<or> first_value X ?ev ''d'' = Some []
      then kind_error KindTrustPolicy ''trust policy must carry a non-empty 'd' tag''
      else if ev_content ?ev \<noteq> [] \<and> \<not> unmarshal_any_ok (ev_content ?ev)
      then kind_error KindTrustPolicy ''trust policy content must be valid JSON''
      else (case validateEnvelope X ?ev (ev_content ?ev) True of
          Some e \<Rightarrow> Some e
        | None \<Rightarrow>
          (if ev_content ?ev = [] then kind_error KindTrustPolicy missing_schema_reason
           else if err then kind_error KindTrustPolicy
               (''trust policy content must be JSON: '' @ json_error X (ev_content ?ev))
           else if env_schema env = None then kind_error KindTrustPolicy missing_schema_reason
           else None)))"
    unfolding validateTrustPolicy_def validateAddressable_def validateJSONContent_def Let_def
      d_condition ue k prod.case
    by (simp add: kind_error_def)
  moreover have "verdict_for \<dots> = verdict_of (trust_code X ?ev)"
    unfolding trust_code_def ue fst_conv snd_conv
    by (simp only: verdict_for_if verdict_for_envelope)
      (simp add: verdict_push reason_codes benign_trust [OF assms(1), simplified]
        cong: if_cong)
  ultimately show ?thesis using assms by (simp add: protocol_validate_custom Validate_trust [OF k])
qed

definition positive_expiry :: "bytes \<Rightarrow> bool" where
  "positive_expiry s \<longleftrightarrow> (\<exists>t > 0. parse_int s = Some t)"

definition delegation_code :: "ext \<Rightarrow> event \<Rightarrow> bytes" where
  "delegation_code X ev =
     (if first_value X ev ''p'' = None \<or> first_value X ev ''server'' = None \<or>
         first_value X ev ''expiry'' = None \<or> \<not> hex_value X ev ''p'' \<or> \<not> hex_value X ev ''server''
      then ''27236:bad-tags''
      else if \<not> positive_expiry (the (first_value X ev ''expiry''))
      then ''27236:bad-expiry''
      else if tags_find X (ev_tags ev) ''scope'' = None then ''27236:missing-scope'' else [])"

lemma expiry_condition:
  "(case parse_int s of None \<Rightarrow> True | Some t \<Rightarrow> t \<le> 0) \<longleftrightarrow> \<not> positive_expiry s"
proof (cases "parse_int s")
  case (Some t)
  then have "positive_expiry s \<longleftrightarrow> 0 < t" by (auto simp: positive_expiry_def)
  with Some show ?thesis by auto
qed (simp add: positive_expiry_def)

text \<open>Delegations and their revocations: the code names the broken rule (tags, expiry, scope,
  revoked event).\<close>

theorem delegation_verdict_exact:
  assumes "c_kind e \<in> {KindDelegation, KindDelegationRevocation}"
  shows "protocol_validate X e = verdict_of
    (if c_kind e = KindDelegation then delegation_code X (toNostr e)
     else if hex_value X (toNostr e) ''e'' then [] else ''27237:missing-e'')"
proof (cases "c_kind e = KindDelegation")
  case True
  let ?ev = "toNostr e"
  have k: "ev_kind ?ev = KindDelegation" using True by (simp add: toNostr_def)
  have "verdict_for (validateDelegation X ?ev) = verdict_of (delegation_code X ?ev)"
    unfolding validateDelegation_def delegation_code_def Let_def no_value_iff expiry_condition k
    by (cases "first_value X ?ev ''p''"; cases "first_value X ?ev ''server''";
        cases "first_value X ?ev ''expiry''")
      (simp_all add: verdict_push reason_codes hex_value_def tag_value_first)
  then show ?thesis using True by (simp add: protocol_validate_custom Validate_delegation [OF k])
next
  case False
  let ?ev = "toNostr e"
  have c: "c_kind e = KindDelegationRevocation" using False assms by simp
  then have k: "ev_kind ?ev = KindDelegationRevocation" by (simp add: toNostr_def)
  have "verdict_for (validateDelegationRevocation X ?ev) =
      verdict_of (if hex_value X ?ev ''e'' then [] else ''27237:missing-e'')"
    unfolding validateDelegationRevocation_def Let_def k
    by (simp add: verdict_push reason_codes hex_value_iff)
  then show ?thesis using False c
    by (simp add: protocol_validate_custom Validate_revocation [OF k])
qed

text \<open>A reason without any phrase of the table, on a kind without phrases of its own.\<close>

lemma codes_plain:
  assumes "k \<notin> {KindCapability, KindTrustPolicy, KindIdentityDefinition, KindDelegation, KindDelegationRevocation}"
    and "list_all (\<lambda>p. \<not> contains r p) (header_phrases @ [''content must be JSON''])"
  shows "codeFor k r = ''schema-invalid''"
proof -
  have "list_all (\<lambda>p. \<not> contains (trim_space r) p) (header_phrases @ [''content must be JSON''])"
    using assms(2) contains_trimD [of r] unfolding list_all_iff by blast
  then show ?thesis using assms(1) by (simp add: codeFor_def header_phrases_def)
qed

lemma plain_reasons:
  "\<forall>r \<in> set [''operation request content must declare a non-empty 'tool'' @ [CHR 0x27],
      ''operation chain events must reference the request via an 'e' tag'', ''chain step content must be valid JSON'',
      ''build attestation must carry a non-empty 'd' tag'', ''build attestation content must be valid JSON'',
      ''notice payload content must be valid JSON'', ''notice severity must be one of info|warning|critical''].
     list_all (\<lambda>p. \<not> contains r p) (header_phrases @ [''content must be JSON''])"
  by code_simp

definition own_codes :: "int set" where
  "own_codes = {KindCapability, KindTrustPolicy, KindIdentityDefinition, KindDelegation, KindDelegationRevocation}"

lemma plain_codes:
  "k \<notin> own_codes \<Longrightarrow> r \<in> set [''operation request content must declare a non-empty 'tool'' @ [CHR 0x27],
      ''operation chain events must reference the request via an 'e' tag'', ''chain step content must be valid JSON'',
      ''build attestation must carry a non-empty 'd' tag'', ''build attestation content must be valid JSON'',
      ''notice payload content must be valid JSON'', ''notice severity must be one of info|warning|critical''] \<Longrightarrow>
   codeFor k r = ''schema-invalid''"
  unfolding own_codes_def using plain_reasons by (intro codes_plain) blast+

lemma request_verdict:
  assumes "benign_errors X" and "ev_kind ev = KindOperationRequest"
  shows "verdict_for (validateOperationRequest X ev) = verdict_of
    (if snd (unmarshal_tool (ev_content ev)) then ''content-not-json''
     else if trim_space (fst (unmarshal_tool (ev_content ev))) = [] then ''schema-invalid'' else [])"
proof -
  have k: "KindOperationRequest \<notin> own_codes" by (simp add: own_codes_def kind_defs)
  obtain tool err where u: "unmarshal_tool (ev_content ev) = (tool, err)" by (rule prod.exhaust)
  show ?thesis
    unfolding validateOperationRequest_def u prod.case fst_conv snd_conv assms(2)
    using benign_request [OF assms(1), of KindOperationRequest "ev_content ev"]
      plain_codes [OF k, of "''operation request content must declare a non-empty 'tool'' @ [CHR 0x27]"]
    by (simp add: verdict_for_if verdict_of_if)
qed

lemma rejects : "kind_error k r \<noteq> None"
  by (simp add: kind_error_def)

text \<open>The kinds without codes of their own: chain steps, build attestations and notices.\<close>

lemma other_verdict:
  assumes "ev_kind ev \<notin> own_codes" and "ev_kind ev \<noteq> KindOperationRequest"
  shows "verdict_for (Validate X ev) = verdict_of (if Validate X ev = None then [] else ''schema-invalid'')"
proof -
  note c = plain_codes [OF assms(1)]
  have j: "verdict_for (validateJSONContent ev w) = verdict_of (if validateJSONContent ev w = None then [] else ''schema-invalid'')"
    if "codeFor (ev_kind ev) (w @ '' content must be valid JSON'') = ''schema-invalid''" for w
    using that by (simp add: validateJSONContent_def rejects)
  have s: "verdict_for (validateChainStep X ev) = verdict_of (if validateChainStep X ev = None then [] else ''schema-invalid'')"
    unfolding validateChainStep_def Let_def
    using c [of "''operation chain events must reference the request via an 'e' tag''"]
      j [of "''chain step''"] c [of "''chain step content must be valid JSON''"]
    by (simp add: rejects)
  have a: "verdict_for (validateAddressable X ev ''build attestation'')
      = verdict_of (if validateAddressable X ev ''build attestation'' = None then [] else ''schema-invalid'')"
    unfolding validateAddressable_def Let_def
    using c [of "''build attestation must carry a non-empty 'd' tag''"]
      j [of "''build attestation''"] c [of "''build attestation content must be valid JSON''"]
    by (simp add: rejects)
  have n: "verdict_for (validateNotice ev) = verdict_of (if validateNotice ev = None then [] else ''schema-invalid'')"
  proof (cases "validateJSONContent ev ''notice payload''")
    case None
    obtain body err where u: "unmarshal_notice (ev_content ev) = (body, err)" by (rule prod.exhaust)
    show ?thesis
      unfolding validateNotice_def None option.case u prod.case Let_def
      using c [of "''notice severity must be one of info|warning|critical''"]
      by (simp add: rejects)
  next
    case (Some e)
    then show ?thesis
      using j [of "''notice payload''"] c [of "''notice payload content must be valid JSON''"]
      by (simp add: validateNotice_def)
  qed
  define k where "k = ev_kind ev"
  have d: "k \<notin> own_codes" "k \<noteq> KindOperationRequest" using assms by (simp_all add: k_def)
  have v: "Validate X ev =
      (if \<not> IsCustomKind k then None else if k = KindBuildAttestation then validateAddressable X ev ''build attestation''
       else if k \<in> set [KindOperationApproval, KindOperationRejection, KindExecutionStarted, KindExecutionResult]
       then validateChainStep X ev
       else if k \<in> set [KindSystemEvent, KindServiceEvent, KindBackupEvent, KindSecurityEvent] then validateNotice ev
       else None)"
    unfolding Validate_def Let_def k_def [symmetric] using d by (simp add: own_codes_def del: list.set)
  consider "Validate X ev = None" | "Validate X ev = validateAddressable X ev ''build attestation''"
    | "Validate X ev = validateChainStep X ev" | "Validate X ev = validateNotice ev"
    unfolding v by metis
  then show ?thesis using s a n by cases simp_all
qed

text \<open>The verdict on an event of any kind, without searching for phrases.\<close>

definition event_code :: "ext \<Rightarrow> event \<Rightarrow> bytes" where
  "event_code X ev =
     (if ev_kind ev = KindCapability then capability_code X ev
      else if ev_kind ev = KindIdentityDefinition then identity_code X ev
      else if ev_kind ev = KindTrustPolicy then trust_code X ev
      else if ev_kind ev = KindDelegation then delegation_code X ev
      else if ev_kind ev = KindDelegationRevocation then
        (if hex_value X ev ''e'' then [] else ''27237:missing-e'')
      else if ev_kind ev = KindOperationRequest then
        (if snd (unmarshal_tool (ev_content ev)) then ''content-not-json''
         else if trim_space (fst (unmarshal_tool (ev_content ev))) = [] then ''schema-invalid'' else [])
      else if Validate X ev = None then [] else ''schema-invalid'')"

lemma event_verdict:
  assumes "benign_errors X"
  shows "protocol_validate X e = verdict_of (event_code X (toNostr e))"
proof -
  let ?ev = "toNostr e"
  have k: "ev_kind ?ev = c_kind e" by (simp add: toNostr_def)
  consider "c_kind e \<in> own_codes" | "c_kind e = KindOperationRequest" |
    "c_kind e \<notin> own_codes" "c_kind e \<noteq> KindOperationRequest" by blast
  then show ?thesis
  proof cases
    case 1
    then show ?thesis
      using capability_verdict [of e X] identity_verdict_exact [of e X] trust_verdict_exact [OF assms, of e]
        delegation_verdict_exact [of e X]
      by (auto simp: own_codes_def event_code_def k kind_defs)
  next
    case 2
    then have "IsCustomKind (c_kind e)" "ev_kind ?ev = KindOperationRequest" by (simp_all add: IsCustomKind_def k)
    then show ?thesis
      using request_verdict [OF assms, of ?ev] Validate_request [of ?ev X]
      by (simp add: protocol_validate_custom event_code_def kind_defs)
  next
    case 3
    have "protocol_validate X e = verdict_for (Validate X ?ev)"
    proof (cases "IsCustomKind (c_kind e)")
      case False
      then have "Validate X ?ev = None" by (simp add: Validate_def k)
      then show ?thesis using False by (simp add: protocol_validate_def verdict_of_def)
    qed (rule protocol_validate_custom)
    then show ?thesis using 3 other_verdict [of ?ev X] by (simp add: event_code_def own_codes_def k)
  qed
qed

text \<open>Verdict and code depend on the kind, the tags and the content of an event, and on nothing else.\<close>

lemma Validate_cong:
  assumes "ev_kind ev' = ev_kind ev" "ev_tags ev' = ev_tags ev" "ev_content ev' = ev_content ev"
  shows "Validate X ev' = Validate X ev"
  by (simp only: assms Validate_def validateCapability_def validateIdentityDefinition_def validateTrustPolicy_def
      validateAddressable_def validateJSONContent_def validateEnvelope_def validateOperationRequest_def
      validateChainStep_def validateDelegation_def validateDelegationRevocation_def validateNotice_def)

lemma event_code_cong:
  assumes "ev_kind ev' = ev_kind ev" "ev_tags ev' = ev_tags ev" "ev_content ev' = ev_content ev"
  shows "event_code X ev' = event_code X ev"
  by (simp only: assms event_code_def capability_code_def identity_code_def trust_code_def delegation_code_def
      envelope_code_def bad_subject_def hex_value_def first_value_def Validate_cong [OF assms])

text \<open>C23: The consumer and the relay's event model agree on everything: take an event of the relay with the
  kind, tags and content of a corpus event, whoever signed it and when. The consumer accepts the corpus
  event exactly when the model accepts the relay's, and otherwise its code, found by searching for phrases
  in the reason, is the one of the first rule the relay's event breaks, whatever its kind; \<open>event_code\<close> is
  the table of rules and codes. A text of the JSON library is trusted not to contain one of the phrases.\<close>

theorem protocol_agrees_with_model:
  assumes "benign_errors X" and "ev_kind ev = c_kind e" and "ev_tags ev = c_tags e" and "ev_content ev = c_content e"
  shows "protocol_validate X e = verdict_of (event_code X ev) \<and>
    (Validate X ev = None \<longleftrightarrow> accept (protocol_validate X e))"
proof -
  have t: "ev_kind (toNostr e) = ev_kind ev" "ev_tags (toNostr e) = ev_tags ev" "ev_content (toNostr e) = ev_content ev"
    using assms(2-4) by (simp_all add: toNostr_def)
  have "Validate X (toNostr e) = None \<longleftrightarrow> accept (protocol_validate X e)"
    by (cases "IsCustomKind (c_kind e)")
      (simp_all add: protocol_validate_def Validate_def toNostr_def split: option.splits)
  then show ?thesis using event_verdict [OF assms(1), of e] event_code_cong [OF t] Validate_cong [OF t] by simp
qed

subsection \<open>Corpus events\<close>

definition corpus :: "int \<Rightarrow> bytes list list \<Rightarrow> bytes \<Rightarrow> corpus_event" where
  "corpus k ts c =
     \<lparr>c_id = hex_key CHR ''1'', c_kind = k, c_created_at = 1700000000, c_tags = ts, c_content = c,
      c_pubkey = hex_key CHR ''2''\<rparr>"

text \<open>The fixtures \<open>31100-scopes-not-array\<close>, \<open>31102-bad-signer-type\<close>,
  \<open>31101-missing-schema\<close> and \<open>27236-bad-tags\<close> of the corpus.\<close>

definition scopes_not_array :: corpus_event where
  "scopes_not_array = corpus KindCapability [[''d'', hex_key CHR ''a'']]
     (json_text ''{`type`:`agent`,`scopes`:`app.read`}'')"

definition bad_signer_type :: corpus_event where
  "bad_signer_type = corpus KindIdentityDefinition [[''d'', hex_key CHR ''a'']]
     (json_text ''{`username`:`alice`,`signer_type`:`hardware`}'')"

definition missing_schema :: corpus_event where
  "missing_schema = corpus KindTrustPolicy [[''d'', ''notification-rules'']]
     (json_text ''{`value`:{`rules`:[]}}'')"

definition bad_tags :: corpus_event where
  "bad_tags = corpus KindDelegation
     [[''p'', ''not-hex''], [''server'', hex_key CHR ''1''], [''expiry'', ''1900000000''],
      [''scope'', ''apps.read'']] []"


theorem identity_verdict_exact_witness:
  "verdict_of (identity_code sample_ext (toNostr bad_signer_type)) =
     \<lparr>accept = False, code = ''31102:bad-signer-type''\<rparr>"
proof -
  have "c_kind bad_signer_type = KindIdentityDefinition" by (simp add: bad_signer_type_def corpus_def)
  note identity_verdict_exact [OF this, of sample_ext]
  moreover have "protocol_validate sample_ext bad_signer_type =
      \<lparr>accept = False, code = ''31102:bad-signer-type''\<rparr>" by code_simp
  ultimately show ?thesis by simp
qed

lemma sample_benign: "benign_errors sample_ext"
proof -
  have "\<forall>p \<in> set header_phrases.
      \<not> contains (''operation request content must be JSON: '' @ ''invalid JSON'') p \<and>
      \<not> contains (''trust policy content must be JSON: '' @ ''invalid JSON'') p"
    by code_simp
  then show ?thesis by (simp add: benign_errors_def sample_ext_def)
qed

theorem trust_verdict_exact_witness:
  "verdict_of (trust_code sample_ext (toNostr missing_schema)) =
     \<lparr>accept = False, code = ''31101:missing-schema''\<rparr>"
proof -
  have "c_kind missing_schema = KindTrustPolicy" by (simp add: missing_schema_def corpus_def)
  note trust_verdict_exact [OF sample_benign this]
  moreover have "protocol_validate sample_ext missing_schema =
      \<lparr>accept = False, code = ''31101:missing-schema''\<rparr>" by code_simp
  ultimately show ?thesis by simp
qed

theorem delegation_verdict_exact_witness:
  "verdict_of (delegation_code sample_ext (toNostr bad_tags)) =
     \<lparr>accept = False, code = ''27236:bad-tags''\<rparr>"
proof -
  have k: "c_kind bad_tags = KindDelegation" by (simp add: bad_tags_def corpus_def)
  then have "c_kind bad_tags \<in> {KindDelegation, KindDelegationRevocation}" by simp
  note delegation_verdict_exact [OF this, of sample_ext]
  moreover have "protocol_validate sample_ext bad_tags =
      \<lparr>accept = False, code = ''27236:bad-tags''\<rparr>" by code_simp
  ultimately show ?thesis using k by simp
qed

definition signed_elsewhere :: event where
  "signed_elsewhere = (toNostr scopes_not_array)\<lparr>ev_id := ''id'', ev_pubkey := ''somebody'', ev_created_at := 7\<rparr>"

theorem protocol_agrees_with_model_witness:
  "event_code sample_ext signed_elsewhere = ''31100:scopes-not-array'' \<and> Validate sample_ext signed_elsewhere \<noteq> None"
proof -
  have f: "ev_kind signed_elsewhere = c_kind scopes_not_array" "ev_tags signed_elsewhere = c_tags scopes_not_array"
    "ev_content signed_elsewhere = c_content scopes_not_array"
    by (simp_all add: signed_elsewhere_def toNostr_def)
  have "protocol_validate sample_ext scopes_not_array = \<lparr>accept = False, code = ''31100:scopes-not-array''\<rparr>"
    by code_simp
  with protocol_agrees_with_model [OF sample_benign f] show ?thesis by (simp add: verdict_of_def)
qed

end
