(* ===== verification/Corpus.thy ===== *)
theory Corpus
  imports EventProtocol JsonPrint
begin

text \<open>
  The corpus of \<open>src/internal/eventprotocol/eventprotocol.go\<close>: the fixture types, finding and loading
  the file, and the verdicts on fixtures transcribed from \<open>testdata/verdicts.json\<close>. The path of
  the source file is what \<open>runtime.Caller\<close> reports, \<open>None\<close> where it fails; reading a file is an argument.
\<close>

subsection \<open>Paths\<close>

text \<open>\<open>filepath.Clean\<close>, \<open>Dir\<close> and \<open>Join\<close> for slash-separated paths. The cleaned elements are collected
  last first.\<close>

fun path_elements :: "bytes \<Rightarrow> bytes list" where
  "path_elements [] = [[]]"
| "path_elements (c # cs) =
     (if c = CHR ''/'' then [] # path_elements cs
      else (case path_elements cs of [] \<Rightarrow> [[c]] | e # es \<Rightarrow> (c # e) # es))"

definition clean_element :: "bool \<Rightarrow> bytes \<Rightarrow> bytes list \<Rightarrow> bytes list" where
  "clean_element rooted e out =
     (if e = [] \<or> e = ''.'' then out
      else if e = ''..'' then
        (if out \<noteq> [] \<and> hd out \<noteq> ''..'' then tl out else if rooted then out else ''..'' # out)
      else e # out)"

fun slash_join :: "bytes list \<Rightarrow> bytes" where
  "slash_join [] = []"
| "slash_join [e] = e"
| "slash_join (e # f # es) = e @ CHR ''/'' # slash_join (f # es)"

definition path_clean :: "bytes \<Rightarrow> bytes" where
  "path_clean path =
     (let rooted = (path \<noteq> [] \<and> hd path = CHR ''/'');
          out = slash_join (rev (fold (clean_element rooted) (path_elements path) []))
      in if rooted then CHR ''/'' # out else if out = [] then ''.'' else out)"

definition path_dir :: "bytes \<Rightarrow> bytes" where
  "path_dir path = path_clean (rev (dropWhile (\<lambda>c. c \<noteq> CHR ''/'') (rev path)))"

definition path_join :: "bytes list \<Rightarrow> bytes" where
  "path_join elems =
     (let es = dropWhile (\<lambda>e. e = []) elems in if es = [] then [] else path_clean (slash_join es))"

definition CorpusDir :: "bytes option \<Rightarrow> bytes + bytes" where
  "CorpusDir caller =
     (case caller of
        None \<Rightarrow> Inl ''cannot resolve caller for corpus path''
      | Some file \<Rightarrow> Inr (path_join [path_dir file, ''testdata'']))"

subsection \<open>Fixtures\<close>

record fixture =
  fx_ID :: bytes
  fx_Validators :: "bytes list"
  fx_Event :: corpus_event
  fx_Accept :: bool
  fx_Code :: bytes

definition zero_event :: corpus_event where
  "zero_event = \<lparr>c_id = [], c_kind = 0, c_created_at = 0, c_tags = [], c_content = [], c_pubkey = []\<rparr>"

definition zero_fixture :: fixture where
  "zero_fixture = \<lparr>fx_ID = [], fx_Validators = [], fx_Event = zero_event, fx_Accept = False, fx_Code = []\<rparr>"

text \<open>Decoding a member into one field of a struct, a nested struct into its current value, and an array
  into a slice, whose elements are decoded over those that are there.\<close>

definition into_field ::
  "('s \<Rightarrow> 'a) \<Rightarrow> ('a \<Rightarrow> 's \<Rightarrow> 's) \<Rightarrow> (json \<Rightarrow> 'a \<times> bool \<Rightarrow> 'a \<times> bool) \<Rightarrow> json \<Rightarrow> 's \<times> bool \<Rightarrow> 's \<times> bool" where
  "into_field get put dec j t = (let (v, err) = dec j (get (fst t), snd t) in (put v (fst t), err))"

definition decode_object ::
  "(bytes \<times> json \<Rightarrow> 'a \<times> bool \<Rightarrow> 'a \<times> bool) \<Rightarrow> json \<Rightarrow> 'a \<times> bool \<Rightarrow> 'a \<times> bool" where
  "decode_object member j t =
     (case j of JNull \<Rightarrow> t | JObj ms \<Rightarrow> fold member ms t | _ \<Rightarrow> (fst t, True))"

fun decode_elements ::
  "(json \<Rightarrow> 'a \<times> bool \<Rightarrow> 'a \<times> bool) \<Rightarrow> 'a \<Rightarrow> json list \<Rightarrow> 'a list \<Rightarrow> bool \<Rightarrow> 'a list \<times> bool" where
  "decode_elements dec zero [] old err = ([], err)"
| "decode_elements dec zero (x # xs) old err =
     (let (v, err1) = dec x (case old of [] \<Rightarrow> zero | w # _ \<Rightarrow> w, err);
          (vs, err2) = decode_elements dec zero xs (drop 1 old) err1
      in (v # vs, err2))"

definition decode_slice ::
  "(json \<Rightarrow> 'a \<times> bool \<Rightarrow> 'a \<times> bool) \<Rightarrow> 'a \<Rightarrow> json \<Rightarrow> 'a list \<times> bool \<Rightarrow> 'a list \<times> bool" where
  "decode_slice dec zero j t =
     (case j of
        JNull \<Rightarrow> ([], snd t)
      | JArr xs \<Rightarrow> decode_elements dec zero xs (fst t) (snd t)
      | _ \<Rightarrow> (fst t, True))"

definition event_member :: "bytes \<times> json \<Rightarrow> corpus_event \<times> bool \<Rightarrow> corpus_event \<times> bool" where
  "event_member m t =
     (if field_matches ''id'' (fst m) then
        into_field c_id (\<lambda>v e. e\<lparr>c_id := v\<rparr>) decode_string (snd m) t
      else if field_matches ''kind'' (fst m) then
        into_field c_kind (\<lambda>v e. e\<lparr>c_kind := v\<rparr>) decode_int (snd m) t
      else if field_matches ''created_at'' (fst m) then
        into_field c_created_at (\<lambda>v e. e\<lparr>c_created_at := v\<rparr>) decode_int (snd m) t
      else if field_matches ''tags'' (fst m) then
        into_field c_tags (\<lambda>v e. e\<lparr>c_tags := v\<rparr>) (decode_slice (decode_slice decode_string []) []) (snd m) t
      else if field_matches ''content'' (fst m) then
        into_field c_content (\<lambda>v e. e\<lparr>c_content := v\<rparr>) decode_string (snd m) t
      else if field_matches ''pubkey'' (fst m) then
        into_field c_pubkey (\<lambda>v e. e\<lparr>c_pubkey := v\<rparr>) decode_string (snd m) t
      else t)"

definition expect_member :: "bytes \<times> json \<Rightarrow> (bool \<times> bytes) \<times> bool \<Rightarrow> (bool \<times> bytes) \<times> bool" where
  "expect_member m t =
     (if field_matches ''accept'' (fst m) then into_field fst (\<lambda>v e. (v, snd e)) decode_bool (snd m) t
      else if field_matches ''code'' (fst m) then into_field snd (\<lambda>v e. (fst e, v)) decode_string (snd m) t
      else t)"

definition fixture_member :: "bytes \<times> json \<Rightarrow> fixture \<times> bool \<Rightarrow> fixture \<times> bool" where
  "fixture_member m t =
     (if field_matches ''id'' (fst m) then
        into_field fx_ID (\<lambda>v f. f\<lparr>fx_ID := v\<rparr>) decode_string (snd m) t
      else if field_matches ''validators'' (fst m) then
        into_field fx_Validators (\<lambda>v f. f\<lparr>fx_Validators := v\<rparr>) (decode_slice decode_string []) (snd m) t
      else if field_matches ''event'' (fst m) then
        into_field fx_Event (\<lambda>v f. f\<lparr>fx_Event := v\<rparr>) (decode_object event_member) (snd m) t
      else if field_matches ''expect'' (fst m) then
        into_field (\<lambda>f. (fx_Accept f, fx_Code f)) (\<lambda>v f. f\<lparr>fx_Accept := fst v, fx_Code := snd v\<rparr>)
          (decode_object expect_member) (snd m) t
      else t)"

definition corpus_member :: "bytes \<times> json \<Rightarrow> fixture list \<times> bool \<Rightarrow> fixture list \<times> bool" where
  "corpus_member m t =
     (if field_matches ''fixtures'' (fst m)
      then decode_slice (decode_object fixture_member) zero_fixture (snd m) t else t)"

datatype corpus_error = NoCaller bytes | CorpusRead bytes | CorpusJson

definition LoadVerdicts :: "bytes option \<Rightarrow> (bytes \<Rightarrow> bytes + bytes) \<Rightarrow> corpus_error + fixture list" where
  "LoadVerdicts caller read_file =
     (case CorpusDir caller of
        Inl e \<Rightarrow> Inl (NoCaller e)
      | Inr dir \<Rightarrow>
          (case read_file (path_join [dir, ''verdicts.json'']) of
             Inl e \<Rightarrow> Inl (CorpusRead e)
           | Inr raw \<Rightarrow>
               (let (fs, err) = unmarshal_struct corpus_member [] raw
                in if err then Inl CorpusJson else Inr fs)))"

section \<open>Properties\<close>

subsection \<open>Loading\<close>

text \<open>The fixtures as the corpus file writes them.\<close>

definition json_of_event :: "corpus_event \<Rightarrow> json" where
  "json_of_event e =
     JObj [(''id'', JStr (c_id e)), (''kind'', JNum (itoa (c_kind e))), (''created_at'', JNum (itoa (c_created_at e))),
       (''tags'', JArr (map (\<lambda>t. JArr (map JStr t)) (c_tags e))), (''content'', JStr (c_content e)),
       (''pubkey'', JStr (c_pubkey e))]"

definition json_of_fixture :: "fixture \<Rightarrow> json" where
  "json_of_fixture f =
     JObj [(''id'', JStr (fx_ID f)), (''validators'', JArr (map JStr (fx_Validators f))),
       (''event'', json_of_event (fx_Event f)),
       (''expect'', JObj [(''accept'', JBool (fx_Accept f)), (''code'', JStr (fx_Code f))])]"

text \<open>The whole file: the fixtures among other members, such as a schema number and a description.\<close>

definition corpus_json :: "(bytes \<times> json) list \<Rightarrow> fixture list \<Rightarrow> (bytes \<times> json) list \<Rightarrow> json" where
  "corpus_json ms fs ns = JObj (ms @ (''fixtures'', JArr (map json_of_fixture fs)) # ns)"

definition other_member :: "bytes \<times> json \<Rightarrow> bool" where
  "other_member m \<longleftrightarrow> plain (fst m) \<and> printable (snd m) \<and> json_depth (snd m) \<le> max_depth - 1 \<and>
     \<not> field_matches ''fixtures'' (fst m)"

text \<open>What a fixture may hold: printable ASCII and 64-bit numbers.\<close>

definition plain_fixture :: "fixture \<Rightarrow> bool" where
  "plain_fixture f \<longleftrightarrow>
     plain (fx_ID f) \<and> list_all plain (fx_Validators f) \<and> plain (fx_Code f) \<and>
     plain (c_id (fx_Event f)) \<and> plain (c_content (fx_Event f)) \<and> plain (c_pubkey (fx_Event f)) \<and>
     list_all (list_all plain) (c_tags (fx_Event f)) \<and>
     int64_ok (c_kind (fx_Event f)) \<and> int64_ok (c_created_at (fx_Event f))"

lemma corpus_fields:
  "field_matches ''id'' ''id'' \<longleftrightarrow> True"
  "field_matches ''id'' ''kind'' \<longleftrightarrow> False"
  "field_matches ''kind'' ''kind'' \<longleftrightarrow> True"
  "field_matches ''id'' ''created_at'' \<longleftrightarrow> False"
  "field_matches ''kind'' ''created_at'' \<longleftrightarrow> False"
  "field_matches ''created_at'' ''created_at'' \<longleftrightarrow> True"
  "field_matches ''id'' ''tags'' \<longleftrightarrow> False"
  "field_matches ''kind'' ''tags'' \<longleftrightarrow> False"
  "field_matches ''created_at'' ''tags'' \<longleftrightarrow> False"
  "field_matches ''tags'' ''tags'' \<longleftrightarrow> True"
  "field_matches ''id'' ''content'' \<longleftrightarrow> False"
  "field_matches ''kind'' ''content'' \<longleftrightarrow> False"
  "field_matches ''created_at'' ''content'' \<longleftrightarrow> False"
  "field_matches ''tags'' ''content'' \<longleftrightarrow> False"
  "field_matches ''content'' ''content'' \<longleftrightarrow> True"
  "field_matches ''id'' ''pubkey'' \<longleftrightarrow> False"
  "field_matches ''kind'' ''pubkey'' \<longleftrightarrow> False"
  "field_matches ''created_at'' ''pubkey'' \<longleftrightarrow> False"
  "field_matches ''tags'' ''pubkey'' \<longleftrightarrow> False"
  "field_matches ''content'' ''pubkey'' \<longleftrightarrow> False"
  "field_matches ''pubkey'' ''pubkey'' \<longleftrightarrow> True"
  "field_matches ''id'' ''validators'' \<longleftrightarrow> False"
  "field_matches ''validators'' ''validators'' \<longleftrightarrow> True"
  "field_matches ''id'' ''event'' \<longleftrightarrow> False"
  "field_matches ''validators'' ''event'' \<longleftrightarrow> False"
  "field_matches ''event'' ''event'' \<longleftrightarrow> True"
  "field_matches ''id'' ''expect'' \<longleftrightarrow> False"
  "field_matches ''validators'' ''expect'' \<longleftrightarrow> False"
  "field_matches ''event'' ''expect'' \<longleftrightarrow> False"
  "field_matches ''expect'' ''expect'' \<longleftrightarrow> True"
  "field_matches ''accept'' ''accept'' \<longleftrightarrow> True"
  "field_matches ''accept'' ''code'' \<longleftrightarrow> False"
  "field_matches ''code'' ''code'' \<longleftrightarrow> True"
  "field_matches ''fixtures'' ''fixtures'' \<longleftrightarrow> True"
  by code_simp+

lemma decode_elements_map:
  "\<forall>x \<in> set xs. dec (enc x) (zero, False) = (x, False) \<Longrightarrow>
   decode_elements dec zero (map enc xs) [] False = (xs, False)"
  by (induction xs) auto

lemma decode_strings: "decode_elements decode_string [] (map JStr xs) [] False = (xs, False)"
  by (intro decode_elements_map) (simp add: decode_string_def)

lemma decode_tags:
  "decode_elements (decode_slice decode_string []) [] (map (\<lambda>t. JArr (map JStr t)) ts) [] False = (ts, False)"
  by (intro decode_elements_map) (simp add: decode_slice_def decode_strings)

lemmas decoders = into_field_def decode_object_def decode_slice_def decode_string_def decode_int_def
  decode_bool_def corpus_fields parse_int_itoa

lemma decode_event:
  "int64_ok (c_kind e) \<Longrightarrow> int64_ok (c_created_at e) \<Longrightarrow>
   decode_object event_member (json_of_event e) (zero_event, False) = (e, False)"
  by (simp add: json_of_event_def event_member_def decoders decode_tags zero_event_def)

lemma decode_fixture:
  "plain_fixture f \<Longrightarrow> decode_object fixture_member (json_of_fixture f) (zero_fixture, False) = (f, False)"
  using decode_event [of "fx_Event f"]
  by (simp add: json_of_fixture_def fixture_member_def expect_member_def plain_fixture_def decoders
      decode_strings zero_fixture_def)

lemma foldr_max_le: "\<forall>x \<in> set xs. f x \<le> d \<Longrightarrow> (0::int) \<le> d \<Longrightarrow> foldr (\<lambda>x d. max (f x) d) xs 0 \<le> d"
  by (induction xs) auto

lemma event_json: "plain_fixture f \<Longrightarrow> printable (json_of_event (fx_Event f)) \<and> json_depth (json_of_event (fx_Event f)) \<le> 3"
proof -
  assume f: "plain_fixture f"
  have t: "foldr (\<lambda>x d. max (json_depth x) d) (map (\<lambda>t. JArr (map JStr t)) ts) 0 \<le> 1" for ts
    by (intro foldr_max_le) (auto intro!: foldr_max_le order.trans [OF add_left_mono])
  have k: "plain ''id''" "plain ''kind''" "plain ''created_at''" "plain ''tags''" "plain ''content''" "plain ''pubkey''"
    by code_simp+
  show ?thesis using f t [of "c_tags (fx_Event f)"]
    by (auto simp: json_of_event_def plain_fixture_def itoa_literal k list_all_iff)
qed

lemma fixture_json: "plain_fixture f \<Longrightarrow> printable (json_of_fixture f) \<and> json_depth (json_of_fixture f) \<le> 4"
proof -
  assume f: "plain_fixture f"
  have v: "foldr (\<lambda>x d. max (json_depth x) d) (map JStr xs) 0 \<le> 0" for xs
    by (intro foldr_max_le) auto
  have k: "plain ''id''" "plain ''validators''" "plain ''event''" "plain ''expect''" "plain ''accept''" "plain ''code''"
    by code_simp+
  show ?thesis using f event_json [OF f] v [of "fx_Validators f"]
    by (auto simp: json_of_fixture_def plain_fixture_def k list_all_iff)
qed

lemma corpus_parse:
  assumes "list_all plain_fixture fs" "list_all other_member (ms @ ns)"
  shows "json_parse (json_print (corpus_json ms fs ns)) = Some (corpus_json ms fs ns)"
proof (rule json_parse_print)
  have p: "plain ''fixtures''" by code_simp
  have f: "foldr (\<lambda>x d. max (json_depth x) d) (map json_of_fixture fs) 0 \<le> 4"
    using assms(1) fixture_json by (intro foldr_max_le) (auto simp: list_all_iff)
  show "printable (corpus_json ms fs ns)"
    using assms fixture_json p by (auto simp: corpus_json_def list_all_iff other_member_def)
  have "foldr (\<lambda>x d. max ((json_depth \<circ> snd) x) d) (ms @ (''fixtures'', JArr (map json_of_fixture fs)) # ns) 0 \<le> max_depth - 1"
  proof (intro foldr_max_le)
    have "\<forall>m \<in> set (ms @ ns). json_depth (snd m) \<le> max_depth - 1"
      using assms(2) unfolding list_all_iff other_member_def by blast
    moreover have "json_depth (JArr (map json_of_fixture fs)) \<le> max_depth - 1" using f by (simp add: max_depth_def)
    ultimately show "\<forall>m \<in> set (ms @ (''fixtures'', JArr (map json_of_fixture fs)) # ns). (json_depth \<circ> snd) m \<le> max_depth - 1"
      by auto
  qed (simp add: max_depth_def)
  then show "json_depth (corpus_json ms fs ns) \<le> max_depth" by (simp add: corpus_json_def comp_def)
qed

lemma fold_others: "list_all other_member ms \<Longrightarrow> fold corpus_member ms t = t"
  by (induction ms) (simp_all add: other_member_def corpus_member_def)

lemma corpus_decode:
  assumes "list_all plain_fixture fs" "list_all other_member (ms @ ns)"
  shows "unmarshal_struct corpus_member [] (json_print (corpus_json ms fs ns)) = (fs, False)"
proof -
  have "decode_elements (decode_object fixture_member) zero_fixture (map json_of_fixture fs) [] False = (fs, False)"
    using assms(1) by (intro decode_elements_map) (simp add: list_all_iff decode_fixture)
  moreover have "list_all other_member ms" "list_all other_member ns" using assms(2) by simp_all
  ultimately have "decode_struct corpus_member [] (corpus_json ms fs ns) = (fs, False)"
    by (simp add: decode_struct_def corpus_json_def fold_others)
      (simp add: corpus_member_def corpus_fields decode_slice_def fold_others)
  then show ?thesis unfolding unmarshal_struct_def corpus_parse [OF assms] by simp
qed

subsection \<open>Where the file is\<close>

definition segment :: "bytes \<Rightarrow> bool" where
  "segment e \<longleftrightarrow> e \<noteq> [] \<and> e \<noteq> ''.'' \<and> e \<noteq> ''..'' \<and> CHR ''/'' \<notin> set e"

definition rooted_path :: "bytes list \<Rightarrow> bytes" where
  "rooted_path es = CHR ''/'' # slash_join es"

lemma path_elements_free: "CHR ''/'' \<notin> set e \<Longrightarrow> path_elements e = [e]"
  by (induction e) auto

lemma path_elements_slash: "CHR ''/'' \<notin> set e \<Longrightarrow> path_elements (e @ CHR ''/'' # s) = e # path_elements s"
  by (induction e) auto

lemma path_elements_join:
  "es \<noteq> [] \<Longrightarrow> list_all segment es \<Longrightarrow> path_elements (slash_join es) = es"
  "es \<noteq> [] \<Longrightarrow> list_all segment es \<Longrightarrow> path_elements (slash_join es @ ''/'') = es @ [[]]"
  by (induction es rule: slash_join.induct)
    (simp_all add: segment_def path_elements_free path_elements_slash)

lemma slash_join_snoc: "es \<noteq> [] \<Longrightarrow> slash_join (es @ [f]) = slash_join es @ CHR ''/'' # f"
proof (induction es rule: slash_join.induct)
  case (3 e f es)
  then show ?case by simp
qed simp_all

lemma clean_segments: "list_all segment es \<Longrightarrow> fold (clean_element r) es out = rev es @ out"
  by (induction es arbitrary: out) (simp_all add: clean_element_def segment_def)

lemma clean_rooted:
  assumes "es \<noteq> []" "list_all segment es"
  shows "path_clean (rooted_path es) = rooted_path es" "path_clean (rooted_path es @ ''/'') = rooted_path es"
  using assms
  by (simp_all add: path_clean_def rooted_path_def path_elements_join clean_segments)
    (simp_all add: clean_element_def clean_segments)

lemma dir_rooted:
  assumes "es \<noteq> []" "list_all segment es" "segment f"
  shows "path_dir (rooted_path (es @ [f])) = rooted_path es"
proof -
  have r: "rev (rooted_path (es @ [f])) = rev f @ CHR ''/'' # rev (rooted_path es)"
    using assms(1) by (simp add: rooted_path_def slash_join_snoc)
  have "dropWhile (\<lambda>c. c \<noteq> CHR ''/'') (rev f @ CHR ''/'' # rev (rooted_path es)) = CHR ''/'' # rev (rooted_path es)"
    using assms(3) by (subst dropWhile_append2) (auto simp: segment_def)
  then show ?thesis using clean_rooted(2) [OF assms(1,2)] unfolding path_dir_def r by simp
qed

lemma join_rooted:
  assumes "es \<noteq> []" "list_all segment es" "segment f"
  shows "path_join [rooted_path es, f] = rooted_path (es @ [f])"
proof -
  have "path_clean (rooted_path (es @ [f])) = rooted_path (es @ [f])"
    using assms by (intro clean_rooted) simp_all
  then show ?thesis using assms(1) by (simp add: path_join_def rooted_path_def slash_join_snoc Let_def)
qed

text \<open>C25: Loading the corpus is the inverse of writing it: from a module at any absolute path, for any list
  of fixtures with printable texts and 64-bit numbers, written as JSON into \<open>testdata/verdicts.json\<close> beside
  the source file, with whatever other members before and after the fixtures, \<open>LoadVerdicts\<close>
  returns exactly these fixtures in their order, events, tags, validators and expectations included.\<close>

theorem corpus_roundtrip:
  assumes "es \<noteq> []" and "list_all segment es" and "list_all plain_fixture fs" and "list_all other_member (ms @ ns)"
    and "read_file (rooted_path (es @ [''testdata'', ''verdicts.json''])) = Inr (json_print (corpus_json ms fs ns))"
  shows "LoadVerdicts (Some (rooted_path (es @ [''eventprotocol.go'']))) read_file = Inr fs"
proof -
  have f: "segment ''eventprotocol.go''" "segment ''testdata''" "segment ''verdicts.json''"
    by (simp_all add: segment_def)
  have "CorpusDir (Some (rooted_path (es @ [''eventprotocol.go'']))) = Inr (rooted_path (es @ [''testdata'']))"
    unfolding CorpusDir_def option.case dir_rooted [OF assms(1,2) f(1)] join_rooted [OF assms(1,2) f(2)] by simp
  moreover have "path_join [rooted_path (es @ [''testdata'']), ''verdicts.json''] = rooted_path (es @ [''testdata'', ''verdicts.json''])"
    using join_rooted [of "es @ [''testdata'']" "''verdicts.json''"] assms(2) f by simp
  ultimately show ?thesis using assms(5) corpus_decode [OF assms(3,4)] by (simp add: LoadVerdicts_def)
qed

subsection \<open>Conformance\<close>

definition corpus_id :: "bytes \<Rightarrow> nat \<Rightarrow> bytes \<Rightarrow> bytes" where
  "corpus_id prefix zeros suffix = prefix @ replicate zeros CHR ''0'' @ suffix"

definition fixture_of :: "bytes \<Rightarrow> bytes \<Rightarrow> int \<Rightarrow> bytes list list \<Rightarrow> bytes \<Rightarrow> bytes \<Rightarrow> bool \<Rightarrow> bytes \<Rightarrow> fixture" where
  "fixture_of name ident kind tags content pubkey acc cd =
     \<lparr>fx_ID = name, fx_Validators = [''python'', ''go''],
      fx_Event = \<lparr>c_id = ident, c_kind = kind, c_created_at = 1000, c_tags = tags, c_content = content, c_pubkey = pubkey\<rparr>,
      fx_Accept = acc, fx_Code = cd\<rparr>"

text \<open>The 27 of the 37 fixtures of \<open>testdata/verdicts.json\<close> that name this implementation, transcribed by
  hand; the others are for another validator.\<close>

definition capability_fixtures :: "fixture list" where
  "capability_fixtures =
    [
     fixture_of ''31100-capability-valid'' (corpus_id ''cap'' 60 ''1'') 31100
       [[''d'', hex_key CHR ''a'']]
       (json_text ''{`type`:`agent`,`scopes`:[`app.read`],`revision`:1}'') (hex_key CHR ''1'') True [],
     fixture_of ''31100-legacy-no-envelope'' (corpus_id ''cap'' 60 ''2'') 31100
       [[''d'', hex_key CHR ''a'']]
       (json_text ''{`type`:`agent`,`scopes`:[]}'') (hex_key CHR ''1'') True [],
     fixture_of ''31100-missing-d'' (corpus_id ''cap'' 60 ''3'') 31100
       []
       (json_text ''{`type`:`agent`,`scopes`:[]}'') (hex_key CHR ''1'') False ''missing-d'',
     fixture_of ''31100-d-not-hex64'' (corpus_id ''cap'' 60 ''4'') 31100
       [[''d'', ''not-a-pubkey'']]
       (json_text ''{`type`:`agent`,`scopes`:[]}'') (hex_key CHR ''1'') False ''d-not-hex64'',
     fixture_of ''31100-missing-type'' (corpus_id ''cap'' 60 ''5'') 31100
       [[''d'', hex_key CHR ''a'']]
       (json_text ''{`scopes`:[`app.read`]}'') (hex_key CHR ''1'') False ''31100:missing-type'',
     fixture_of ''31100-scopes-not-array'' (corpus_id ''cap'' 60 ''6'') 31100
       [[''d'', hex_key CHR ''a'']]
       (json_text ''{`type`:`agent`,`scopes`:`app.read`}'') (hex_key CHR ''1'') False ''31100:scopes-not-array'',
     fixture_of ''31100-content-not-json'' (corpus_id ''cap'' 60 ''7'') 31100
       [[''d'', hex_key CHR ''a'']]
       ''type=agent'' (hex_key CHR ''1'') False ''content-not-json'',
     fixture_of ''31100-subject-mismatch'' (corpus_id ''cap'' 60 ''8'') 31100
       [[''d'', hex_key CHR ''a'']]
       (json_text (''{`type`:`agent`,`subject`:`'' @ hex_key CHR ''b'' @ ''`}'')) (hex_key CHR ''1'') False ''subject-mismatch'',
     fixture_of ''31100-revision-invalid'' (corpus_id ''cap'' 60 ''9'') 31100
       [[''d'', hex_key CHR ''a'']]
       (json_text ''{`type`:`agent`,`revision`:-1}'') (hex_key CHR ''1'') False ''revision-invalid''
    ]"

definition definition_fixtures :: "fixture list" where
  "definition_fixtures =
    [
     fixture_of ''31101-policy-valid'' (corpus_id ''pol'' 60 ''1'') 31101
       [[''d'', ''notification-rules'']]
       (json_text ''{`schema`:1,`revision`:3,`value`:{`rules`:[]}}'') (hex_key CHR ''1'') True [],
     fixture_of ''31101-missing-schema'' (corpus_id ''pol'' 60 ''2'') 31101
       [[''d'', ''notification-rules'']]
       (json_text ''{`value`:{`rules`:[]}}'') (hex_key CHR ''1'') False ''31101:missing-schema'',
     fixture_of ''31101-missing-d'' (corpus_id ''pol'' 60 ''3'') 31101
       []
       (json_text ''{`schema`:1}'') (hex_key CHR ''1'') False ''missing-d'',
     fixture_of ''31101-schema-invalid'' (corpus_id ''pol'' 60 ''4'') 31101
       [[''d'', ''notification-rules'']]
       (json_text ''{`schema`:0}'') (hex_key CHR ''1'') False ''schema-invalid'',
     fixture_of ''31102-identity-valid'' (corpus_id ''id'' 61 ''1'') 31102
       [[''d'', hex_key CHR ''a'']]
       (json_text ''{`username`:`alice`,`signer_type`:`nip07`,`enabled`:true,`admin`:false}'') (hex_key CHR ''1'') True [],
     fixture_of ''31102-revocation-allowed'' (corpus_id ''id'' 61 ''2'') 31102
       [[''d'', hex_key CHR ''a'']]
       (json_text ''{`username`:``,`enabled`:false}'') (hex_key CHR ''1'') True [],
     fixture_of ''31102-missing-username'' (corpus_id ''id'' 61 ''3'') 31102
       [[''d'', hex_key CHR ''a'']]
       (json_text ''{`enabled`:true}'') (hex_key CHR ''1'') False ''31102:missing-username'',
     fixture_of ''31102-bad-signer-type'' (corpus_id ''id'' 61 ''4'') 31102
       [[''d'', hex_key CHR ''a'']]
       (json_text ''{`username`:`alice`,`signer_type`:`hardware`}'') (hex_key CHR ''1'') False ''31102:bad-signer-type'',
     fixture_of ''31102-d-not-hex64'' (corpus_id ''id'' 61 ''5'') 31102
       [[''d'', ''alice'']]
       (json_text ''{`username`:`alice`}'') (hex_key CHR ''1'') False ''d-not-hex64'',
     fixture_of ''31102-enabled-not-bool'' (corpus_id ''id'' 61 ''6'') 31102
       [[''d'', hex_key CHR ''a'']]
       (json_text ''{`username`:`alice`,`enabled`:`yes`}'') (hex_key CHR ''1'') False ''31102:enabled-not-bool'',
     fixture_of ''31102-admin-not-bool'' (corpus_id ''id'' 61 ''7'') 31102
       [[''d'', hex_key CHR ''a'']]
       (json_text ''{`username`:`alice`,`admin`:1}'') (hex_key CHR ''1'') False ''31102:admin-not-bool''
    ]"

definition delegation_fixtures :: "fixture list" where
  "delegation_fixtures =
    [
     fixture_of ''27236-delegation-valid'' (''de11'' @ replicate 62 CHR ''a'') 27236
       [[''p'', hex_key CHR ''a''], [''server'', hex_key CHR ''1''], [''expiry'', ''2000''], [''scope'', ''app.read'']]
       [] (hex_key CHR ''2'') True [],
     fixture_of ''27236-bad-tags'' (corpus_id ''de1'' 62 ''2'') 27236
       [[''p'', ''not-hex''], [''server'', hex_key CHR ''1''], [''expiry'', ''2000''], [''scope'', ''app.read'']]
       [] (hex_key CHR ''2'') False ''27236:bad-tags'',
     fixture_of ''27236-bad-expiry'' (corpus_id ''de1'' 62 ''3'') 27236
       [[''p'', hex_key CHR ''a''], [''server'', hex_key CHR ''1''], [''expiry'', ''soon''], [''scope'', ''app.read'']]
       [] (hex_key CHR ''2'') False ''27236:bad-expiry'',
     fixture_of ''27236-missing-scope'' (corpus_id ''de1'' 62 ''4'') 27236
       [[''p'', hex_key CHR ''a''], [''server'', hex_key CHR ''1''], [''expiry'', ''2000'']]
       [] (hex_key CHR ''2'') False ''27236:missing-scope'',
     fixture_of ''27237-revocation-valid'' (corpus_id ''rev'' 62 ''1'') 27237
       [[''e'', (''de11'' @ replicate 60 CHR ''a'')]]
       [] (hex_key CHR ''2'') True [],
     fixture_of ''27237-missing-e'' (corpus_id ''rev'' 60 ''2'') 27237
       []
       [] (hex_key CHR ''2'') False ''27237:missing-e'',
     fixture_of ''27237-e-not-hex64'' (corpus_id ''rev'' 60 ''3'') 27237
       [[''e'', ''short'']]
       [] (hex_key CHR ''2'') False ''27237:missing-e''
    ]"

definition go_fixtures :: "fixture list" where
  "go_fixtures = capability_fixtures @ definition_fixtures @ delegation_fixtures"

definition conforms :: "ext \<Rightarrow> fixture \<Rightarrow> bool" where
  "conforms X f \<longleftrightarrow> protocol_validate X (fx_Event f) = \<lparr>accept = fx_Accept f, code = fx_Code f\<rparr>"

lemma capability_verdicts: "list_all (conforms sample_ext) capability_fixtures"
  by code_simp

lemma definition_verdicts: "list_all (conforms sample_ext) definition_fixtures"
  by code_simp

lemma delegation_verdicts: "list_all (conforms sample_ext) delegation_fixtures"
  by code_simp

lemma plain_fixtures:
  "list_all plain_fixture capability_fixtures" "list_all plain_fixture definition_fixtures"
  "list_all plain_fixture delegation_fixtures"
  by code_simp+

text \<open>The members before the fixtures in the file.\<close>

definition corpus_preface :: "(bytes \<times> json) list" where
  "corpus_preface = [(''schema'', JNum ''1''), (''description'', JStr ''Single-event verdict corpus'')]"

lemma corpus_roundtrip_witness:
  "LoadVerdicts (Some (rooted_path [''module'', ''internal'', ''eventprotocol'', ''eventprotocol.go'']))
     (\<lambda>_. Inr (json_print (corpus_json corpus_preface go_fixtures []))) = Inr go_fixtures"
proof -
  let ?es = "[''module'', ''internal'', ''eventprotocol'']"
  have e: "?es \<noteq> []" "list_all segment ?es" by (simp_all add: segment_def)
  have f: "list_all plain_fixture go_fixtures" by (simp add: go_fixtures_def plain_fixtures)
  have m: "list_all other_member (corpus_preface @ [])" by code_simp
  from corpus_roundtrip [OF e f m refl] show ?thesis by simp
qed

text \<open>On each of these fixtures the verdict and the code are the ones the corpus expects.\<close>

theorem fixture_verdicts: "list_all (conforms sample_ext) go_fixtures"
  by (simp add: go_fixtures_def capability_verdicts definition_verdicts delegation_verdicts)

end
