(* ===== verification/Bolt.thy ===== *)
theory Bolt
  imports Prelude
begin

text \<open>
  The embedded database of the policy store, \<open>bbolt\<close>, is code outside the repository. Its
  operations are the record \<open>bolt\<close>, which every definition that touches the database takes
  as an argument, over an unspecified type \<open>'d\<close> of database states. The locale
  \<open>bolt_db\<close> states what bbolt documents and the store relies on. The interpretation at the
  end gives the laws a model: buckets as association lists held in memory.
\<close>

record 'd bolt =
  bk_open :: "bytes \<Rightarrow> bytes + 'd"                       \<comment> \<open>\<open>bolt.Open(path)\<close>\<close>
  bk_close :: "'d \<Rightarrow> bytes option \<times> 'd"                  \<comment> \<open>\<open>DB.Close\<close>: its error, the database after\<close>
  bk_begin :: "'d \<Rightarrow> bytes option"                       \<comment> \<open>error of starting a transaction\<close>
  bk_commit :: "'d \<Rightarrow> 'd \<Rightarrow> bytes + 'd"                    \<comment> \<open>commit a transaction's state\<close>
  bk_bucket :: "'d \<Rightarrow> bytes \<Rightarrow> bool"                      \<comment> \<open>\<open>Tx.Bucket(b) != nil\<close>\<close>
  bk_create :: "'d \<Rightarrow> bytes \<Rightarrow> bytes + 'd"                \<comment> \<open>\<open>Tx.CreateBucketIfNotExists\<close>\<close>
  bk_get :: "'d \<Rightarrow> bytes \<Rightarrow> bytes \<Rightarrow> bytes option"        \<comment> \<open>\<open>Bucket.Get\<close>, None for nil\<close>
  bk_put :: "'d \<Rightarrow> bytes \<Rightarrow> bytes \<Rightarrow> bytes \<Rightarrow> bytes + 'd"    \<comment> \<open>\<open>Bucket.Put\<close>\<close>
  bk_delete :: "'d \<Rightarrow> bytes \<Rightarrow> bytes \<Rightarrow> bytes + 'd"         \<comment> \<open>\<open>Bucket.Delete\<close>\<close>
  bk_pairs :: "'d \<Rightarrow> bytes \<Rightarrow> (bytes \<times> bytes) list"      \<comment> \<open>what \<open>Bucket.ForEach\<close> visits\<close>

text \<open>The keys and values that \<open>Put\<close> accepts (\<open>MaxKeySize\<close>, \<open>MaxValueSize\<close>).\<close>

definition storable :: "bytes \<Rightarrow> bytes \<Rightarrow> bool" where
  "storable k v \<longleftrightarrow> k \<noteq> [] \<and> int (length k) \<le> 32768 \<and> int (length v) \<le> 2147483646"

locale bolt_db =
  fixes B :: "'d bolt" and ok :: "'d \<Rightarrow> bool"
  assumes open_law: "bk_open B path = Inr d \<Longrightarrow> ok d \<and> bk_begin B d = None"
    and close_law: "ok d \<Longrightarrow> bk_close B d = (None, d') \<Longrightarrow> ok d' \<and> bk_begin B d' \<noteq> None"
    and commit_law: "ok d \<Longrightarrow> ok t \<Longrightarrow> bk_commit B d t = Inr d' \<Longrightarrow>
      ok d' \<and> bk_begin B d' = bk_begin B t \<and> bk_bucket B d' = bk_bucket B t \<and> bk_get B d' = bk_get B t"
    and create_law: "ok d \<Longrightarrow> bk_create B d b = Inr t \<Longrightarrow>
      ok t \<and> bk_begin B t = bk_begin B d \<and> bk_bucket B t = (bk_bucket B d)(b := True) \<and>
      bk_get B t = (if bk_bucket B d b then bk_get B d else (bk_get B d)(b := Map.empty))"
    and put_law: "ok d \<Longrightarrow> bk_bucket B d b \<Longrightarrow> bk_put B d b k v = Inr t \<Longrightarrow>
      ok t \<and> bk_begin B t = bk_begin B d \<and> bk_bucket B t = bk_bucket B d \<and>
      bk_get B t = (bk_get B d)(b := (bk_get B d b)(k \<mapsto> v))"
    and put_total: "ok d \<Longrightarrow> bk_bucket B d b \<Longrightarrow> storable k v \<Longrightarrow> \<exists>t. bk_put B d b k v = Inr t"
    and delete_law: "ok d \<Longrightarrow> bk_bucket B d b \<Longrightarrow> bk_delete B d b k = Inr t \<Longrightarrow>
      ok t \<and> bk_begin B t = bk_begin B d \<and> bk_bucket B t = bk_bucket B d \<and>
      bk_get B t = (bk_get B d)(b := (bk_get B d b)(k := None))"
    and delete_total: "ok d \<Longrightarrow> bk_bucket B d b \<Longrightarrow> \<exists>t. bk_delete B d b k = Inr t"
    and pairs_law: "ok d \<Longrightarrow> bk_bucket B d b \<Longrightarrow>
      distinct (map fst (bk_pairs B d b)) \<and> map_of (bk_pairs B d b) = bk_get B d b"

subsection \<open>Transactions\<close>

definition tx_then :: "bytes + 'd \<Rightarrow> ('d \<Rightarrow> bytes + 'd) \<Rightarrow> bytes + 'd" where
  "tx_then r f = (case r of Inl e \<Rightarrow> Inl e | Inr t \<Rightarrow> f t)"

text \<open>A loop whose body may return an error, which ends the loop.\<close>

fun tx_each :: "('a \<Rightarrow> 'd \<Rightarrow> bytes + 'd) \<Rightarrow> 'a list \<Rightarrow> 'd \<Rightarrow> bytes + 'd" where
  "tx_each f [] t = Inr t"
| "tx_each f (x # xs) t = tx_then (f x t) (tx_each f xs)"

text \<open>
  \<open>DB.Update(fn)\<close>: an error of \<open>fn\<close>, or of the commit, rolls back; the result is the
  error, if any, and the state of the database afterwards.
\<close>

definition db_update :: "'d bolt \<Rightarrow> 'd \<Rightarrow> ('d \<Rightarrow> bytes + 'd) \<Rightarrow> bytes option \<times> 'd" where
  "db_update B d f =
     (case bk_begin B d of
        Some e \<Rightarrow> (Some e, d)
      | None \<Rightarrow>
          (case tx_then (f d) (bk_commit B d) of
             Inl e \<Rightarrow> (Some e, d)
           | Inr d' \<Rightarrow> (None, d')))"

text \<open>\<open>DB.View(fn)\<close> with the error discarded: the result variable keeps its zero value.\<close>

definition db_view :: "'d bolt \<Rightarrow> 'd \<Rightarrow> 'a \<Rightarrow> ('d \<Rightarrow> 'a) \<Rightarrow> 'a" where
  "db_view B d zero f = (case bk_begin B d of Some _ \<Rightarrow> zero | None \<Rightarrow> f d)"

lemma tx_then_Inr: "tx_then r f = Inr t \<longleftrightarrow> (\<exists>u. r = Inr u \<and> f u = Inr t)"
  by (simp add: tx_then_def split: sum.splits)

lemma db_update_error: "db_update B d f = (Some e, d') \<Longrightarrow> d' = d"
  by (auto simp: db_update_def split: option.splits sum.splits)

lemma db_update_done:
  "db_update B d f = (None, d') \<Longrightarrow>
   bk_begin B d = None \<and> (\<exists>t. f d = Inr t \<and> bk_commit B d t = Inr d')"
  by (auto simp: db_update_def tx_then_Inr split: option.splits sum.splits)

text \<open>
  Lemmas about every transaction of a client are proved once, in the interface: what a
  transaction keeps, a successful update keeps.
\<close>

context bolt_db
begin

lemma put_reads:
  assumes "ok d" "bk_bucket B d b" "bk_put B d b k v = Inr t"
  shows "ok t" "bk_begin B t = bk_begin B d" "bk_bucket B t = bk_bucket B d"
    "bk_get B t = (bk_get B d)(b := (bk_get B d b)(k \<mapsto> v))"
  using put_law [OF assms] by auto

lemma delete_reads:
  assumes "ok d" "bk_bucket B d b" "bk_delete B d b k = Inr t"
  shows "ok t" "bk_begin B t = bk_begin B d" "bk_bucket B t = bk_bucket B d"
    "bk_get B t = (bk_get B d)(b := (bk_get B d b)(k := None))"
  using delete_law [OF assms] by auto

lemma commit_reads:
  assumes "ok d" "ok t" "bk_commit B d t = Inr d'"
  shows "ok d'" "bk_begin B d' = bk_begin B t" "bk_bucket B d' = bk_bucket B t"
    "bk_get B d' = bk_get B t"
  using commit_law [OF assms] by auto

lemma each_put:
  "ok d \<Longrightarrow> bk_bucket B d b \<Longrightarrow> tx_each (\<lambda>k t. bk_put B t b k v) ks d = Inr t \<Longrightarrow>
   ok t \<and> bk_begin B t = bk_begin B d \<and> bk_bucket B t = bk_bucket B d \<and>
   bk_get B t = (bk_get B d)(b := (\<lambda>k. if k \<in> set ks then Some v else bk_get B d b k))"
proof (induction ks arbitrary: d)
  case (Cons k ks)
  then obtain u where u: "bk_put B d b k v = Inr u" "tx_each (\<lambda>k t. bk_put B t b k v) ks u = Inr t"
    by (auto simp: tx_then_Inr)
  note p = put_reads [OF Cons.prems(1,2) u(1)]
  from Cons.IH [OF p(1) _ u(2)] Cons.prems(2) p show ?case by (auto simp: fun_eq_iff)
qed auto

end

subsection \<open>A database in memory\<close>

text \<open>
  Buckets are association lists without repeated keys; a transaction is the state it works on.
  Opening always gives the database passed as \<open>disk\<close>.
\<close>

record mem =
  mem_closed :: bool
  mem_buckets :: "(bytes \<times> (bytes \<times> bytes) list) list"

definition mem_bucket :: "mem \<Rightarrow> bytes \<Rightarrow> (bytes \<times> bytes) list option" where
  "mem_bucket m b = map_of (mem_buckets m) b"

definition mem_set :: "mem \<Rightarrow> bytes \<Rightarrow> (bytes \<times> bytes) list \<Rightarrow> mem" where
  "mem_set m b ps = m\<lparr>mem_buckets := (b, ps) # mem_buckets m\<rparr>"

definition mem_pairs :: "mem \<Rightarrow> bytes \<Rightarrow> (bytes \<times> bytes) list" where
  "mem_pairs m b = (case mem_bucket m b of None \<Rightarrow> [] | Some ps \<Rightarrow> ps)"

definition mem_ok :: "mem \<Rightarrow> bool" where
  "mem_ok m \<longleftrightarrow> (\<forall>b. distinct (map fst (mem_pairs m b)))"

definition without :: "bytes \<Rightarrow> (bytes \<times> bytes) list \<Rightarrow> (bytes \<times> bytes) list" where
  "without k ps = filter (\<lambda>p. fst p \<noteq> k) ps"

definition mem_bolt :: "mem \<Rightarrow> mem bolt" where
  "mem_bolt disk =
     \<lparr>bk_open = (\<lambda>_. Inr (disk\<lparr>mem_closed := False\<rparr>)),
      bk_close = (\<lambda>m. (None, m\<lparr>mem_closed := True\<rparr>)),
      bk_begin = (\<lambda>m. if mem_closed m then Some ''database not open'' else None),
      bk_commit = (\<lambda>m t. Inr t),
      bk_bucket = (\<lambda>m b. mem_bucket m b \<noteq> None),
      bk_create = (\<lambda>m b. Inr (if mem_bucket m b = None then mem_set m b [] else m)),
      bk_get = (\<lambda>m b k. map_of (mem_pairs m b) k),
      bk_put = (\<lambda>m b k v. if storable k v then Inr (mem_set m b ((k, v) # without k (mem_pairs m b)))
                           else Inl ''key or value not storable''),
      bk_delete = (\<lambda>m b k. Inr (mem_set m b (without k (mem_pairs m b)))),
      bk_pairs = mem_pairs\<rparr>"

lemma mem_set_simps [simp]:
  "mem_bucket (mem_set m b ps) b' = (if b' = b then Some ps else mem_bucket m b')"
  "mem_pairs (mem_set m b ps) b' = (if b' = b then ps else mem_pairs m b')"
  "mem_closed (mem_set m b ps) = mem_closed m"
  by (simp_all add: mem_set_def mem_bucket_def mem_pairs_def)

lemma mem_closed_simps [simp]:
  "mem_bucket (m\<lparr>mem_closed := c\<rparr>) = mem_bucket m" "mem_pairs (m\<lparr>mem_closed := c\<rparr>) = mem_pairs m"
  by (simp_all add: fun_eq_iff mem_bucket_def mem_pairs_def)

lemma map_of_without: "map_of (without k ps) = (map_of ps)(k := None)"
  by (induction ps) (auto simp: without_def fun_eq_iff)

lemma distinct_without:
  "distinct (map fst ps) \<Longrightarrow> distinct (map fst (without k ps)) \<and> k \<notin> fst ` set (without k ps)"
  by (auto simp: without_def distinct_map_filter)

lemma mem_bolt_db: "mem_ok disk \<Longrightarrow> bolt_db (mem_bolt disk) mem_ok"
proof unfold_locales
  fix d t b k v assume "mem_ok d" and "bk_put (mem_bolt disk) d b k v = Inr t"
  then show "mem_ok t \<and> bk_begin (mem_bolt disk) t = bk_begin (mem_bolt disk) d \<and>
      bk_bucket (mem_bolt disk) t = bk_bucket (mem_bolt disk) d \<and>
      bk_get (mem_bolt disk) t = (bk_get (mem_bolt disk) d)(b := (bk_get (mem_bolt disk) d b)(k \<mapsto> v))"
    if "bk_bucket (mem_bolt disk) d b"
    using that distinct_without [of "mem_pairs d b" k]
    by (auto simp: mem_bolt_def mem_ok_def fun_eq_iff map_of_without split: if_splits)
qed (auto simp: mem_bolt_def mem_ok_def fun_eq_iff map_of_without distinct_without
      storable_def mem_pairs_def [of _ b for b] split: if_splits option.splits)

definition empty_disk :: mem where
  "empty_disk = \<lparr>mem_closed = False, mem_buckets = []\<rparr>"

lemma empty_disk_ok: "mem_ok empty_disk"
  by (simp add: mem_ok_def mem_pairs_def mem_bucket_def empty_disk_def)

interpretation mb: bolt_db "mem_bolt empty_disk" mem_ok
  by (rule mem_bolt_db [OF empty_disk_ok])

end
