(* ===== verification/PolicyStore.thy ===== *)
theory PolicyStore
  imports Bolt GoStd
begin

text \<open>
  \<open>src/internal/policy/store.go\<close>: the durable access policy. A \<open>Store\<close> is the database
  state and the allowlist flag. A writing method returns Go's error (\<^term>\<open>None\<close> for nil)
  and the store afterwards; a reading method runs in a read transaction whose error the code
  discards.

  Go iterates over a map in an unspecified order. Where the code does, the definition takes
  that order as an argument: a function that arranges the keys or pairs of the map.
\<close>

record 'd store =
  st_db :: 'd
  st_allowlist :: bool

definition bucketAdmins :: bytes where "bucketAdmins = ''admins''"
definition bucketBanned :: bytes where "bucketBanned = ''banned''"
definition bucketAllowed :: bytes where "bucketAllowed = ''allowed''"
definition bucketKindsAllowed :: bytes where "bucketKindsAllowed = ''kinds_allowed''"
definition bucketKindsDenied :: bytes where "bucketKindsDenied = ''kinds_denied''"
definition bucketIPs :: bytes where "bucketIPs = ''ips''"
definition bucketInfo :: bytes where "bucketInfo = ''info''"

lemmas bucket_names =
  bucketAdmins_def bucketBanned_def bucketAllowed_def bucketKindsAllowed_def
  bucketKindsDenied_def bucketIPs_def bucketInfo_def

lemma buckets_distinct [simp]:
  "bucketAdmins \<noteq> bucketBanned" "bucketAdmins \<noteq> bucketAllowed" "bucketAdmins \<noteq> bucketKindsAllowed"
  "bucketAdmins \<noteq> bucketKindsDenied" "bucketAdmins \<noteq> bucketIPs" "bucketAdmins \<noteq> bucketInfo"
  "bucketBanned \<noteq> bucketAdmins" "bucketBanned \<noteq> bucketAllowed" "bucketBanned \<noteq> bucketKindsAllowed"
  "bucketBanned \<noteq> bucketKindsDenied" "bucketBanned \<noteq> bucketIPs" "bucketBanned \<noteq> bucketInfo"
  "bucketAllowed \<noteq> bucketAdmins" "bucketAllowed \<noteq> bucketBanned" "bucketAllowed \<noteq> bucketKindsAllowed"
  "bucketAllowed \<noteq> bucketKindsDenied" "bucketAllowed \<noteq> bucketIPs" "bucketAllowed \<noteq> bucketInfo"
  "bucketKindsAllowed \<noteq> bucketAdmins" "bucketKindsAllowed \<noteq> bucketBanned"
  "bucketKindsAllowed \<noteq> bucketAllowed" "bucketKindsAllowed \<noteq> bucketKindsDenied"
  "bucketKindsAllowed \<noteq> bucketIPs" "bucketKindsAllowed \<noteq> bucketInfo"
  "bucketKindsDenied \<noteq> bucketAdmins" "bucketKindsDenied \<noteq> bucketBanned"
  "bucketKindsDenied \<noteq> bucketAllowed" "bucketKindsDenied \<noteq> bucketKindsAllowed"
  "bucketKindsDenied \<noteq> bucketIPs" "bucketKindsDenied \<noteq> bucketInfo"
  "bucketIPs \<noteq> bucketAdmins" "bucketIPs \<noteq> bucketBanned" "bucketIPs \<noteq> bucketAllowed"
  "bucketIPs \<noteq> bucketKindsAllowed" "bucketIPs \<noteq> bucketKindsDenied" "bucketIPs \<noteq> bucketInfo"
  "bucketInfo \<noteq> bucketAdmins" "bucketInfo \<noteq> bucketBanned" "bucketInfo \<noteq> bucketAllowed"
  "bucketInfo \<noteq> bucketKindsAllowed" "bucketInfo \<noteq> bucketKindsDenied" "bucketInfo \<noteq> bucketIPs"
  by (simp_all add: bucket_names)

subsection \<open>Transactions of a store\<close>

definition st_update :: "'d bolt \<Rightarrow> 'd store \<Rightarrow> ('d \<Rightarrow> bytes + 'd) \<Rightarrow> bytes option \<times> 'd store" where
  "st_update B s f = (let (e, d) = db_update B (st_db s) f in (e, s\<lparr>st_db := d\<rparr>))"

definition st_has :: "'d bolt \<Rightarrow> 'd store \<Rightarrow> bytes \<Rightarrow> bytes \<Rightarrow> bool" where
  "st_has B s bucket key = db_view B (st_db s) False (\<lambda>t. bk_get B t bucket key \<noteq> None)"

definition st_get :: "'d bolt \<Rightarrow> 'd store \<Rightarrow> bytes \<Rightarrow> bytes \<Rightarrow> bytes option" where
  "st_get B s bucket key = db_view B (st_db s) None (\<lambda>t. bk_get B t bucket key)"

definition st_put ::
  "'d bolt \<Rightarrow> 'd store \<Rightarrow> bytes \<Rightarrow> bytes \<Rightarrow> bytes \<Rightarrow> bytes option \<times> 'd store" where
  "st_put B s bucket key val = st_update B s (\<lambda>t. bk_put B t bucket key val)"

definition AllowlistMode :: "'d store \<Rightarrow> bool" where
  "AllowlistMode s = st_allowlist s"

definition Close :: "'d bolt \<Rightarrow> 'd store \<Rightarrow> bytes option \<times> 'd store" where
  "Close B s = (let (e, d) = bk_close B (st_db s) in (e, s\<lparr>st_db := d\<rparr>))"

subsection \<open>Administrators\<close>

definition IsAdmin :: "'d bolt \<Rightarrow> 'd store \<Rightarrow> bytes \<Rightarrow> bool" where
  "IsAdmin B s pubkey = db_view B (st_db s) False (\<lambda>t. bk_get B t bucketAdmins pubkey \<noteq> None)"

definition GrantAdmin :: "'d bolt \<Rightarrow> bytes \<Rightarrow> 'd store \<Rightarrow> bytes option \<times> 'd store" where
  "GrantAdmin B pubkey s = st_update B s (\<lambda>t. bk_put B t bucketAdmins pubkey ''granted'')"

definition RevokeAdmin :: "'d bolt \<Rightarrow> bytes \<Rightarrow> 'd store \<Rightarrow> bytes option \<times> 'd store" where
  "RevokeAdmin B pubkey s = st_update B s (\<lambda>t. bk_delete B t bucketAdmins pubkey)"

text \<open>The set \<open>wanted\<close> that both reconcilers build from the configured keys.\<close>

definition wanted_keys :: "bytes list \<Rightarrow> bytes list" where
  "wanted_keys pubkeys = remdups (filter (\<lambda>p. p \<noteq> []) pubkeys)"

definition SyncAdmins ::
  "'d bolt \<Rightarrow> (bytes list \<Rightarrow> bytes list) \<Rightarrow> bytes list \<Rightarrow> 'd store \<Rightarrow> bytes option \<times> 'd store" where
  "SyncAdmins B ord pubkeys s =
     (let wanted = wanted_keys pubkeys in
      st_update B s (\<lambda>t.
        let obsolete = map fst (filter (\<lambda>(k, v). k \<notin> set wanted) (bk_pairs B t bucketAdmins)) in
        tx_then
          (tx_each (\<lambda>key t. tx_then (bk_delete B t bucketAdmins key)
                                    (\<lambda>t. bk_delete B t bucketAllowed key)) obsolete t)
          (tx_each (\<lambda>pubkey t. tx_then (bk_put B t bucketAdmins pubkey ''granted'')
                                       (\<lambda>t. bk_put B t bucketAllowed pubkey ''admin''))
             (ord wanted))))"

subsection \<open>Allow and ban\<close>

definition IsBanned :: "'d bolt \<Rightarrow> 'd store \<Rightarrow> bytes \<Rightarrow> bool" where
  "IsBanned B s pubkey = db_view B (st_db s) False (\<lambda>t. bk_get B t bucketBanned pubkey \<noteq> None)"

definition IsAllowed :: "'d bolt \<Rightarrow> 'd store \<Rightarrow> bytes \<Rightarrow> bool" where
  "IsAllowed B s pubkey = db_view B (st_db s) False (\<lambda>t. bk_get B t bucketAllowed pubkey \<noteq> None)"

definition Ban :: "'d bolt \<Rightarrow> bytes \<Rightarrow> bytes \<Rightarrow> 'd store \<Rightarrow> bytes option \<times> 'd store" where
  "Ban B pubkey reason s =
     st_update B s (\<lambda>t. tx_then (bk_delete B t bucketAllowed pubkey)
                                (\<lambda>t. bk_put B t bucketBanned pubkey reason))"

definition Unban :: "'d bolt \<Rightarrow> bytes \<Rightarrow> 'd store \<Rightarrow> bytes option \<times> 'd store" where
  "Unban B pubkey s = st_update B s (\<lambda>t. bk_delete B t bucketBanned pubkey)"

definition Allow :: "'d bolt \<Rightarrow> bytes \<Rightarrow> bytes \<Rightarrow> 'd store \<Rightarrow> bytes option \<times> 'd store" where
  "Allow B pubkey reason s =
     st_update B s (\<lambda>t. tx_then (bk_delete B t bucketBanned pubkey)
                                (\<lambda>t. bk_put B t bucketAllowed pubkey reason))"

definition SyncAllowed ::
  "'d bolt \<Rightarrow> (bytes list \<Rightarrow> bytes list) \<Rightarrow> bytes list \<Rightarrow> bytes \<Rightarrow> 'd store
     \<Rightarrow> bytes option \<times> 'd store" where
  "SyncAllowed B ord pubkeys reason s =
     (let wanted = wanted_keys pubkeys in
      st_update B s (\<lambda>t.
        let obsolete = map fst (filter (\<lambda>(k, v). v = reason \<and> k \<notin> set wanted)
                                  (bk_pairs B t bucketAllowed)) in
        tx_then
          (tx_each (\<lambda>key t. bk_delete B t bucketAllowed key) obsolete t)
          (tx_each (\<lambda>pubkey t. tx_then (bk_delete B t bucketBanned pubkey)
                                       (\<lambda>t. bk_put B t bucketAllowed pubkey reason))
             (ord wanted))))"

subsection \<open>Listing\<close>

type_synonym map_order = "(bytes \<times> bytes) list \<Rightarrow> (bytes \<times> bytes) list"

text \<open>\<open>listKV\<close> reads a bucket into a Go map; ranging over the map gives its pairs in an
  arrangement chosen by \<open>ord\<close>.\<close>

definition listKV :: "'d bolt \<Rightarrow> 'd store \<Rightarrow> bytes \<Rightarrow> (bytes \<times> bytes) list" where
  "listKV B s bucket = db_view B (st_db s) [] (\<lambda>t. bk_pairs B t bucket)"

text \<open>\<open>listSorted\<close>: \<open>less\<close> compares the given key, which is how all its callers use it.\<close>

definition listSorted ::
  "'d bolt \<Rightarrow> map_order \<Rightarrow> 'd store \<Rightarrow> bytes \<Rightarrow> (bytes \<Rightarrow> bytes \<Rightarrow> 'a) \<Rightarrow> ('a \<Rightarrow> bytes) \<Rightarrow> 'a list" where
  "listSorted B ord s bucket build key =
     sort_key key (map (\<lambda>(k, v). build k v) (ord (listKV B s bucket)))"

record pubkey_reason =
  pr_pubkey :: bytes
  pr_reason :: bytes

record ip_reason =
  ir_ip :: bytes
  ir_reason :: bytes

definition ListBanned :: "'d bolt \<Rightarrow> map_order \<Rightarrow> 'd store \<Rightarrow> pubkey_reason list" where
  "ListBanned B ord s =
     listSorted B ord s bucketBanned (\<lambda>pk r. \<lparr>pr_pubkey = pk, pr_reason = r\<rparr>) pr_pubkey"

definition ListAllowed :: "'d bolt \<Rightarrow> map_order \<Rightarrow> 'd store \<Rightarrow> pubkey_reason list" where
  "ListAllowed B ord s =
     listSorted B ord s bucketAllowed (\<lambda>pk r. \<lparr>pr_pubkey = pk, pr_reason = r\<rparr>) pr_pubkey"

definition policy_atoi :: "bytes \<Rightarrow> int" where
  "policy_atoi s = (case parse_int s of None \<Rightarrow> -1 | Some n \<Rightarrow> n)"

definition listInts :: "'d bolt \<Rightarrow> map_order \<Rightarrow> 'd store \<Rightarrow> bytes \<Rightarrow> int list" where
  "listInts B ord s bucket =
     sort (filter (\<lambda>n. 0 \<le> n) (map (\<lambda>(k, v). policy_atoi k) (ord (listKV B s bucket))))"

subsection \<open>Kinds\<close>

definition KindAllowed :: "'d bolt \<Rightarrow> 'd store \<Rightarrow> int \<Rightarrow> bool" where
  "KindAllowed B s kind =
     (let key = itoa kind in
      if st_has B s bucketKindsDenied key then False
      else if listKV B s bucketKindsAllowed = [] then True
      else st_has B s bucketKindsAllowed key)"

definition AllowKind :: "'d bolt \<Rightarrow> int \<Rightarrow> 'd store \<Rightarrow> bytes option \<times> 'd store" where
  "AllowKind B kind s = st_put B s bucketKindsAllowed (itoa kind) []"

definition DenyKind :: "'d bolt \<Rightarrow> int \<Rightarrow> 'd store \<Rightarrow> bytes option \<times> 'd store" where
  "DenyKind B kind s = st_put B s bucketKindsDenied (itoa kind) []"

definition ListAllowedKinds :: "'d bolt \<Rightarrow> map_order \<Rightarrow> 'd store \<Rightarrow> int list" where
  "ListAllowedKinds B ord s = listInts B ord s bucketKindsAllowed"

definition ListDeniedKinds :: "'d bolt \<Rightarrow> map_order \<Rightarrow> 'd store \<Rightarrow> int list" where
  "ListDeniedKinds B ord s = listInts B ord s bucketKindsDenied"

subsection \<open>IPs and relay information\<close>

definition IsIPBlocked :: "'d bolt \<Rightarrow> 'd store \<Rightarrow> bytes \<Rightarrow> bool" where
  "IsIPBlocked B s ip = st_has B s bucketIPs ip"

definition BlockIP :: "'d bolt \<Rightarrow> bytes \<Rightarrow> bytes \<Rightarrow> 'd store \<Rightarrow> bytes option \<times> 'd store" where
  "BlockIP B ip reason s = st_put B s bucketIPs ip reason"

definition UnblockIP :: "'d bolt \<Rightarrow> bytes \<Rightarrow> 'd store \<Rightarrow> bytes option \<times> 'd store" where
  "UnblockIP B ip s = st_update B s (\<lambda>t. bk_delete B t bucketIPs ip)"

definition ListBlockedIPs :: "'d bolt \<Rightarrow> map_order \<Rightarrow> 'd store \<Rightarrow> ip_reason list" where
  "ListBlockedIPs B ord s =
     listSorted B ord s bucketIPs (\<lambda>ip r. \<lparr>ir_ip = ip, ir_reason = r\<rparr>) ir_ip"

definition GetRelayInfo :: "'d bolt \<Rightarrow> 'd store \<Rightarrow> bytes \<Rightarrow> bytes" where
  "GetRelayInfo B s key = (case st_get B s bucketInfo key of None \<Rightarrow> [] | Some v \<Rightarrow> v)"

definition SetRelayInfo :: "'d bolt \<Rightarrow> bytes \<Rightarrow> bytes \<Rightarrow> 'd store \<Rightarrow> bytes option \<times> 'd store" where
  "SetRelayInfo B key val s =
     (if val = [] then st_update B s (\<lambda>t. bk_delete B t bucketInfo key)
      else st_put B s bucketInfo key val)"

subsection \<open>Opening\<close>

definition bucket_list :: "bytes list" where
  "bucket_list =
     [bucketAdmins, bucketBanned, bucketAllowed, bucketKindsAllowed, bucketKindsDenied,
      bucketIPs, bucketInfo]"

definition seed_admin :: "'d bolt \<Rightarrow> bytes \<Rightarrow> 'd store \<Rightarrow> 'd store" where
  "seed_admin B pk s =
     (if pk \<noteq> [] then snd (Allow B pk ''admin'' (snd (GrantAdmin B pk s))) else s)"

definition Open ::
  "'d bolt \<Rightarrow> bytes \<Rightarrow> bytes list \<Rightarrow> int list \<Rightarrow> bool \<Rightarrow> bytes + 'd store" where
  "Open B path adminPubkeys allowedKinds allowlistMode =
     (case bk_open B path of
        Inl e \<Rightarrow> Inl (''policy: open '' @ path @ '': '' @ e)
      | Inr d \<Rightarrow>
          (case st_update B \<lparr>st_db = d, st_allowlist = allowlistMode\<rparr>
                  (tx_each (\<lambda>b t. bk_create B t b) bucket_list) of
             (Some e, _) \<Rightarrow> Inl e
           | (None, s) \<Rightarrow>
               Inr (fold (\<lambda>k s. snd (AllowKind B k s)) allowedKinds
                 (fold (seed_admin B) adminPubkeys s))))"

end
