(* ===== verification/PolicySpec.thy ===== *)
theory PolicySpec
  imports Bolt GoStd
begin

text \<open>
  What the policy store promises, without a database: a \<open>policy\<close> holds the administrators,
  the bans and allow entries with their reasons, the kind lists, the blocked addresses and the
  relay's descriptive fields. \<open>spec_op\<close> says what each writing method makes of a policy. The
  locale \<open>policy_contract\<close> is the interface between the store and its clients: a successful
  operation does what \<open>spec_op\<close> says and a failed one does nothing.
\<close>

record policy =
  p_admins :: "bytes set"
  p_banned :: "bytes \<rightharpoonup> bytes"
  p_allowed :: "bytes \<rightharpoonup> bytes"
  p_kinds_allowed :: "int set"
  p_kinds_denied :: "int set"
  p_ips :: "bytes \<rightharpoonup> bytes"
  p_info :: "bytes \<rightharpoonup> bytes"
  p_allowlist :: bool

datatype policy_op =
    DoGrantAdmin bytes
  | DoRevokeAdmin bytes
  | DoSyncAdmins "bytes list"
  | DoBan bytes bytes
  | DoUnban bytes
  | DoAllow bytes bytes
  | DoSyncAllowed "bytes list" bytes
  | DoAllowKind int
  | DoDenyKind int
  | DoBlockIP bytes bytes
  | DoUnblockIP bytes
  | DoSetRelayInfo bytes bytes

definition wanted_set :: "bytes list \<Rightarrow> bytes set" where
  "wanted_set ks = set ks - {[]}"

fun spec_op :: "policy_op \<Rightarrow> policy \<Rightarrow> policy" where
  "spec_op (DoGrantAdmin pk) p = p\<lparr>p_admins := insert pk (p_admins p)\<rparr>"
| "spec_op (DoRevokeAdmin pk) p = p\<lparr>p_admins := p_admins p - {pk}\<rparr>"
| "spec_op (DoSyncAdmins ks) p =
     p\<lparr>p_admins := wanted_set ks,
       p_allowed := (\<lambda>k. if k \<in> wanted_set ks then Some ''admin''
                         else if k \<in> p_admins p then None else p_allowed p k)\<rparr>"
| "spec_op (DoBan pk r) p =
     p\<lparr>p_allowed := (p_allowed p)(pk := None), p_banned := (p_banned p)(pk \<mapsto> r)\<rparr>"
| "spec_op (DoUnban pk) p = p\<lparr>p_banned := (p_banned p)(pk := None)\<rparr>"
| "spec_op (DoAllow pk r) p =
     p\<lparr>p_banned := (p_banned p)(pk := None), p_allowed := (p_allowed p)(pk \<mapsto> r)\<rparr>"
| "spec_op (DoSyncAllowed ks r) p =
     p\<lparr>p_banned := (\<lambda>k. if k \<in> wanted_set ks then None else p_banned p k),
       p_allowed := (\<lambda>k. if k \<in> wanted_set ks then Some r
                         else if p_allowed p k = Some r then None else p_allowed p k)\<rparr>"
| "spec_op (DoAllowKind k) p = p\<lparr>p_kinds_allowed := insert k (p_kinds_allowed p)\<rparr>"
| "spec_op (DoDenyKind k) p = p\<lparr>p_kinds_denied := insert k (p_kinds_denied p)\<rparr>"
| "spec_op (DoBlockIP ip r) p = p\<lparr>p_ips := (p_ips p)(ip \<mapsto> r)\<rparr>"
| "spec_op (DoUnblockIP ip) p = p\<lparr>p_ips := (p_ips p)(ip := None)\<rparr>"
| "spec_op (DoSetRelayInfo k v) p = p\<lparr>p_info := (p_info p)(k := (if v = [] then None else Some v))\<rparr>"

definition spec_kind_allowed :: "policy \<Rightarrow> int \<Rightarrow> bool" where
  "spec_kind_allowed p k \<longleftrightarrow>
     k \<notin> p_kinds_denied p \<and> (p_kinds_allowed p = {} \<or> k \<in> p_kinds_allowed p)"

text \<open>No key is both banned and allowed; \<open>SyncAdmins\<close> is the one writer that does not lift
  bans while it adds allow entries.\<close>

definition exclusive :: "policy \<Rightarrow> bool" where
  "exclusive p \<longleftrightarrow> dom (p_banned p) \<inter> dom (p_allowed p) = {}"

lemma exclusive_iff: "exclusive p \<longleftrightarrow> (\<forall>k. p_banned p k = None \<or> p_allowed p k = None)"
  by (auto simp: exclusive_def disjoint_iff dom_def) (metis option.distinct(1))

definition lifts_bans :: "policy_op \<Rightarrow> bool" where
  "lifts_bans c \<longleftrightarrow> (\<forall>ks. c \<noteq> DoSyncAdmins ks)"

lemma spec_exclusive: "exclusive p \<Longrightarrow> lifts_bans c \<Longrightarrow> exclusive (spec_op c p)"
  by (cases c) (auto simp: exclusive_def lifts_bans_def dom_def disjoint_iff split: if_splits)

text \<open>The administrators change through three operations only.\<close>

definition touches_admins :: "policy_op \<Rightarrow> bool" where
  "touches_admins c \<longleftrightarrow>
     (case c of DoGrantAdmin _ \<Rightarrow> True | DoRevokeAdmin _ \<Rightarrow> True | DoSyncAdmins _ \<Rightarrow> True | _ \<Rightarrow> False)"

lemma spec_admins_kept: "\<not> touches_admins c \<Longrightarrow> p_admins (spec_op c p) = p_admins p"
  by (cases c) (simp_all add: touches_admins_def)

lemma spec_allowlist [simp]: "p_allowlist (spec_op c p) = p_allowlist p"
  by (cases c) simp_all

text \<open>A sequence of operations, the errors of the single ones kept in order.\<close>

fun run_ops :: "('c \<Rightarrow> 's \<Rightarrow> 'e option \<times> 's) \<Rightarrow> 'c list \<Rightarrow> 's \<Rightarrow> 'e option list \<times> 's" where
  "run_ops run [] s = ([], s)"
| "run_ops run (c # cs) s =
     (let (e, s1) = run c s; (es, s2) = run_ops run cs s1 in (e # es, s2))"

definition succeeded :: "'c list \<Rightarrow> 'e option list \<Rightarrow> 'c list" where
  "succeeded cs es = map fst (filter (\<lambda>(c, e). e = None) (zip cs es))"

locale policy_contract =
  fixes inv :: "'s \<Rightarrow> bool"
    and view :: "'s \<Rightarrow> policy"
    and run :: "policy_op \<Rightarrow> 's \<Rightarrow> bytes option \<times> 's"
  assumes run_done: "inv s \<Longrightarrow> run c s = (None, s') \<Longrightarrow> inv s' \<and> view s' = spec_op c (view s)"
    and run_failed: "inv s \<Longrightarrow> run c s = (Some e, s') \<Longrightarrow> s' = s"
begin

lemma run_inv: "inv s \<Longrightarrow> run c s = (e, s') \<Longrightarrow> inv s'"
  by (cases e) (auto dest: run_done run_failed)

lemma run_ops_refines:
  "inv s \<Longrightarrow> run_ops run cs s = (es, s') \<Longrightarrow>
   inv s' \<and> length es = length cs \<and> view s' = fold spec_op (succeeded cs es) (view s)"
proof (induction cs arbitrary: s es s')
  case (Cons c cs)
  obtain e s1 where r: "run c s = (e, s1)" by fastforce
  obtain fs s2 where q: "run_ops run cs s1 = (fs, s2)" by fastforce
  have eq: "es = e # fs" "s' = s2" using Cons.prems(2) r q by simp_all
  note ih = Cons.IH [OF run_inv [OF Cons.prems(1) r] q]
  show ?case
  proof (cases e)
    case None
    then show ?thesis using ih eq run_done [OF Cons.prems(1)] r by (simp add: succeeded_def)
  next
    case (Some x)
    then have "s1 = s" using run_failed [OF Cons.prems(1)] r by simp
    then show ?thesis using ih eq Some by (simp add: succeeded_def)
  qed
qed (simp add: succeeded_def)

lemma run_ops_exclusive:
  assumes "inv s" "run_ops run cs s = (es, s')" "\<forall>c \<in> set cs. lifts_bans c" "exclusive (view s)"
  shows "exclusive (view s')"
proof -
  have "exclusive (fold spec_op ds p)" if "\<forall>c \<in> set ds. lifts_bans c" "exclusive p" for ds p
    using that by (induction ds arbitrary: p) (auto intro: spec_exclusive)
  moreover have "set (succeeded cs es) \<subseteq> set cs" by (auto simp: succeeded_def dest: set_zip_leftD)
  ultimately show ?thesis using run_ops_refines [OF assms(1,2)] assms(3,4) by auto
qed

lemma run_ops_admins:
  assumes "inv s" "run_ops run cs s = (es, s')" "\<forall>c \<in> set cs. \<not> touches_admins c"
  shows "p_admins (view s') = p_admins (view s)"
proof -
  have "p_admins (fold spec_op ds p) = p_admins p" if "\<forall>c \<in> set ds. \<not> touches_admins c" for ds p
    using that by (induction ds arbitrary: p) (auto simp: spec_admins_kept)
  moreover have "set (succeeded cs es) \<subseteq> set cs" by (auto simp: succeeded_def dest: set_zip_leftD)
  ultimately show ?thesis using run_ops_refines [OF assms(1,2)] assms(3) by auto
qed

end

end
