(* ===== verification/PolicyRefine.thy ===== *)
theory PolicyRefine
  imports PolicyStore PolicySpec
begin

text \<open>
  The store of \<open>PolicyStore\<close> against the contract of \<open>PolicySpec\<close>: \<open>policy_of\<close> reads the
  policy out of the buckets, \<open>store_open\<close> is the invariant that \<open>Open\<close> establishes and every
  operation keeps, and \<open>run_op\<close> is the method that each abstract operation stands for. The
  lemmas up to the interpretation are about transactions: what each database operation does to
  the buckets, and how a loop of them adds up.
\<close>

definition db_ready :: "'d bolt \<Rightarrow> ('d \<Rightarrow> bool) \<Rightarrow> 'd \<Rightarrow> bool" where
  "db_ready B ok d \<longleftrightarrow>
     ok d \<and> bk_begin B d = None \<and> (\<forall>b \<in> set bucket_list. bk_bucket B d b)"

definition kind_keys :: "'d bolt \<Rightarrow> 'd \<Rightarrow> bytes \<Rightarrow> bool" where
  "kind_keys B d b \<longleftrightarrow> dom (bk_get B d b) \<subseteq> range itoa"

definition store_open :: "'d bolt \<Rightarrow> ('d \<Rightarrow> bool) \<Rightarrow> 'd store \<Rightarrow> bool" where
  "store_open B ok s \<longleftrightarrow>
     db_ready B ok (st_db s) \<and> kind_keys B (st_db s) bucketKindsAllowed \<and>
     kind_keys B (st_db s) bucketKindsDenied"

definition policy_in :: "(bytes \<Rightarrow> bytes \<Rightarrow> bytes option) \<Rightarrow> bool \<Rightarrow> policy" where
  "policy_in g allowlist =
     \<lparr>p_admins = dom (g bucketAdmins), p_banned = g bucketBanned, p_allowed = g bucketAllowed,
      p_kinds_allowed = {n. g bucketKindsAllowed (itoa n) \<noteq> None},
      p_kinds_denied = {n. g bucketKindsDenied (itoa n) \<noteq> None},
      p_ips = g bucketIPs, p_info = g bucketInfo, p_allowlist = allowlist\<rparr>"

definition policy_of :: "'d bolt \<Rightarrow> 'd store \<Rightarrow> policy" where
  "policy_of B s = policy_in (bk_get B (st_db s)) (st_allowlist s)"

fun run_op :: "'d bolt \<Rightarrow> (bytes list \<Rightarrow> bytes list) \<Rightarrow> policy_op \<Rightarrow> 'd store \<Rightarrow> bytes option \<times> 'd store" where
  "run_op B ord (DoGrantAdmin pk) = GrantAdmin B pk"
| "run_op B ord (DoRevokeAdmin pk) = RevokeAdmin B pk"
| "run_op B ord (DoSyncAdmins ks) = SyncAdmins B ord ks"
| "run_op B ord (DoBan pk r) = Ban B pk r"
| "run_op B ord (DoUnban pk) = Unban B pk"
| "run_op B ord (DoAllow pk r) = Allow B pk r"
| "run_op B ord (DoSyncAllowed ks r) = SyncAllowed B ord ks r"
| "run_op B ord (DoAllowKind k) = AllowKind B k"
| "run_op B ord (DoDenyKind k) = DenyKind B k"
| "run_op B ord (DoBlockIP ip r) = BlockIP B ip r"
| "run_op B ord (DoUnblockIP ip) = UnblockIP B ip"
| "run_op B ord (DoSetRelayInfo k v) = SetRelayInfo B k v"

subsection \<open>Effects of transactions\<close>

text \<open>A transaction body \<open>f\<close> has effect \<open>g\<close> when it keeps the database ready and turns the
  contents of the buckets into \<open>g\<close> of them.\<close>

type_synonym contents = "bytes \<Rightarrow> bytes \<Rightarrow> bytes option"

definition has_effect ::
  "'d bolt \<Rightarrow> ('d \<Rightarrow> bool) \<Rightarrow> ('d \<Rightarrow> bytes + 'd) \<Rightarrow> (contents \<Rightarrow> contents) \<Rightarrow> bool" where
  "has_effect B ok f g \<longleftrightarrow>
     (\<forall>d t. db_ready B ok d \<longrightarrow> f d = Inr t \<longrightarrow> db_ready B ok t \<and> bk_get B t = g (bk_get B d))"

definition never_fails :: "'d bolt \<Rightarrow> ('d \<Rightarrow> bool) \<Rightarrow> ('d \<Rightarrow> bytes + 'd) \<Rightarrow> bool" where
  "never_fails B ok f \<longleftrightarrow> (\<forall>d. db_ready B ok d \<longrightarrow> (\<exists>t. f d = Inr t))"

definition put_in :: "bytes \<Rightarrow> bytes \<Rightarrow> bytes \<Rightarrow> contents \<Rightarrow> contents" where
  "put_in b k v g = g(b := (g b)(k \<mapsto> v))"

definition del_in :: "bytes \<Rightarrow> bytes \<Rightarrow> contents \<Rightarrow> contents" where
  "del_in b k g = g(b := (g b)(k := None))"

lemma has_effect_then:
  assumes "has_effect B ok f g" "has_effect B ok f' g'"
  shows "has_effect B ok (\<lambda>t. tx_then (f t) f') (\<lambda>c. g' (g c))"
  using assms unfolding has_effect_def tx_then_Inr by metis

lemma has_effect_each:
  assumes "\<And>x. has_effect B ok (f x) (g x)"
  shows "has_effect B ok (tx_each f xs) (fold g xs)"
proof (induction xs)
  case (Cons x xs)
  have "tx_each f (x # xs) = (\<lambda>t. tx_then (f x t) (tx_each f xs))" by auto
  moreover have "fold g (x # xs) = (\<lambda>c. fold g xs (g x c))" by auto
  ultimately show ?case using has_effect_then [OF assms Cons] by simp
qed (simp add: has_effect_def)

lemma never_fails_then:
  assumes "never_fails B ok f" "has_effect B ok f g" "never_fails B ok f'"
  shows "never_fails B ok (\<lambda>t. tx_then (f t) f')"
  using assms unfolding never_fails_def has_effect_def tx_then_def by fastforce

lemma never_fails_each:
  assumes "\<And>x. x \<in> set xs \<Longrightarrow> never_fails B ok (f x)" "\<And>x. has_effect B ok (f x) (g x)"
  shows "never_fails B ok (tx_each f xs)"
  using assms(1)
proof (induction xs)
  case (Cons x xs)
  have "tx_each f (x # xs) = (\<lambda>t. tx_then (f x t) (tx_each f xs))" by auto
  then show ?case using never_fails_then [OF _ assms(2)] Cons by auto
qed (simp add: never_fails_def)

text \<open>What the loops of the reconcilers add up to.\<close>

lemma fold_del_in:
  "fold (del_in b) ks c = c(b := (\<lambda>k. if k \<in> set ks then None else c b k))"
  by (induction ks arbitrary: c) (auto simp: del_in_def fun_eq_iff)

lemma fold_del_two:
  "b \<noteq> b' \<Longrightarrow> fold (\<lambda>k c. del_in b' k (del_in b k c)) ks c =
   c(b := (\<lambda>k. if k \<in> set ks then None else c b k), b' := (\<lambda>k. if k \<in> set ks then None else c b' k))"
  by (induction ks arbitrary: c) (auto simp: del_in_def fun_eq_iff)

lemma fold_put_two:
  "b \<noteq> b' \<Longrightarrow> fold (\<lambda>k c. put_in b' k v' (put_in b k v c)) ks c =
   c(b := (\<lambda>k. if k \<in> set ks then Some v else c b k), b' := (\<lambda>k. if k \<in> set ks then Some v' else c b' k))"
  by (induction ks arbitrary: c) (auto simp: put_in_def fun_eq_iff)

lemma fold_move:
  "b \<noteq> b' \<Longrightarrow> fold (\<lambda>k c. put_in b' k v (del_in b k c)) ks c =
   c(b := (\<lambda>k. if k \<in> set ks then None else c b k), b' := (\<lambda>k. if k \<in> set ks then Some v else c b' k))"
  by (induction ks arbitrary: c) (auto simp: put_in_def del_in_def fun_eq_iff)

context bolt_db
begin

lemma put_effect [intro]: "b \<in> set bucket_list \<Longrightarrow> has_effect B ok (\<lambda>t. bk_put B t b k v) (put_in b k v)"
  by (auto simp: has_effect_def db_ready_def put_in_def dest: put_reads)

lemma delete_effect [intro]: "b \<in> set bucket_list \<Longrightarrow> has_effect B ok (\<lambda>t. bk_delete B t b k) (del_in b k)"
  by (auto simp: has_effect_def db_ready_def del_in_def dest: delete_reads)

lemma put_never_fails [intro]:
  "b \<in> set bucket_list \<Longrightarrow> storable k v \<Longrightarrow> never_fails B ok (\<lambda>t. bk_put B t b k v)"
  by (auto simp: never_fails_def db_ready_def intro: put_total)

lemma delete_never_fails [intro]:
  "b \<in> set bucket_list \<Longrightarrow> never_fails B ok (\<lambda>t. bk_delete B t b k)"
  by (auto simp: never_fails_def db_ready_def intro: delete_total)

lemma update_effect:
  assumes "has_effect B ok f g" "db_ready B ok (st_db s)" "st_update B s f = (None, s')"
  shows "db_ready B ok (st_db s') \<and> bk_get B (st_db s') = g (bk_get B (st_db s)) \<and>
    st_allowlist s' = st_allowlist s"
proof -
  obtain d where u: "db_update B (st_db s) f = (None, d)" and s': "s' = s\<lparr>st_db := d\<rparr>"
    using assms(3) by (auto simp: st_update_def split: prod.splits)
  obtain t where t: "f (st_db s) = Inr t" "bk_commit B (st_db s) t = Inr d"
    using db_update_done [OF u] by auto
  have r: "db_ready B ok t" "bk_get B t = g (bk_get B (st_db s))"
    using assms(1,2) t(1) by (auto simp: has_effect_def)
  then show ?thesis
    using commit_reads [OF _ _ t(2)] assms(2) s' by (simp add: db_ready_def)
qed

end

lemma update_failed: "st_update B s f = (Some e, s') \<Longrightarrow> s' = s"
  by (auto simp: st_update_def dest: db_update_error split: prod.splits)

lemma update_succeeds:
  assumes "never_fails B ok f" "db_ready B ok (st_db s)" "\<forall>d t. \<exists>d'. bk_commit B d t = Inr d'"
  shows "fst (st_update B s f) = None"
proof -
  obtain t where "f (st_db s) = Inr t" using assms(1,2) by (auto simp: never_fails_def)
  moreover obtain d' where "bk_commit B (st_db s) t = Inr d'" using assms(3) by blast
  ultimately show ?thesis using assms(2)
    by (simp add: st_update_def db_update_def db_ready_def tx_then_def)
qed

subsection \<open>The writing methods\<close>

text \<open>Each writing method is one transaction; \<open>op_body\<close> is its body and \<open>op_contents\<close> what the
  body does to the buckets.\<close>

definition clear_obsolete :: "(bytes \<Rightarrow> bytes \<Rightarrow> bool) \<Rightarrow> bytes list \<Rightarrow> 'd bolt \<Rightarrow> 'd \<Rightarrow> bytes \<Rightarrow> bytes list" where
  "clear_obsolete P wanted B t b =
     map fst (filter (\<lambda>(k, v). P k v \<and> k \<notin> set wanted) (bk_pairs B t b))"

definition sync_admins_body :: "'d bolt \<Rightarrow> bytes list \<Rightarrow> bytes list \<Rightarrow> 'd \<Rightarrow> bytes + 'd" where
  "sync_admins_body B wanted order t =
     tx_then
       (tx_each (\<lambda>key t. tx_then (bk_delete B t bucketAdmins key)
                                 (\<lambda>t. bk_delete B t bucketAllowed key))
          (clear_obsolete (\<lambda>_ _. True) wanted B t bucketAdmins) t)
       (tx_each (\<lambda>pubkey t. tx_then (bk_put B t bucketAdmins pubkey ''granted'')
                                    (\<lambda>t. bk_put B t bucketAllowed pubkey ''admin'')) order)"

definition sync_allowed_body :: "'d bolt \<Rightarrow> bytes list \<Rightarrow> bytes list \<Rightarrow> bytes \<Rightarrow> 'd \<Rightarrow> bytes + 'd" where
  "sync_allowed_body B wanted order reason t =
     tx_then
       (tx_each (\<lambda>key t. bk_delete B t bucketAllowed key)
          (clear_obsolete (\<lambda>_ v. v = reason) wanted B t bucketAllowed) t)
       (tx_each (\<lambda>pubkey t. tx_then (bk_delete B t bucketBanned pubkey)
                                    (\<lambda>t. bk_put B t bucketAllowed pubkey reason)) order)"

fun op_body :: "'d bolt \<Rightarrow> (bytes list \<Rightarrow> bytes list) \<Rightarrow> policy_op \<Rightarrow> 'd \<Rightarrow> bytes + 'd" where
  "op_body B ord (DoGrantAdmin pk) = (\<lambda>t. bk_put B t bucketAdmins pk ''granted'')"
| "op_body B ord (DoRevokeAdmin pk) = (\<lambda>t. bk_delete B t bucketAdmins pk)"
| "op_body B ord (DoSyncAdmins ks) = sync_admins_body B (wanted_keys ks) (ord (wanted_keys ks))"
| "op_body B ord (DoBan pk r) =
     (\<lambda>t. tx_then (bk_delete B t bucketAllowed pk) (\<lambda>t. bk_put B t bucketBanned pk r))"
| "op_body B ord (DoUnban pk) = (\<lambda>t. bk_delete B t bucketBanned pk)"
| "op_body B ord (DoAllow pk r) =
     (\<lambda>t. tx_then (bk_delete B t bucketBanned pk) (\<lambda>t. bk_put B t bucketAllowed pk r))"
| "op_body B ord (DoSyncAllowed ks r) = sync_allowed_body B (wanted_keys ks) (ord (wanted_keys ks)) r"
| "op_body B ord (DoAllowKind k) = (\<lambda>t. bk_put B t bucketKindsAllowed (itoa k) [])"
| "op_body B ord (DoDenyKind k) = (\<lambda>t. bk_put B t bucketKindsDenied (itoa k) [])"
| "op_body B ord (DoBlockIP ip r) = (\<lambda>t. bk_put B t bucketIPs ip r)"
| "op_body B ord (DoUnblockIP ip) = (\<lambda>t. bk_delete B t bucketIPs ip)"
| "op_body B ord (DoSetRelayInfo k v) =
     (if v = [] then (\<lambda>t. bk_delete B t bucketInfo k) else (\<lambda>t. bk_put B t bucketInfo k v))"

lemma run_op_update: "run_op B ord c s = st_update B s (op_body B ord c)"
  by (cases c) (simp_all add: GrantAdmin_def RevokeAdmin_def SyncAdmins_def Ban_def Unban_def Allow_def
      SyncAllowed_def AllowKind_def DenyKind_def BlockIP_def UnblockIP_def SetRelayInfo_def st_put_def
      sync_admins_body_def [abs_def] sync_allowed_body_def [abs_def] clear_obsolete_def Let_def)

fun op_contents :: "policy_op \<Rightarrow> contents \<Rightarrow> contents" where
  "op_contents (DoGrantAdmin pk) = put_in bucketAdmins pk ''granted''"
| "op_contents (DoRevokeAdmin pk) = del_in bucketAdmins pk"
| "op_contents (DoSyncAdmins ks) = (\<lambda>c.
     c(bucketAdmins := (\<lambda>k. if k \<in> wanted_set ks then Some ''granted'' else None),
       bucketAllowed := (\<lambda>k. if k \<in> wanted_set ks then Some ''admin''
                             else if c bucketAdmins k \<noteq> None then None else c bucketAllowed k)))"
| "op_contents (DoBan pk r) = (\<lambda>c. put_in bucketBanned pk r (del_in bucketAllowed pk c))"
| "op_contents (DoUnban pk) = del_in bucketBanned pk"
| "op_contents (DoAllow pk r) = (\<lambda>c. put_in bucketAllowed pk r (del_in bucketBanned pk c))"
| "op_contents (DoSyncAllowed ks r) = (\<lambda>c.
     c(bucketBanned := (\<lambda>k. if k \<in> wanted_set ks then None else c bucketBanned k),
       bucketAllowed := (\<lambda>k. if k \<in> wanted_set ks then Some r
                             else if c bucketAllowed k = Some r then None else c bucketAllowed k)))"
| "op_contents (DoAllowKind k) = put_in bucketKindsAllowed (itoa k) []"
| "op_contents (DoDenyKind k) = put_in bucketKindsDenied (itoa k) []"
| "op_contents (DoBlockIP ip r) = put_in bucketIPs ip r"
| "op_contents (DoUnblockIP ip) = del_in bucketIPs ip"
| "op_contents (DoSetRelayInfo k v) = (if v = [] then del_in bucketInfo k else put_in bucketInfo k v)"

lemma wanted_keys_set [simp]: "set (wanted_keys ks) = wanted_set ks"
  by (auto simp: wanted_keys_def wanted_set_def)

lemma op_contents_spec: "policy_in (op_contents x c) al = spec_op x (policy_in c al)"
  by (cases x) (auto simp: policy_in_def put_in_def del_in_def dest: itoa_inj simp: fun_eq_iff dom_def
      split: if_splits)

lemma op_contents_view:
  "bk_get B (st_db s') = op_contents c (bk_get B (st_db s)) \<Longrightarrow> st_allowlist s' = st_allowlist s \<Longrightarrow>
   policy_of B s' = spec_op c (policy_of B s)"
  by (simp add: policy_of_def op_contents_spec)

lemma op_contents_kinds:
  assumes "b = bucketKindsAllowed \<or> b = bucketKindsDenied" "dom (c b) \<subseteq> range itoa"
  shows "dom (op_contents x c b) \<subseteq> range itoa"
  using assms by (cases x) (auto simp: put_in_def del_in_def split: if_splits)

lemma in_buckets [simp]:
  "bucketAdmins \<in> set bucket_list" "bucketBanned \<in> set bucket_list" "bucketAllowed \<in> set bucket_list"
  "bucketKindsAllowed \<in> set bucket_list" "bucketKindsDenied \<in> set bucket_list"
  "bucketIPs \<in> set bucket_list" "bucketInfo \<in> set bucket_list"
  by (simp_all add: bucket_list_def)

subsection \<open>The store meets its contract\<close>

context bolt_db
begin

lemma obsolete_set:
  assumes "db_ready B ok t" "b \<in> set bucket_list"
  shows "set (clear_obsolete P w B t b) = {k. k \<notin> set w \<and> (\<exists>v. bk_get B t b k = Some v \<and> P k v)}"
proof -
  have "distinct (map fst (bk_pairs B t b))" "map_of (bk_pairs B t b) = bk_get B t b"
    using pairs_law [of t b] assms by (auto simp: db_ready_def)
  then have "(k, v) \<in> set (bk_pairs B t b) \<longleftrightarrow> bk_get B t b k = Some v" for k v
    by (metis map_of_eq_Some_iff)
  then show ?thesis by (auto simp: clear_obsolete_def image_iff Bex_def)
qed

lemma admins_drop_effect:
  "has_effect B ok (tx_each (\<lambda>key t. tx_then (bk_delete B t bucketAdmins key)
      (\<lambda>t. bk_delete B t bucketAllowed key)) ks)
    (fold (\<lambda>k c. del_in bucketAllowed k (del_in bucketAdmins k c)) ks)"
  by (rule has_effect_each, rule has_effect_then) auto

lemma admins_add_effect:
  "has_effect B ok (tx_each (\<lambda>pubkey t. tx_then (bk_put B t bucketAdmins pubkey ''granted'')
      (\<lambda>t. bk_put B t bucketAllowed pubkey ''admin'')) ks)
    (fold (\<lambda>k c. put_in bucketAllowed k ''admin'' (put_in bucketAdmins k ''granted'' c)) ks)"
  by (rule has_effect_each, rule has_effect_then [OF put_effect put_effect]) simp_all

lemma allowed_drop_effect:
  "has_effect B ok (tx_each (\<lambda>key t. bk_delete B t bucketAllowed key) ks) (fold (del_in bucketAllowed) ks)"
  by (rule has_effect_each) auto

lemma allowed_move_effect:
  "has_effect B ok (tx_each (\<lambda>pubkey t. tx_then (bk_delete B t bucketBanned pubkey)
      (\<lambda>t. bk_put B t bucketAllowed pubkey r)) ks)
    (fold (\<lambda>k c. put_in bucketAllowed k r (del_in bucketBanned k c)) ks)"
  by (rule has_effect_each, rule has_effect_then) auto

lemma sync_admins_effect:
  assumes "set order = set (wanted_keys ks)"
  shows "has_effect B ok (sync_admins_body B (wanted_keys ks) order) (op_contents (DoSyncAdmins ks))"
  unfolding has_effect_def
proof (intro allI impI)
  fix d t assume d: "db_ready B ok d" and s: "sync_admins_body B (wanted_keys ks) order d = Inr t"
  let ?obs = "clear_obsolete (\<lambda>_ _. True) (wanted_keys ks) B d bucketAdmins"
  from has_effect_then [OF admins_drop_effect [of ?obs] admins_add_effect [of order]] d s
  have "db_ready B ok t"
    and "bk_get B t =
      fold (\<lambda>k c. put_in bucketAllowed k ''admin'' (put_in bucketAdmins k ''granted'' c)) order
        (fold (\<lambda>k c. del_in bucketAllowed k (del_in bucketAdmins k c)) ?obs (bk_get B d))"
    by (auto simp: has_effect_def sync_admins_body_def)
  moreover have "set ?obs = {k. k \<notin> wanted_set ks \<and> bk_get B d bucketAdmins k \<noteq> None}"
    using obsolete_set [OF d] by auto
  ultimately show "db_ready B ok t \<and> bk_get B t = op_contents (DoSyncAdmins ks) (bk_get B d)"
    using assms by (simp add: fold_del_two fold_put_two) (auto simp: fun_eq_iff)
qed

lemma sync_allowed_effect:
  assumes "set order = set (wanted_keys ks)"
  shows "has_effect B ok (sync_allowed_body B (wanted_keys ks) order r) (op_contents (DoSyncAllowed ks r))"
  unfolding has_effect_def
proof (intro allI impI)
  fix d t assume d: "db_ready B ok d" and s: "sync_allowed_body B (wanted_keys ks) order r d = Inr t"
  let ?obs = "clear_obsolete (\<lambda>_ v. v = r) (wanted_keys ks) B d bucketAllowed"
  from has_effect_then [OF allowed_drop_effect [of ?obs] allowed_move_effect [of r order]] d s
  have "db_ready B ok t"
    and "bk_get B t =
      fold (\<lambda>k c. put_in bucketAllowed k r (del_in bucketBanned k c)) order
        (fold (del_in bucketAllowed) ?obs (bk_get B d))"
    by (auto simp: has_effect_def sync_allowed_body_def)
  moreover have "set ?obs = {k. k \<notin> wanted_set ks \<and> bk_get B d bucketAllowed k = Some r}"
    using obsolete_set [OF d] by auto
  ultimately show "db_ready B ok t \<and> bk_get B t = op_contents (DoSyncAllowed ks r) (bk_get B d)"
    using assms by (simp add: fold_del_in fold_move) (auto simp: fun_eq_iff)
qed

lemma op_body_effect:
  assumes "\<And>xs. set (ord xs) = set xs"
  shows "has_effect B ok (op_body B ord c) (op_contents c)"
proof (cases c)
  case (DoSyncAdmins ks) then show ?thesis using sync_admins_effect assms by simp
next
  case (DoSyncAllowed ks r) then show ?thesis using sync_allowed_effect assms by simp
next
  case (DoBan pk r) then show ?thesis by simp (rule has_effect_then; auto)
next
  case (DoAllow pk r) then show ?thesis by simp (rule has_effect_then; auto)
qed auto

end

text \<open>A store over a database that keeps its laws, and a map order that only rearranges.\<close>

locale store_impl = bolt_db B ok for B :: "'d bolt" and ok :: "'d \<Rightarrow> bool" +
  fixes ord :: "bytes list \<Rightarrow> bytes list"
  assumes ord_law: "mset (ord xs) = mset xs"
begin

lemma ord_set: "set (ord xs) = set xs"
  using ord_law by (metis set_mset_mset)

lemma op_done:
  assumes "store_open B ok s" "run_op B ord c s = (None, s')"
  shows "store_open B ok s' \<and> policy_of B s' = spec_op c (policy_of B s)"
proof -
  have u: "st_update B s (op_body B ord c) = (None, s')" using assms(2) by (simp add: run_op_update)
  have r: "db_ready B ok (st_db s)" using assms(1) by (simp add: store_open_def)
  note e = update_effect [OF op_body_effect [OF ord_set] r u]
  then have "policy_of B s' = spec_op c (policy_of B s)" using op_contents_view by blast
  moreover have "store_open B ok s'"
    using assms(1) e by (simp add: store_open_def kind_keys_def op_contents_kinds)
  ultimately show ?thesis by simp
qed

lemma op_failed: "run_op B ord c s = (Some e, s') \<Longrightarrow> s' = s"
  unfolding run_op_update by (rule update_failed)

end

sublocale store_impl \<subseteq> pc: policy_contract "store_open B ok" "policy_of B" "run_op B ord"
  by unfold_locales (use op_done op_failed in blast)+

lemma mem_store_impl: "mem_ok disk \<Longrightarrow> store_impl (mem_bolt disk) mem_ok id"
  by (simp add: store_impl_def store_impl_axioms_def mem_bolt_db)

interpretation ms: store_impl "mem_bolt empty_disk" mem_ok id
  by (rule mem_store_impl [OF empty_disk_ok])

end
