(* ===== verification/PolicyProps.thy ===== *)
theory PolicyProps
  imports PolicyRefine
begin

text \<open>
  The properties of the policy store: every method implements its abstract operation, failures
  change nothing, the reading methods read the policy, listings are sorted and complete in any
  map order, and opening establishes the invariant.
\<close>

subsection \<open>Reading\<close>

lemma open_begins: "store_open B ok s \<Longrightarrow> bk_begin B (st_db s) = None"
  by (simp add: store_open_def db_ready_def)

lemma view_open [simp]: "store_open B ok s \<Longrightarrow> db_view B (st_db s) z f = f (st_db s)"
  by (simp add: db_view_def open_begins)

lemma read_defs:
  "policy_of B s = policy_in (bk_get B (st_db s)) (st_allowlist s)"
  "AllowlistMode s = st_allowlist s"
  by (simp_all add: policy_of_def AllowlistMode_def)

lemmas reading_methods = IsAdmin_def IsBanned_def IsAllowed_def IsIPBlocked_def st_has_def
  GetRelayInfo_def st_get_def AllowlistMode_def

text \<open>Sorting the pairs of a map by key gives the same list in whatever order they come.\<close>

definition listing :: "(bytes \<rightharpoonup> bytes) \<Rightarrow> (bytes \<Rightarrow> bytes \<Rightarrow> 'a) \<Rightarrow> 'a list \<Rightarrow> bool" where
  "listing m build xs \<longleftrightarrow>
     (\<exists>ks. sorted ks \<and> distinct ks \<and> set ks = dom m \<and> xs = map (\<lambda>k. build k (the (m k))) ks)"

lemma listing_unique: "listing m build xs \<Longrightarrow> listing m build ys \<Longrightarrow> xs = ys"
  unfolding listing_def by (metis sorted_distinct_set_unique)

lemma sorted_map_listing:
  fixes ps :: "(bytes \<times> bytes) list" and key :: "'a \<Rightarrow> bytes"
  assumes "distinct (map fst ps)" "map_of ps = m" "\<And>k v. key (build k v) = k" "mset qs = mset ps"
  shows "listing m build (sort_key key (map (\<lambda>(k, v). build k v) qs))"
proof -
  let ?xs = "sort_key key (map (\<lambda>(k, v). build k v) qs)"
  have dist: "distinct (map fst qs)" "map_of qs = m"
    using assms(1,2,4) map_of_distinct_mset by (metis mset_eq_imp_distinct_iff mset_map)+
  have elem: "\<And>x. x \<in> set ?xs \<Longrightarrow> x = build (key x) (the (m (key x)))"
    using dist assms(3) by auto
  have keys: "mset (map key ?xs) = mset (map fst qs)"
    by (simp add: assms(3) case_prod_beta' multiset.map_comp comp_def)
  then have "distinct (map key ?xs)" "set (map key ?xs) = dom m"
    using dist mset_eq_imp_distinct_iff mset_eq_setD dom_map_of_conv_image_fst
    by (metis, metis dist(2) dom_map_of_conv_image_fst list.set_map mset_eq_setD)
  moreover have "?xs = map (\<lambda>k. build k (the (m k))) (map key ?xs)"
    using elem by (simp add: map_idI [symmetric] del: set_sort)
  ultimately show ?thesis unfolding listing_def by (metis sorted_sort_key)
qed

lemma filter_map_inverse:
  assumes "distinct ks" "\<And>k. k \<in> set ks \<Longrightarrow> P (f k) \<Longrightarrow> k = g (f k)"
  shows "distinct (filter P (map f ks))"
    and "set (filter P (map f ks)) = {n. P n \<and> g n \<in> set ks \<and> f (g n) = n}"
proof -
  show "distinct (filter P (map f ks))"
    using assms by (induction ks) (auto, metis)
  show "set (filter P (map f ks)) = {n. P n \<and> g n \<in> set ks \<and> f (g n) = n}"
  proof (rule set_eqI)
    fix n
    have "n \<in> set (filter P (map f ks)) \<longleftrightarrow> P n \<and> (\<exists>k \<in> set ks. n = f k)" by auto
    also have "\<dots> \<longleftrightarrow> P n \<and> g n \<in> set ks \<and> f (g n) = n" using assms(2) by metis
    finally show "n \<in> set (filter P (map f ks)) \<longleftrightarrow> n \<in> {n. P n \<and> g n \<in> set ks \<and> f (g n) = n}"
      by simp
  qed
qed

context bolt_db
begin

lemma pairs_open:
  assumes "store_open B ok s" "b \<in> set bucket_list"
  shows "distinct (map fst (bk_pairs B (st_db s) b))"
    and "map_of (bk_pairs B (st_db s) b) = bk_get B (st_db s) b"
  using pairs_law [of "st_db s" b] assms by (auto simp: store_open_def db_ready_def)

lemma kind_decided:
  assumes "store_open B ok s"
  shows "KindAllowed B s k = spec_kind_allowed (policy_of B s) k"
proof -
  let ?g = "bk_get B (st_db s) bucketKindsAllowed"
  have "listKV B s bucketKindsAllowed = [] \<longleftrightarrow> ?g = Map.empty"
    using pairs_open [OF assms, of bucketKindsAllowed] assms
    by (auto simp: listKV_def)
  also have "\<dots> \<longleftrightarrow> {n. ?g (itoa n) \<noteq> None} = {}"
    using assms by (fastforce simp: store_open_def kind_keys_def fun_eq_iff dom_def)
  finally show ?thesis using assms
    by (auto simp: KindAllowed_def spec_kind_allowed_def policy_of_def policy_in_def st_has_def Let_def)
qed

lemma listed:
  assumes "store_open B ok s" "b \<in> set bucket_list" "mset (order (listKV B s b)) = mset (listKV B s b)"
    and "\<And>k v. key (build k v) = k"
  shows "listing (bk_get B (st_db s) b) build (listSorted B order s b build key)"
  unfolding listSorted_def
  using sorted_map_listing [of "bk_pairs B (st_db s) b" _ key build, OF pairs_open [OF assms(1,2)] assms(4)]
    assms(1,3) by (simp add: listKV_def)

lemma listed_ints:
  assumes s: "store_open B ok s" and b: "b \<in> {bucketKindsAllowed, bucketKindsDenied}"
    and o: "mset (order (listKV B s b)) = mset (listKV B s b)"
  shows "listInts B order s b = sorted_list_of_set {n. 0 \<le> n \<and> int64_ok n \<and> bk_get B (st_db s) b (itoa n) \<noteq> None}"
proof -
  let ?ks = "map fst (order (listKV B s b))"
  have bs: "b \<in> set bucket_list" using b by auto
  have "mset ?ks = mset (map fst (listKV B s b))" using o by simp
  then have ks: "distinct ?ks" "set ?ks = dom (bk_get B (st_db s) b)"
    using pairs_open [OF s bs] s
    by (metis listKV_def mset_eq_imp_distinct_iff view_open,
        metis dom_map_of_conv_image_fst list.set_map listKV_def mset_eq_setD
          pairs_open(2) s bs view_open)
  have "set ?ks \<subseteq> range itoa"
    using s b ks(2) by (auto simp: store_open_def kind_keys_def)
  moreover have at: "policy_atoi (itoa n) = (if int64_ok n then n else -1)" for n
    by (simp add: policy_atoi_def parse_int_itoa_any)
  ultimately have inv: "\<And>k. k \<in> set ?ks \<Longrightarrow> 0 \<le> policy_atoi k \<Longrightarrow>
      k = itoa (policy_atoi k) \<and> int64_ok (policy_atoi k)"
    by (auto split: if_splits)
  have "policy_atoi n' = n \<and> 0 \<le> n \<longleftrightarrow> 0 \<le> n \<and> int64_ok n" if "n' = itoa n" for n n'
    using that by (auto simp: at)
  then have "{n. 0 \<le> n \<and> itoa n \<in> set ?ks \<and> policy_atoi (itoa n) = n} =
      {n. 0 \<le> n \<and> int64_ok n \<and> bk_get B (st_db s) b (itoa n) \<noteq> None}"
    unfolding ks(2) by (auto simp: dom_def)
  then have "set (filter (\<lambda>n. 0 \<le> n) (map policy_atoi ?ks)) =
      {n. 0 \<le> n \<and> int64_ok n \<and> bk_get B (st_db s) b (itoa n) \<noteq> None}"
    using filter_map_inverse(2) [OF ks(1), of "\<lambda>n. 0 \<le> n" policy_atoi itoa] inv by simp
  moreover have "distinct (filter (\<lambda>n. 0 \<le> n) (map policy_atoi ?ks))"
    using filter_map_inverse(1) [OF ks(1), of "\<lambda>n. 0 \<le> n" policy_atoi itoa] inv by blast
  then have "sort (filter (\<lambda>n. 0 \<le> n) (map policy_atoi ?ks)) =
      sorted_list_of_set (set (filter (\<lambda>n. 0 \<le> n) (map policy_atoi ?ks)))"
    by (simp only: sorted_list_of_set_sort_remdups distinct_remdups_id)
  moreover have "listInts B order s b = sort (filter (\<lambda>n. 0 \<le> n) (map policy_atoi ?ks))"
    by (simp add: listInts_def case_prod_beta' comp_def)
  ultimately show ?thesis by (simp only:)
qed

end

lemma store_policy:
  assumes "bolt_db B ok" "store_open B ok s"
  shows "IsAdmin B s k \<longleftrightarrow> k \<in> p_admins (policy_of B s)"
    and "IsBanned B s k \<longleftrightarrow> p_banned (policy_of B s) k \<noteq> None"
    and "IsAllowed B s k \<longleftrightarrow> p_allowed (policy_of B s) k \<noteq> None"
    and "IsIPBlocked B s k \<longleftrightarrow> p_ips (policy_of B s) k \<noteq> None"
    and "KindAllowed B s n = spec_kind_allowed (policy_of B s) n"
    and "GetRelayInfo B s k = (case p_info (policy_of B s) k of None \<Rightarrow> [] | Some v \<Rightarrow> v)"
    and "AllowlistMode s = p_allowlist (policy_of B s)"
  using bolt_db.kind_decided [OF assms] assms(2)
  by (auto simp: reading_methods policy_of_def policy_in_def)

lemma store_contract:
  "store_impl B ok ord \<Longrightarrow> policy_contract (store_open B ok) (policy_of B) (run_op B ord)"
  by unfold_locales (use store_impl.op_done store_impl.op_failed in blast)+

lemma update_allowlist: "st_allowlist (snd (st_update B s f)) = st_allowlist s"
  by (simp add: st_update_def case_prod_beta' Let_def)

lemma op_allowlist: "st_allowlist (snd (run_op B ord c s)) = st_allowlist s"
  by (simp add: run_op_update update_allowlist)

lemma ops_allowlist: "st_allowlist (snd (run_ops (run_op B ord) cs s)) = st_allowlist s"
proof (induction cs arbitrary: s)
  case (Cons c cs)
  then show ?case using op_allowlist [of B ord c s] by (simp add: case_prod_beta' Let_def)
qed simp

subsection \<open>Succeeding\<close>

text \<open>The entries an operation writes; \<open>Put\<close> accepts them when they are \<open>storable\<close>.\<close>

fun op_entries :: "policy_op \<Rightarrow> (bytes \<times> bytes) set" where
  "op_entries (DoGrantAdmin pk) = {(pk, ''granted'')}"
| "op_entries (DoSyncAdmins ks) = wanted_set ks \<times> {''granted'', ''admin''}"
| "op_entries (DoBan pk r) = {(pk, r)}"
| "op_entries (DoAllow pk r) = {(pk, r)}"
| "op_entries (DoSyncAllowed ks r) = wanted_set ks \<times> {r}"
| "op_entries (DoAllowKind k) = {(itoa k, [])}"
| "op_entries (DoDenyKind k) = {(itoa k, [])}"
| "op_entries (DoBlockIP ip r) = {(ip, r)}"
| "op_entries (DoSetRelayInfo k v) = (if v = [] then {} else {(k, v)})"
| "op_entries _ = {}"

definition op_storable :: "policy_op \<Rightarrow> bool" where
  "op_storable c \<longleftrightarrow> (\<forall>(k, v) \<in> op_entries c. storable k v)"

definition commits :: "'d bolt \<Rightarrow> bool" where
  "commits B \<longleftrightarrow> (\<forall>d t. \<exists>d'. bk_commit B d t = Inr d')"

lemma never_fails_at:
  "(\<And>d. db_ready B ok d \<Longrightarrow> \<exists>t. f d = Inr t) \<Longrightarrow> never_fails B ok f"
  by (simp add: never_fails_def)

lemma then_succeeds:
  assumes "never_fails B ok f" "has_effect B ok f g" "never_fails B ok f'" "db_ready B ok d"
  shows "\<exists>t. tx_then (f d) f' = Inr t"
  using never_fails_then [OF assms(1-3)] assms(4) by (simp add: never_fails_def)

context store_impl
begin

lemma pair_never_fails:
  "never_fails B ok f \<Longrightarrow> has_effect B ok f g \<Longrightarrow> never_fails B ok f' \<Longrightarrow>
   never_fails B ok (\<lambda>t. tx_then (f t) f')"
  by (rule never_fails_then)

lemma admin_add_effect:
  "has_effect B ok (\<lambda>t. tx_then (bk_put B t bucketAdmins k v) (\<lambda>t. bk_put B t bucketAllowed k v'))
     (\<lambda>c. put_in bucketAllowed k v' (put_in bucketAdmins k v c))"
  by (rule has_effect_then [OF put_effect put_effect]) simp_all

lemma admin_add_total:
  assumes "storable k v" "storable k v'"
  shows "never_fails B ok (\<lambda>t. tx_then (bk_put B t bucketAdmins k v) (\<lambda>t. bk_put B t bucketAllowed k v'))"
  by (rule never_fails_then [OF put_never_fails put_effect put_never_fails]) (simp_all add: assms)

lemma sync_admins_succeeds:
  assumes "\<forall>k \<in> set order. storable k ''granted'' \<and> storable k ''admin''"
  shows "never_fails B ok (sync_admins_body B w order)"
proof (rule never_fails_at)
  fix d assume d: "db_ready B ok d"
  let ?obs = "clear_obsolete (\<lambda>_ _. True) w B d bucketAdmins"
  have drop: "never_fails B ok (tx_each (\<lambda>key t. tx_then (bk_delete B t bucketAdmins key)
      (\<lambda>t. bk_delete B t bucketAllowed key)) ?obs)"
    by (rule never_fails_each [where g = "\<lambda>k c. del_in bucketAllowed k (del_in bucketAdmins k c)"];
        rule pair_never_fails has_effect_then; (rule delete_never_fails delete_effect in_buckets)+)
  have add: "never_fails B ok (tx_each (\<lambda>pubkey t. tx_then (bk_put B t bucketAdmins pubkey ''granted'')
      (\<lambda>t. bk_put B t bucketAllowed pubkey ''admin'')) order)"
    by (rule never_fails_each [OF admin_add_total admin_add_effect]) (use assms in simp_all)
  show "\<exists>t. sync_admins_body B w order d = Inr t"
    unfolding sync_admins_body_def by (rule then_succeeds [OF drop admins_drop_effect add d])
qed

lemma sync_allowed_succeeds:
  assumes "\<forall>k \<in> set order. storable k r"
  shows "never_fails B ok (sync_allowed_body B w order r)"
proof (rule never_fails_at)
  fix d assume d: "db_ready B ok d"
  let ?obs = "clear_obsolete (\<lambda>_ v. v = r) w B d bucketAllowed"
  have drop: "never_fails B ok (tx_each (\<lambda>key t. bk_delete B t bucketAllowed key) ?obs)"
    by (rule never_fails_each) auto
  have add: "never_fails B ok (tx_each (\<lambda>pubkey t. tx_then (bk_delete B t bucketBanned pubkey)
      (\<lambda>t. bk_put B t bucketAllowed pubkey r)) order)"
    by (rule never_fails_each [where g = "\<lambda>k c. put_in bucketAllowed k r (del_in bucketBanned k c)"];
        rule pair_never_fails has_effect_then; use assms in auto)
  show "\<exists>t. sync_allowed_body B w order r d = Inr t"
    unfolding sync_allowed_body_def by (rule then_succeeds [OF drop allowed_drop_effect add d])
qed

lemma op_never_fails: "op_storable c \<Longrightarrow> never_fails B ok (op_body B ord c)"
proof (cases c)
  case (DoSyncAdmins ks)
  then show "op_storable c \<Longrightarrow> ?thesis" by (auto simp: op_storable_def ord_set intro: sync_admins_succeeds)
next
  case (DoSyncAllowed ks r)
  then show "op_storable c \<Longrightarrow> ?thesis" by (auto simp: op_storable_def ord_set intro: sync_allowed_succeeds)
next
  case (DoBan pk r)
  then show "op_storable c \<Longrightarrow> ?thesis" by (simp add: op_storable_def) (rule pair_never_fails; auto)
next
  case (DoAllow pk r)
  then show "op_storable c \<Longrightarrow> ?thesis" by (simp add: op_storable_def) (rule pair_never_fails; auto)
qed (auto simp: op_storable_def)

lemma op_succeeds:
  assumes "commits B" "store_open B ok s" "op_storable c"
  shows "fst (run_op B ord c s) = None"
  unfolding run_op_update using assms
  by (auto simp: commits_def store_open_def intro!: update_succeeds [OF op_never_fails])

lemma ops_succeed:
  "commits B \<Longrightarrow> store_open B ok s \<Longrightarrow> \<forall>c \<in> set cs. op_storable c \<Longrightarrow>
   succeeded cs (fst (run_ops (run_op B ord) cs s)) = cs"
proof (induction cs arbitrary: s)
  case (Cons c cs)
  obtain e s1 where r: "run_op B ord c s = (e, s1)" by fastforce
  then have "e = None" using op_succeeds Cons.prems by (metis fst_conv list.set_intros(1))
  moreover have "store_open B ok s1" using pc.run_inv [OF Cons.prems(2) r] .
  ultimately show ?case using Cons.IH [of s1] Cons.prems r
    by (simp add: succeeded_def case_prod_beta' Let_def)
qed (simp add: succeeded_def)

end

subsection \<open>Opening\<close>

definition seed_ops :: "bytes list \<Rightarrow> int list \<Rightarrow> policy_op list" where
  "seed_ops admins kinds =
     concat (map (\<lambda>pk. if pk = [] then [] else [DoGrantAdmin pk, DoAllow pk ''admin'']) admins)
       @ map DoAllowKind kinds"

lemma run_ops_append:
  "snd (run_ops run (cs @ ds) s) = snd (run_ops run ds (snd (run_ops run cs s)))"
  by (induction cs arbitrary: s) (auto simp: case_prod_beta' Let_def)

lemma seeds_as_ops:
  "fold (\<lambda>k s. snd (AllowKind B k s)) kinds (fold (seed_admin B) admins s) =
   snd (run_ops (run_op B ord) (seed_ops admins kinds) s)"
proof -
  have "fold (\<lambda>k s. snd (AllowKind B k s)) kinds s = snd (run_ops (run_op B ord) (map DoAllowKind kinds) s)"
    for s
    by (induction kinds arbitrary: s) (auto simp: case_prod_beta' Let_def)
  moreover have "fold (seed_admin B) admins s = snd (run_ops (run_op B ord)
      (concat (map (\<lambda>pk. if pk = [] then [] else [DoGrantAdmin pk, DoAllow pk ''admin'']) admins)) s)"
    for s
  proof (induction admins arbitrary: s)
    case (Cons a as)
    then show ?case by (cases "a = []") (simp_all add: seed_admin_def case_prod_beta' Let_def run_ops_append)
  qed simp
  ultimately show ?thesis by (simp add: seed_ops_def run_ops_append)
qed

lemma open_allowlist:
  assumes "Open B path admins kinds al = Inr s"
  shows "AllowlistMode s = al"
proof -
  obtain d where "bk_open B path = Inr d" using assms by (auto simp: Open_def split: sum.splits)
  then obtain s0 where "st_update B \<lparr>st_db = d, st_allowlist = al\<rparr> (tx_each (\<lambda>b t. bk_create B t b) bucket_list) = (None, s0)"
    and s: "s = snd (run_ops (run_op B id) (seed_ops admins kinds) s0)"
    using assms by (auto simp: Open_def seeds_as_ops [where ord = id] split: prod.splits option.splits)
  then have "st_allowlist s0 = al" using update_allowlist by (metis snd_conv store.select_convs(2))
  then show ?thesis by (simp add: s AllowlistMode_def ops_allowlist)
qed

text \<open>What an existing file contributes: a bucket that is missing there is created empty.\<close>

definition opened :: "'d bolt \<Rightarrow> 'd \<Rightarrow> contents" where
  "opened B d = (\<lambda>b. if bk_bucket B d b then bk_get B d b else Map.empty)"

lemma spec_seeds:
  "fold spec_op (seed_ops admins kinds) p =
   p\<lparr>p_admins := p_admins p \<union> wanted_set admins,
     p_banned := (\<lambda>k. if k \<in> wanted_set admins then None else p_banned p k),
     p_allowed := (\<lambda>k. if k \<in> wanted_set admins then Some ''admin'' else p_allowed p k),
     p_kinds_allowed := p_kinds_allowed p \<union> set kinds\<rparr>"
proof -
  have k: "fold spec_op (map DoAllowKind kinds) p = p\<lparr>p_kinds_allowed := p_kinds_allowed p \<union> set kinds\<rparr>" for p
    by (induction kinds arbitrary: p) auto
  have a: "fold spec_op (concat (map (\<lambda>pk. if pk = [] then [] else [DoGrantAdmin pk, DoAllow pk ''admin'']) admins)) p =
     p\<lparr>p_admins := p_admins p \<union> wanted_set admins,
       p_banned := (\<lambda>k. if k \<in> wanted_set admins then None else p_banned p k),
       p_allowed := (\<lambda>k. if k \<in> wanted_set admins then Some ''admin'' else p_allowed p k)\<rparr>" for p
  proof (induction admins arbitrary: p)
    case (Cons a as)
    then show ?case
      by (cases "a = []") (auto simp: wanted_set_def fun_eq_iff intro!: policy.equality)
  qed (simp add: wanted_set_def)
  show ?thesis by (simp add: seed_ops_def k a)
qed

context bolt_db
begin

lemma create_all:
  assumes "ok d" "bk_begin B d = None" "tx_each (\<lambda>b t. bk_create B t b) bs d = Inr t"
  shows "ok t \<and> bk_begin B t = None \<and> (\<forall>b. bk_bucket B t b \<longleftrightarrow> b \<in> set bs \<or> bk_bucket B d b) \<and>
    (\<forall>b \<in> set bs. bk_get B t b = opened B d b) \<and> (\<forall>b. bk_bucket B d b \<longrightarrow> bk_get B t b = bk_get B d b)"
  using assms
proof (induction bs arbitrary: d)
  case (Cons b bs)
  then obtain u where u: "bk_create B d b = Inr u" "tx_each (\<lambda>b t. bk_create B t b) bs u = Inr t"
    by (auto simp: tx_then_Inr)
  note c = create_law [OF Cons.prems(1) u(1)]
  note ih = Cons.IH [of u, OF _ _ u(2)]
  have "bk_bucket B u b" "\<And>a. opened B u a = (if a = b then bk_get B u b else opened B d a)"
    "bk_get B u b = opened B d b"
    using c by (auto simp: opened_def fun_eq_iff)
  then show ?case using c ih Cons.prems(2) by (auto split: if_splits)
qed (auto simp: opened_def)

end

context store_impl
begin

lemma open_reads:
  assumes d: "bk_open B path = Inr d"
    and k: "dom (opened B d bucketKindsAllowed) \<subseteq> range itoa" "dom (opened B d bucketKindsDenied) \<subseteq> range itoa"
    and o: "Open B path admins kinds al = Inr s"
  obtains s0 where "store_open B ok s0" "policy_of B s0 = policy_in (opened B d) al"
    "st_allowlist s0 = al" "s = snd (run_ops (run_op B ord) (seed_ops admins kinds) s0)"
proof -
  let ?s = "\<lparr>st_db = d, st_allowlist = al\<rparr>"
  obtain s0 where u: "st_update B ?s (tx_each (\<lambda>b t. bk_create B t b) bucket_list) = (None, s0)"
    and s: "s = snd (run_ops (run_op B ord) (seed_ops admins kinds) s0)"
    using o d by (auto simp: Open_def seeds_as_ops [where ord = ord] split: prod.splits option.splits)
  obtain d' where du: "db_update B d (tx_each (\<lambda>b t. bk_create B t b) bucket_list) = (None, d')"
    and s0: "s0 = \<lparr>st_db = d', st_allowlist = al\<rparr>"
    using u by (auto simp: st_update_def split: prod.splits)
  obtain t where t: "tx_each (\<lambda>b t. bk_create B t b) bucket_list d = Inr t" "bk_commit B d t = Inr d'"
    using db_update_done [OF du] by auto
  note od = open_law [OF d]
  have c: "ok t" "bk_begin B t = None" "\<forall>b \<in> set bucket_list. bk_bucket B t b"
    "\<forall>b \<in> set bucket_list. bk_get B t b = opened B d b"
    using create_all [OF _ _ t(1)] od by auto
  note m = commit_reads [OF _ c(1) t(2)]
  have g: "\<forall>b \<in> set bucket_list. bk_get B d' b = opened B d b" using m(4) od c(4) by simp
  have "store_open B ok s0"
    using m od c k g by (simp add: s0 store_open_def db_ready_def kind_keys_def)
  moreover have "policy_of B s0 = policy_in (opened B d) al"
    using g by (simp add: s0 policy_of_def policy_in_def)
  ultimately show ?thesis using that s s0 by simp
qed

end

section \<open>Properties\<close>

subsection \<open>A store for the witnesses\<close>

definition mem_store :: "mem store" where
  "mem_store =
     (case Open (mem_bolt empty_disk) ''policy.db'' [''op''] [1] True of
        Inr s \<Rightarrow> s | Inl _ \<Rightarrow> \<lparr>st_db = empty_disk, st_allowlist = True\<rparr>)"

abbreviation memdb :: "mem bolt" where "memdb \<equiv> mem_bolt empty_disk"

lemma mem_impl: "store_impl memdb mem_ok id"
  by (rule mem_store_impl [OF empty_disk_ok])

lemma mem_open_disk: "bk_open memdb ''policy.db'' = Inr empty_disk"
  by (simp add: mem_bolt_def empty_disk_def)

lemma mem_opened: "opened memdb empty_disk = (\<lambda>b. Map.empty)"
  by (auto simp: opened_def mem_bolt_def empty_disk_def mem_bucket_def fun_eq_iff)

lemma mem_store_Open: "Open memdb ''policy.db'' [''op''] [1] True = Inr mem_store"
proof -
  have "\<not> isl (Open memdb ''policy.db'' [''op''] [1] True)" by code_simp
  then show ?thesis by (cases "Open memdb ''policy.db'' [''op''] [1] True") (simp_all add: mem_store_def)
qed

lemma mem_store_open: "store_open memdb mem_ok mem_store"
proof -
  obtain s0 where "store_open memdb mem_ok s0"
    "mem_store = snd (run_ops (run_op memdb id) (seed_ops [''op''] [1]) s0)"
    by (rule ms.open_reads [OF mem_open_disk _ _ mem_store_Open]) (simp_all add: mem_opened)
  then show ?thesis using ms.pc.run_ops_refines by (metis prod.collapse)
qed

lemma mem_commits: "commits memdb"
  by (simp add: commits_def mem_bolt_def)

subsection \<open>The contract\<close>

text \<open>C1: Every writing method of the store, the two reconcilers included, implements its abstract
  operation: when it reports success the policy read out of the database is what \<open>spec_op\<close> makes of
  the policy before, when it reports an error the store is unchanged, and the invariant that all
  buckets exist and the kind buckets hold formatted integers is kept either way, in whatever order
  Go visits the wanted keys.\<close>

theorem store_op_refines:
  assumes "store_impl B ok ord" and "store_open B ok s" and "run_op B ord c s = (e, s')"
  shows "store_open B ok s' \<and> (if e = None then policy_of B s' = spec_op c (policy_of B s) else s' = s)"
proof -
  show ?thesis
  proof (cases e)
    case None then show ?thesis using store_impl.op_done [OF assms(1,2)] assms(3) by simp
  next
    case (Some x)
    then have "s' = s" using store_impl.op_failed [OF assms(1)] assms(3) by blast
    then show ?thesis using Some assms(2) by simp
  qed
qed

lemma store_op_refines_witness:
  "store_open memdb mem_ok (snd (run_op memdb id (DoBan ''op'' ''spam'') mem_store)) \<and>
   policy_of memdb (snd (run_op memdb id (DoBan ''op'' ''spam'') mem_store)) =
     spec_op (DoBan ''op'' ''spam'') (policy_of memdb mem_store)"
proof -
  obtain e s' where r: "run_op memdb id (DoBan ''op'' ''spam'') mem_store = (e, s')" by fastforce
  have "fst (run_op memdb id (DoBan ''op'' ''spam'') mem_store) = None" by code_simp
  then show ?thesis using store_op_refines [OF mem_impl mem_store_open r] r by simp
qed

text \<open>A writing method whose entries bolt accepts as keys and values succeeds whenever commits
  do: no method fails for a reason of its own.\<close>

theorem store_op_succeeds:
  assumes "store_impl B ok ord" and "store_open B ok s" and "commits B" and "op_storable c"
  shows "fst (run_op B ord c s) = None"
  using store_impl.op_succeeds [OF assms(1,3,2,4)] .

lemma store_op_succeeds_witness:
  "fst (run_op memdb id (DoSyncAdmins [''op'', '''', ''root'']) mem_store) = None"
  by (rule store_op_succeeds [OF mem_impl mem_store_open mem_commits])
    (auto simp: op_storable_def wanted_set_def storable_def)

text \<open>The reading methods read the policy: membership tests, the kind decision (denied kinds
  never, otherwise every kind if no kind is listed as allowed), and a relay field that was never set
  reads as the empty string.\<close>

theorem store_reads:
  assumes "store_impl B ok ord" and "store_open B ok s"
  shows "(IsAdmin B s k \<longleftrightarrow> k \<in> p_admins (policy_of B s)) \<and>
    (IsBanned B s k \<longleftrightarrow> k \<in> dom (p_banned (policy_of B s))) \<and>
    (IsAllowed B s k \<longleftrightarrow> k \<in> dom (p_allowed (policy_of B s))) \<and>
    (IsIPBlocked B s k \<longleftrightarrow> k \<in> dom (p_ips (policy_of B s))) \<and>
    KindAllowed B s n = spec_kind_allowed (policy_of B s) n \<and>
    GetRelayInfo B s k = (case p_info (policy_of B s) k of None \<Rightarrow> [] | Some v \<Rightarrow> v)"
proof -
  have "bolt_db B ok" using assms(1) by (simp add: store_impl_def)
  note store_policy [OF this assms(2)]
  then show ?thesis by auto
qed

lemma store_reads_witness:
  "IsAdmin memdb mem_store ''op'' \<longleftrightarrow> ''op'' \<in> p_admins (policy_of memdb mem_store)"
  using store_reads [OF mem_impl mem_store_open] by blast

text \<open>C8: After a successful \<open>SyncAdmins\<close> the administrators are exactly the configured non-empty
  keys, each of them has an allow entry, every key that lost the role lost its allow entry with it,
  and no ban, kind list or address block moved.\<close>

theorem sync_admins_exact:
  assumes "store_impl B ok ord" and "store_open B ok s" and "SyncAdmins B ord ks s = (None, s')"
  shows "(IsAdmin B s' k \<longleftrightarrow> k \<in> set ks \<and> k \<noteq> []) \<and>
    (IsAdmin B s' k \<longrightarrow> IsAllowed B s' k) \<and>
    (IsAdmin B s k \<and> \<not> IsAdmin B s' k \<longrightarrow> \<not> IsAllowed B s' k) \<and>
    (\<not> IsAdmin B s k \<and> \<not> IsAdmin B s' k \<longrightarrow> IsAllowed B s' k = IsAllowed B s k) \<and>
    IsBanned B s' k = IsBanned B s k \<and> IsIPBlocked B s' k = IsIPBlocked B s k \<and>
    KindAllowed B s' n = KindAllowed B s n"
proof -
  have r: "store_open B ok s'" "policy_of B s' = spec_op (DoSyncAdmins ks) (policy_of B s)"
    using store_impl.op_done [OF assms(1,2), of "DoSyncAdmins ks" s'] assms(3) by simp_all
  have "bolt_db B ok" using assms(1) by (simp add: store_impl_def)
  note p = store_policy [OF this assms(2)] store_policy [OF this r(1)]
  show ?thesis by (auto simp: p r(2) wanted_set_def spec_kind_allowed_def split: if_splits)
qed

lemma sync_admins_exact_witness:
  "\<forall>k. IsAdmin memdb (snd (SyncAdmins memdb id [''new'', ''''] mem_store)) k \<longleftrightarrow> k = ''new''"
proof
  fix k
  have "fst (SyncAdmins memdb id [''new'', ''''] mem_store) = None" by code_simp
  then have "SyncAdmins memdb id [''new'', ''''] mem_store =
      (None, snd (SyncAdmins memdb id [''new'', ''''] mem_store))" by (metis prod.collapse)
  from sync_admins_exact [OF mem_impl mem_store_open this, of k]
  show "IsAdmin memdb (snd (SyncAdmins memdb id [''new'', ''''] mem_store)) k \<longleftrightarrow> k = ''new''" by auto
qed

text \<open>C29: A successful \<open>SyncAllowed\<close> leaves under its reason exactly the configured non-empty keys,
  lifts their bans, and keeps the allow entries with any other reason and all other bans. A wanted
  key that was allowed for another reason is taken over.\<close>

theorem sync_allowed_exact:
  assumes "store_impl B ok ord" and "store_open B ok s"
    and "SyncAllowed B ord ks r s = (None, s')"
  shows "{k. p_allowed (policy_of B s') k = Some r} = set ks - {[]} \<and>
    (k \<in> set ks - {[]} \<longrightarrow> IsAllowed B s' k \<and> \<not> IsBanned B s' k) \<and>
    (k \<notin> set ks - {[]} \<longrightarrow> IsBanned B s' k = IsBanned B s k) \<and>
    (k \<notin> set ks - {[]} \<longrightarrow> q \<noteq> r \<longrightarrow>
      (p_allowed (policy_of B s') k = Some q \<longleftrightarrow> p_allowed (policy_of B s) k = Some q)) \<and>
    IsAdmin B s' k = IsAdmin B s k"
proof -
  have e: "store_open B ok s'" "policy_of B s' = spec_op (DoSyncAllowed ks r) (policy_of B s)"
    using store_impl.op_done [OF assms(1,2), of "DoSyncAllowed ks r" s'] assms(3) by simp_all
  have "bolt_db B ok" using assms(1) by (simp add: store_impl_def)
  note p = store_policy [OF this assms(2)] store_policy [OF this e(1)]
  show ?thesis by (auto simp: p e(2) wanted_set_def split: if_splits)
qed

lemma sync_allowed_exact_witness:
  "{k. p_allowed (policy_of memdb (snd (SyncAllowed memdb id [''agent''] ''agent'' mem_store))) k =
     Some ''agent''} = {''agent''}"
proof -
  have "fst (SyncAllowed memdb id [''agent''] ''agent'' mem_store) = None" by code_simp
  then have "SyncAllowed memdb id [''agent''] ''agent'' mem_store =
      (None, snd (SyncAllowed memdb id [''agent''] ''agent'' mem_store))" by (metis prod.collapse)
  from sync_allowed_exact [OF mem_impl mem_store_open this] show ?thesis by auto
qed

text \<open>C22: Along any sequence of store operations, failing ones included, that does not contain
  \<open>SyncAdmins\<close>, no key becomes banned and allowed at once; operations other than granting, revoking
  and synchronising administrators never change who is one.\<close>

theorem store_runs_safe:
  assumes "store_impl B ok ord" and "store_open B ok s" and "run_ops (run_op B ord) cs s = (es, s')"
  shows "store_open B ok s' \<and>
    ((\<forall>c \<in> set cs. lifts_bans c) \<and> (\<forall>k. \<not> (IsBanned B s k \<and> IsAllowed B s k)) \<longrightarrow>
      \<not> (IsBanned B s' k \<and> IsAllowed B s' k)) \<and>
    ((\<forall>c \<in> set cs. \<not> touches_admins c) \<longrightarrow> IsAdmin B s' k = IsAdmin B s k)"
proof -
  have c: "policy_contract (store_open B ok) (policy_of B) (run_op B ord)"
    by (rule store_contract [OF assms(1)])
  have o: "store_open B ok s'" using policy_contract.run_ops_refines [OF c assms(2,3)] by simp
  have "bolt_db B ok" using assms(1) by (simp add: store_impl_def)
  note p = store_policy [OF this assms(2)] store_policy [OF this o]
  show ?thesis
    using o policy_contract.run_ops_exclusive [OF c assms(2,3)]
      policy_contract.run_ops_admins [OF c assms(2,3)]
    by (simp add: p exclusive_iff)
qed

lemma store_runs_safe_witness:
  "\<not> (IsBanned memdb (snd (run_ops (run_op memdb id) [DoBan ''a'' ''spam'', DoAllow ''a'' ''ok''] mem_store)) ''a''
     \<and> IsAllowed memdb (snd (run_ops (run_op memdb id) [DoBan ''a'' ''spam'', DoAllow ''a'' ''ok''] mem_store)) ''a'')"
  (is "\<not> (IsBanned memdb (snd ?r) _ \<and> _)")
proof -
  have "\<forall>k. \<not> (IsBanned memdb mem_store k \<and> IsAllowed memdb mem_store k)"
  proof -
    have "listKV memdb mem_store bucketBanned = []" by code_simp
    then have "bk_get memdb (st_db mem_store) bucketBanned = Map.empty"
      using mb.pairs_open [OF mem_store_open, of bucketBanned] mem_store_open by (simp add: listKV_def)
    then show ?thesis using mem_store_open by (simp add: IsBanned_def)
  qed
  moreover have "\<forall>c \<in> set [DoBan ''a'' ''spam'', DoAllow ''a'' ''ok'']. lifts_bans c"
    by (simp add: lifts_bans_def)
  ultimately show ?thesis
    using store_runs_safe [OF mem_impl mem_store_open prod.collapse [symmetric]] by blast
qed

text \<open>The listings of bans, allow entries and blocked addresses are complete, free of
  repetitions and sorted by key, each with the stored reason, and do not depend on the order in
  which Go ranges over the map; the kind lists hold exactly the non-negative 64-bit kinds of their
  bucket in ascending order.\<close>

theorem store_listings:
  assumes "bolt_db B ok" and "store_open B ok s" and "\<And>xs. mset (order xs) = mset xs"
  shows "listing (p_banned (policy_of B s)) (\<lambda>k r. \<lparr>pr_pubkey = k, pr_reason = r\<rparr>) (ListBanned B order s) \<and>
    listing (p_allowed (policy_of B s)) (\<lambda>k r. \<lparr>pr_pubkey = k, pr_reason = r\<rparr>) (ListAllowed B order s) \<and>
    listing (p_ips (policy_of B s)) (\<lambda>k r. \<lparr>ir_ip = k, ir_reason = r\<rparr>) (ListBlockedIPs B order s) \<and>
    ListAllowedKinds B order s =
      sorted_list_of_set {n \<in> p_kinds_allowed (policy_of B s). 0 \<le> n \<and> int64_ok n} \<and>
    ListDeniedKinds B order s =
      sorted_list_of_set {n \<in> p_kinds_denied (policy_of B s). 0 \<le> n \<and> int64_ok n}"
proof -
  note l = bolt_db.listed [OF assms(1,2)]
  note i = bolt_db.listed_ints [OF assms(1,2)]
  have "{n. 0 \<le> n \<and> int64_ok n \<and> m (itoa n) \<noteq> None} = {n \<in> {n. m (itoa n) \<noteq> None}. 0 \<le> n \<and> int64_ok n}"
    for m :: "bytes \<rightharpoonup> bytes" by auto
  note s = this
  show ?thesis
    unfolding ListBanned_def ListAllowed_def ListBlockedIPs_def ListAllowedKinds_def ListDeniedKinds_def
      policy_of_def policy_in_def policy.simps s [symmetric]
    by (intro conjI; (rule l i)?; simp add: assms(3))
qed

lemma store_listings_witness:
  "ListBanned memdb rev (snd (run_ops (run_op memdb id) [DoBan ''b'' ''x'', DoBan ''a'' ''y''] mem_store))
     = [\<lparr>pr_pubkey = ''a'', pr_reason = ''y''\<rparr>, \<lparr>pr_pubkey = ''b'', pr_reason = ''x''\<rparr>] \<and>
   listing (p_banned (policy_of memdb mem_store)) (\<lambda>k r. \<lparr>pr_pubkey = k, pr_reason = r\<rparr>)
     (ListBanned memdb rev mem_store)"
proof
  show "ListBanned memdb rev (snd (run_ops (run_op memdb id) [DoBan ''b'' ''x'', DoBan ''a'' ''y''] mem_store))
     = [\<lparr>pr_pubkey = ''a'', pr_reason = ''y''\<rparr>, \<lparr>pr_pubkey = ''b'', pr_reason = ''x''\<rparr>]"
    by code_simp
  show "listing (p_banned (policy_of memdb mem_store)) (\<lambda>k r. \<lparr>pr_pubkey = k, pr_reason = r\<rparr>)
     (ListBanned memdb rev mem_store)"
    by (rule store_listings [OF mem_bolt_db [OF empty_disk_ok] mem_store_open mset_rev, THEN conjunct1])
qed

text \<open>\<open>Open\<close> gives a store that satisfies the invariant and runs in the requested allowlist
  mode; what it holds is the policy of the file with the seed operations that succeeded applied, in
  order, the errors of the others being ignored. When commits succeed and bolt accepts the seeds,
  the configured administrators were added to those of the file, unbanned and allowed, and the
  configured kinds were added to the allowlist: \<open>Open\<close> itself never revokes anything.\<close>

theorem open_establishes:
  assumes "store_impl B ok ord" and "bk_open B path = Inr d"
    and "dom (opened B d bucketKindsAllowed) \<subseteq> range itoa"
    and "dom (opened B d bucketKindsDenied) \<subseteq> range itoa"
    and "Open B path admins kinds al = Inr s"
  shows "store_open B ok s \<and> AllowlistMode s = al \<and>
    (\<exists>es :: bytes option list. policy_of B s = fold spec_op (succeeded (seed_ops admins kinds) es) (policy_in (opened B d) al)) \<and>
    (commits B \<and> (\<forall>c \<in> set (seed_ops admins kinds). op_storable c) \<longrightarrow>
       p_admins (policy_of B s) = dom (opened B d bucketAdmins) \<union> (set admins - {[]}) \<and>
       p_kinds_allowed (policy_of B s) = p_kinds_allowed (policy_in (opened B d) al) \<union> set kinds \<and>
       (\<forall>k \<in> set admins - {[]}. IsAllowed B s k \<and> \<not> IsBanned B s k))"
proof -
  obtain s0 where o: "store_open B ok s0" and p0: "policy_of B s0 = policy_in (opened B d) al"
    and al: "st_allowlist s0 = al"
    and s: "s = snd (run_ops (run_op B ord) (seed_ops admins kinds) s0)"
    using store_impl.open_reads [OF assms] by blast
  obtain es where r: "run_ops (run_op B ord) (seed_ops admins kinds) s0 = (es, s)"
    using s by (metis prod.collapse)
  note f = policy_contract.run_ops_refines [OF store_contract [OF assms(1)] o r]
  have "bolt_db B ok" using assms(1) by (simp add: store_impl_def)
  note sp = store_policy [OF this conjunct1 [OF f]]
  have "p_allowlist (fold spec_op cs p) = p_allowlist p" for cs p
    by (induction cs arbitrary: p) simp_all
  then have al': "AllowlistMode s = al" using f p0 by (simp add: sp policy_in_def)
  have full: "policy_of B s = fold spec_op (seed_ops admins kinds) (policy_in (opened B d) al)"
    if "commits B" "\<forall>c \<in> set (seed_ops admins kinds). op_storable c"
    using store_impl.ops_succeed [OF assms(1) that(1) o that(2)] f r p0 by simp
  note view = full [unfolded spec_seeds wanted_set_def]
  have "p_admins (policy_of B s) = dom (opened B d bucketAdmins) \<union> (set admins - {[]}) \<and>
      p_kinds_allowed (policy_of B s) = p_kinds_allowed (policy_in (opened B d) al) \<union> set kinds \<and>
      (\<forall>k \<in> set admins - {[]}. IsAllowed B s k \<and> \<not> IsBanned B s k)"
    if "commits B" "\<forall>c \<in> set (seed_ops admins kinds). op_storable c"
    unfolding sp view [OF that] by (simp add: policy_in_def)
  moreover have "\<exists>es :: bytes option list. policy_of B s =
      fold spec_op (succeeded (seed_ops admins kinds) es) (policy_in (opened B d) al)"
    using f p0 by auto
  ultimately show ?thesis using f al' by blast
qed

lemma open_establishes_witness:
  "store_open memdb mem_ok mem_store \<and> AllowlistMode mem_store \<and> p_admins (policy_of memdb mem_store) = {''op''}"
proof -
  have "\<forall>c \<in> set (seed_ops [''op''] [1]). op_storable c" by code_simp
  moreover have "dom (opened memdb empty_disk b) = {}" for b by (simp add: mem_opened)
  then have "dom (opened memdb empty_disk b) \<subseteq> range itoa" for b by simp
  note open_establishes [OF mem_impl mem_open_disk this this mem_store_Open]
  ultimately show ?thesis using mem_commits
    by (auto simp: mem_opened)
qed

text \<open>A relay field reads back as what was last written to it, the empty string included, which
  deletes the entry; other fields keep their value.\<close>

theorem relay_info_roundtrip:
  assumes "store_impl B ok ord" and "store_open B ok s" and "SetRelayInfo B k v s = (None, s')"
  shows "GetRelayInfo B s' k' = (if k' = k then v else GetRelayInfo B s k')"
proof -
  have e: "store_open B ok s'" "policy_of B s' = spec_op (DoSetRelayInfo k v) (policy_of B s)"
    using store_impl.op_done [OF assms(1,2), of "DoSetRelayInfo k v" s'] assms(3) by simp_all
  have "bolt_db B ok" using assms(1) by (simp add: store_impl_def)
  note p = store_policy [OF this assms(2)] store_policy [OF this e(1)]
  show ?thesis by (simp add: p e(2))
qed

lemma relay_info_roundtrip_witness:
  "GetRelayInfo memdb (snd (SetRelayInfo memdb ''name'' ''hub'' mem_store)) ''name'' = ''hub''"
proof -
  have "fst (SetRelayInfo memdb ''name'' ''hub'' mem_store) = None" by code_simp
  then have "SetRelayInfo memdb ''name'' ''hub'' mem_store =
      (None, snd (SetRelayInfo memdb ''name'' ''hub'' mem_store))" by (metis prod.collapse)
  from relay_info_roundtrip [OF mem_impl mem_store_open this] show ?thesis by simp
qed

text \<open>After \<open>Close\<close> the store answers every question with the zero value, because the errors
  of read transactions are discarded: nobody is banned, no address is blocked and every kind is
  allowed, while nobody is an administrator or allowed; every write reports an error and changes
  nothing.\<close>

theorem closed_store_fails_open:
  assumes "bolt_db B ok" and "store_open B ok s" and "Close B s = (None, s')"
  shows "\<not> IsBanned B s' k \<and> \<not> IsIPBlocked B s' k \<and> KindAllowed B s' n \<and> \<not> IsAdmin B s' k \<and>
    \<not> IsAllowed B s' k \<and> GetRelayInfo B s' k = [] \<and> (\<exists>e. run_op B ord c s' = (Some e, s'))"
proof -
  obtain d where d: "bk_close B (st_db s) = (None, d)" "s' = s\<lparr>st_db := d\<rparr>"
    using assms(3) by (auto simp: Close_def split: prod.splits)
  have "ok (st_db s)" using assms(2) by (simp add: store_open_def db_ready_def)
  then obtain e where "bk_begin B (st_db s') = Some e"
    using bolt_db.close_law [OF assms(1) _ d(1)] d(2) by auto
  then show ?thesis
    by (simp add: reading_methods KindAllowed_def listKV_def db_view_def run_op_update st_update_def
        db_update_def)
qed

lemma closed_store_fails_open_witness:
  "\<not> IsBanned memdb (snd (Close memdb (snd (Ban memdb ''a'' ''spam'' mem_store)))) ''a''"
proof -
  have "fst (run_op memdb id (DoBan ''a'' ''spam'') mem_store) = None" by code_simp
  then have b: "store_open memdb mem_ok (snd (Ban memdb ''a'' ''spam'' mem_store))"
    using ms.op_done [OF mem_store_open, of "DoBan ''a'' ''spam''"] by (metis prod.collapse run_op.simps(4))
  have "fst (Close memdb (snd (Ban memdb ''a'' ''spam'' mem_store))) = None"
    by (simp add: Close_def mem_bolt_def)
  then have "Close memdb (snd (Ban memdb ''a'' ''spam'' mem_store)) =
      (None, snd (Close memdb (snd (Ban memdb ''a'' ''spam'' mem_store))))" by (metis prod.collapse)
  from closed_store_fails_open [OF mem_bolt_db [OF empty_disk_ok] b this] show ?thesis by blast
qed

subsection \<open>The kind decision under concurrent management\<close>

text \<open>\<open>KindAllowed\<close> reads the store in three transactions, and management calls may run between
  them: the reads see three states of the store, one after another.\<close>

definition KindAllowed_torn :: "'d bolt \<Rightarrow> 'd store \<Rightarrow> 'd store \<Rightarrow> 'd store \<Rightarrow> int \<Rightarrow> bool" where
  "KindAllowed_torn B s1 s2 s3 kind =
     (let key = itoa kind in
      if st_has B s1 bucketKindsDenied key then False
      else if listKV B s2 bucketKindsAllowed = [] then True
      else st_has B s3 bucketKindsAllowed key)"

lemma KindAllowed_one_state: "KindAllowed B s = KindAllowed_torn B s s s"
  by (simp add: fun_eq_iff KindAllowed_def KindAllowed_torn_def)

lemma spec_kinds_grow:
  "p_kinds_allowed p \<subseteq> p_kinds_allowed (spec_op c p)" "p_kinds_denied p \<subseteq> p_kinds_denied (spec_op c p)"
  by (cases c; auto)+

context policy_contract
begin

lemma run_ops_kinds_grow:
  assumes "inv s" "run_ops run cs s = (es, s')"
  shows "p_kinds_allowed (view s) \<subseteq> p_kinds_allowed (view s')"
proof -
  have "p_kinds_allowed p \<subseteq> p_kinds_allowed (fold spec_op ds p)" for ds p
    using spec_kinds_grow(1) by (induction ds arbitrary: p) (simp, metis fold_simps(2) subset_trans)
  then show ?thesis using run_ops_refines [OF assms] by simp
qed

end

text \<open>C31: A kind that \<open>KindAllowed\<close> rejects was really rejected by the policy at the moment of the
  first or of the second of its reads, whatever writing operations of the store run between the reads:
  kinds are only ever added to the two lists. Closing the store is not such an operation.\<close>

theorem kind_rejection_justified:
  assumes "store_impl B ok ord" and "store_open B ok s1"
    and "run_ops (run_op B ord) cs1 s1 = (es1, s2)" and "run_ops (run_op B ord) cs2 s2 = (es2, s3)"
    and "\<not> KindAllowed_torn B s1 s2 s3 k"
  shows "\<not> KindAllowed B s1 k \<or> \<not> KindAllowed B s2 k"
proof -
  note c = store_contract [OF assms(1)]
  have o2: "store_open B ok s2" using policy_contract.run_ops_refines [OF c assms(2,3)] by simp
  have o3: "store_open B ok s3" using policy_contract.run_ops_refines [OF c o2 assms(4)] by simp
  have grow: "st_has B s2 bucketKindsAllowed (itoa k) \<Longrightarrow> st_has B s3 bucketKindsAllowed (itoa k)"
    using policy_contract.run_ops_kinds_grow [OF c o2 assms(4)] o2 o3
    by (auto simp: st_has_def policy_of_def policy_in_def)
  show ?thesis
  proof (cases "st_has B s1 bucketKindsDenied (itoa k)")
    case True then show ?thesis by (simp add: KindAllowed_def)
  next
    case False
    then show ?thesis using assms(5) grow by (auto simp: KindAllowed_def KindAllowed_torn_def Let_def)
  qed
qed

lemma kind_rejection_justified_witness:
  "\<not> (KindAllowed memdb mem_store 2 \<and> KindAllowed memdb (snd (run_ops (run_op memdb id) [DoDenyKind 2] mem_store)) 2)"
proof -
  have "\<not> KindAllowed_torn memdb mem_store (snd (run_ops (run_op memdb id) [DoDenyKind 2] mem_store))
      (snd (run_ops (run_op memdb id) [DoDenyKind 3]
         (snd (run_ops (run_op memdb id) [DoDenyKind 2] mem_store)))) 2"
    by code_simp
  from kind_rejection_justified [OF mem_impl mem_store_open prod.collapse [symmetric]
    prod.collapse [symmetric] this] show ?thesis by blast
qed

text \<open>An acceptance is not justified in the same way: with kind 1 alone on the allowlist, and
  denying kind 2 and then allowing kind 2 between the reads, \<open>KindAllowed\<close> accepts kind 2 although the
  policy rejects it in every state the store goes through.\<close>

theorem kind_acceptance_torn:
  "let s1 = mem_store;
       s2 = snd (DenyKind memdb 2 s1);
       s3 = snd (AllowKind memdb 2 s2)
   in KindAllowed_torn memdb s1 s2 s3 2 \<and>
      \<not> KindAllowed memdb s1 2 \<and> \<not> KindAllowed memdb s2 2 \<and> \<not> KindAllowed memdb s3 2"
  by code_simp

text \<open>Nor is a rejection when the store is closed between the second read and the third, as a shutdown
  may do: kind 1 is rejected although the policy allowed it as long as the store was open, and a closed
  store allows every kind.\<close>

theorem kind_rejection_on_close:
  "let s1 = mem_store; s3 = snd (Close memdb s1)
   in \<not> KindAllowed_torn memdb s1 s1 s3 1 \<and> KindAllowed memdb s1 1 \<and> KindAllowed memdb s3 1"
  by code_simp

end
