(* ===== verification/GoNet.thy ===== *)
theory GoNet
  imports GoStd
begin

text \<open>
  The parts of Go's \<open>net\<close> and \<open>time\<close> packages that the configuration uses: \<open>net.ParseIP\<close>
  (through \<open>netip.ParseAddr\<close>) with \<open>IP.IsLoopback\<close>, and \<open>time.ParseDuration\<close>. Bytes of an
  address and durations in nanoseconds are integers. The one floating-point expression of
  \<open>ParseDuration\<close>, the share of a unit that a decimal fraction stands for, is an argument.
\<close>

subsection \<open>IPv4\<close>

fun split_on :: "char \<Rightarrow> bytes \<Rightarrow> bytes list" where
  "split_on c [] = [[]]"
| "split_on c (x # xs) =
     (if x = c then [] # split_on c xs
      else (case split_on c xs of [] \<Rightarrow> [[x]] | f # fs \<Rightarrow> (x # f) # fs))"

definition ipv4_field :: "bytes \<Rightarrow> int option" where
  "ipv4_field f =
     (if f = [] \<or> \<not> list_all is_digit f \<or> (length f > 1 \<and> hd f = CHR ''0'') \<or> digits_val f > 255
      then None else Some (digits_val f))"

definition ipv4_fields :: "bytes \<Rightarrow> int list option" where
  "ipv4_fields s =
     (case map ipv4_field (split_on CHR ''.'' s) of
        [Some a, Some b, Some c, Some d] \<Rightarrow> Some [a, b, c, d]
      | _ \<Rightarrow> None)"

text \<open>An IPv4 address in the 16 byte form that \<open>net.IP\<close> uses.\<close>

definition v4_in_v6 :: "int list \<Rightarrow> int list" where
  "v4_in_v6 f = replicate 10 0 @ [255, 255] @ f"

subsection \<open>IPv6\<close>

definition hex_nibble :: "char \<Rightarrow> int option" where
  "hex_nibble c =
     (let b = byte c in
      if is_digit c then Some (digit_val c)
      else if 97 \<le> b \<and> b \<le> 102 then Some (b - 87)
      else if 65 \<le> b \<and> b \<le> 70 then Some (b - 55)
      else None)"

definition hex_group :: "bytes \<Rightarrow> int list" where
  "hex_group h = (let v = foldl (\<lambda>a c. 16 * a + the (hex_nibble c)) 0 h in [v div 256, v mod 256])"

definition hex_span :: "bytes \<Rightarrow> bytes" where
  "hex_span s = takeWhile (\<lambda>c. hex_nibble c \<noteq> None) s"

text \<open>The loop over the groups: the bytes so far and where \<open>::\<close> stood.\<close>

function v6_loop :: "bytes \<Rightarrow> int list \<Rightarrow> nat option \<Rightarrow> (int list \<times> nat option) option" where
  "v6_loop s acc ell =
     (if length acc \<ge> 16 then (if s = [] then Some (acc, ell) else None)
      else
        (let h = hex_span s; acc' = acc @ hex_group h in
         if h = [] \<or> length h > 4 then None
         else
           (case drop (length h) s of
              [] \<Rightarrow> Some (acc', ell)
            | c # cs \<Rightarrow>
                if c = CHR ''.'' then
                  (if (ell = None \<and> length acc \<noteq> 12) \<or> length acc + 4 > 16 then None
                   else map_option (\<lambda>f. (acc @ f, ell)) (ipv4_fields s))
                else if c \<noteq> CHR '':'' \<or> cs = [] then None
                else if hd cs = CHR '':'' then
                  (if ell \<noteq> None then None
                   else if tl cs = [] then Some (acc', Some (length acc'))
                   else v6_loop (tl cs) acc' (Some (length acc')))
                else v6_loop cs acc' ell)))"
  by pat_completeness auto
termination
  by (relation "measure (\<lambda>(s, _, _). length s)") (auto dest!: arg_cong [where f = length])

declare v6_loop.simps [simp del]

definition v6_finish :: "int list \<times> nat option \<Rightarrow> int list option" where
  "v6_finish = (\<lambda>(acc, ell).
     (case ell of
        None \<Rightarrow> (if length acc < 16 then None else Some acc)
      | Some e \<Rightarrow> (if length acc < 16
                   then Some (take e acc @ replicate (16 - length acc) 0 @ drop e acc)
                   else None)))"

definition parse_ipv6 :: "bytes \<Rightarrow> int list option" where
  "parse_ipv6 s =
     (if CHR ''%'' \<in> set s then None
      else if take 2 s = ''::'' then
        (if drop 2 s = [] then Some (replicate 16 0)
         else Option.bind (v6_loop (drop 2 s) [] (Some 0)) v6_finish)
      else Option.bind (v6_loop s [] None) v6_finish)"

subsection \<open>\<open>net.ParseIP\<close> and \<open>IP.IsLoopback\<close>\<close>

definition ParseIP :: "bytes \<Rightarrow> int list option" where
  "ParseIP s =
     (case dropWhile (\<lambda>c. c \<notin> {CHR ''.'', CHR '':'', CHR ''%''}) s of
        [] \<Rightarrow> None
      | c # _ \<Rightarrow>
          if c = CHR ''.'' then map_option v4_in_v6 (ipv4_fields s)
          else if c = CHR '':'' then parse_ipv6 s
          else None)"

definition IsLoopback :: "int list \<Rightarrow> bool" where
  "IsLoopback ip =
     (if take 12 ip = replicate 10 0 @ [255, 255] then ip ! 12 = 127
      else ip = replicate 15 0 @ [1])"

text \<open>The dotted form of four octets, to state what \<open>ParseIP\<close> makes of it.\<close>

definition dotted :: "int \<Rightarrow> int \<Rightarrow> int \<Rightarrow> int \<Rightarrow> bytes" where
  "dotted a b c d = itoa a @ ''.'' @ itoa b @ ''.'' @ itoa c @ ''.'' @ itoa d"

definition octet :: "int \<Rightarrow> bool" where
  "octet n \<longleftrightarrow> 0 \<le> n \<and> n \<le> 255"

lemma split_on_free: "c \<notin> set x \<Longrightarrow> split_on c x = [x]"
  by (induction x) auto

lemma split_on_append: "c \<notin> set x \<Longrightarrow> split_on c (x @ c # y) = x # split_on c y"
  by (induction x) auto

lemma itoa_digits:
  "0 \<le> n \<Longrightarrow> itoa n \<noteq> [] \<and> list_all is_digit (itoa n) \<and> digits_val (itoa n) = n \<and>
    CHR ''.'' \<notin> set (itoa n)"
  using nat_digits_props [of n] by (auto simp: itoa_def list_all_iff is_digit_def byte_def)

lemma itoa_no_leading_zero: "0 \<le> n \<Longrightarrow> length (itoa n) > 1 \<Longrightarrow> hd (itoa n) \<noteq> CHR ''0''"
proof -
  have "0 \<le> n \<Longrightarrow> length (nat_digits n) > 1 \<Longrightarrow> digit_val (hd (nat_digits n)) > 0" for n
  proof (induction n rule: nat_digits.induct)
    case (1 n)
    show ?case
    proof (cases "n < 10")
      case True with "1.prems" show ?thesis by (simp add: nat_digits.simps [of n])
    next
      case False
      have ne: "nat_digits (n div 10) \<noteq> []" using nat_digits_props [of "n div 10"] False by simp
      show ?thesis
      proof (cases "n div 10 < 10")
        case True
        then have "nat_digits n = [digit_char (n div 10), digit_char (n mod 10)]"
          using False by (simp add: nat_digits.simps [of n] nat_digits.simps [of "n div 10"])
        moreover have "0 < n div 10" using False by simp
        ultimately show ?thesis using True by simp
      next
        case nine: False
        then have "length (nat_digits (n div 10)) > 1"
          using nat_digits_props [of "n div 10 div 10"] by (simp add: nat_digits.simps [of "n div 10"])
        then show ?thesis using 1 False ne by (simp add: nat_digits.simps [of n])
      qed
    qed
  qed
  then show "0 \<le> n \<Longrightarrow> length (itoa n) > 1 \<Longrightarrow> hd (itoa n) \<noteq> CHR ''0''"
    by (fastforce simp: itoa_def digit_val_def byte_def)
qed

lemma ParseIP_dotted:
  assumes "octet a" "octet b" "octet c" "octet d"
  shows "ParseIP (dotted a b c d) = Some (v4_in_v6 [a, b, c, d])"
proof -
  have f: "ipv4_field (itoa n) = Some n" if "octet n" for n
    using that itoa_digits [of n] itoa_no_leading_zero [of n]
    by (auto simp: ipv4_field_def octet_def)
  have dots: "split_on CHR ''.'' (dotted a b c d) = [itoa a, itoa b, itoa c, itoa d]"
    using itoa_digits assms by (simp add: dotted_def split_on_append split_on_free octet_def)
  have "dropWhile (\<lambda>c. c \<notin> {CHR ''.'', CHR '':'', CHR ''%''}) (x @ y) =
      dropWhile (\<lambda>c. c \<notin> {CHR ''.'', CHR '':'', CHR ''%''}) y" if "list_all is_digit x" for x y
    using that by (induction x) (auto simp: is_digit_def byte_def)
  from this [of "itoa a"] show ?thesis using itoa_digits [of a] assms
    by (simp add: ParseIP_def dotted_def octet_def) (simp add: ipv4_fields_def f assms dots [unfolded dotted_def, simplified])
qed

subsection \<open>\<open>time.ParseDuration\<close>\<close>

text \<open>\<open>leadingInt\<close>: \<open>None\<close> on overflow, else the number and the rest.\<close>

fun leading_int :: "int \<Rightarrow> bytes \<Rightarrow> (int \<times> bytes) option" where
  "leading_int x [] = Some (x, [])"
| "leading_int x (c # cs) =
     (if \<not> is_digit c then Some (x, c # cs)
      else if x > 2 ^ 63 div 10 then None
      else let y = 10 * x + digit_val c in if y > 2 ^ 63 then None else leading_int y cs)"

text \<open>\<open>leadingFraction\<close>: the digits that fit, the power of ten they stand over and the rest;
  digits after an overflow are skipped.\<close>

fun leading_fraction :: "int \<Rightarrow> int \<Rightarrow> bool \<Rightarrow> bytes \<Rightarrow> int \<times> int \<times> bytes" where
  "leading_fraction x scale over [] = (x, scale, [])"
| "leading_fraction x scale over (c # cs) =
     (if \<not> is_digit c then (x, scale, c # cs)
      else if over \<or> x > (2 ^ 63 - 1) div 10 then leading_fraction x scale True cs
      else let y = 10 * x + digit_val c in
           if y > 2 ^ 63 then leading_fraction x scale True cs
           else leading_fraction y (10 * scale) False cs)"

definition unit_of :: "bytes \<Rightarrow> int option" where
  "unit_of u = map_of
     [(''ns'', 1), (''us'', 1000), ([CHR 0xC2, CHR 0xB5, CHR ''s''], 1000),
      ([CHR 0xCE, CHR 0xBC, CHR ''s''], 1000), (''ms'', 1000000), (''s'', 1000000000),
      (''m'', 60000000000), (''h'', 3600000000000)] u"

definition number_char :: "char \<Rightarrow> bool" where
  "number_char c \<longleftrightarrow> c = CHR ''.'' \<or> is_digit c"

text \<open>One turn of the loop: a number with its unit, as nanoseconds, and the rest. \<open>share f u s\<close>
  is \<open>uint64(float64(f) * (float64(u) / s))\<close>.\<close>

type_synonym fraction_share = "int \<Rightarrow> int \<Rightarrow> int \<Rightarrow> int"

definition duration_part :: "fraction_share \<Rightarrow> bytes \<Rightarrow> (int \<times> bytes) option" where
  "duration_part share s =
     (if \<not> number_char (hd s) then None
      else case leading_int 0 s of
        None \<Rightarrow> None
      | Some (v, r) \<Rightarrow>
          let pre = length r \<noteq> length s;
              dot = r \<noteq> [] \<and> hd r = CHR ''.'';
              (f, scale, r') = (if dot then leading_fraction 0 1 False (tl r) else (0, 1, r));
              post = dot \<and> length r' \<noteq> length (tl r);
              u = takeWhile (\<lambda>c. \<not> number_char c) r';
              rest = drop (length u) r'
          in if \<not> pre \<and> \<not> post then None
             else case unit_of u of
               None \<Rightarrow> None
             | Some unit \<Rightarrow>
                 if v > 2 ^ 63 div unit then None
                 else let w = (v * unit + (if f > 0 then share f unit scale else 0)) mod 2 ^ 64
                      in if f > 0 \<and> w > 2 ^ 63 then None else Some (w, rest))"

lemma leading_int_length: "leading_int x s = Some (v, r) \<Longrightarrow> length r \<le> length s"
  by (induction x s rule: leading_int.induct) (auto simp: Let_def split: if_splits)

lemma leading_fraction_length:
  "leading_fraction x scale over s = (f, sc, r) \<Longrightarrow> length r \<le> length s"
  by (induction x scale over s rule: leading_fraction.induct) (auto simp: Let_def split: if_splits)

lemma duration_part_shorter: "duration_part share s = Some (d, rest) \<Longrightarrow> length rest < length s"
proof -
  assume a: "duration_part share s = Some (d, rest)"
  obtain v r where li: "leading_int 0 s = Some (v, r)"
    using a by (auto simp: duration_part_def split: if_splits option.splits)
  obtain f sc r' where lf: "(if r \<noteq> [] \<and> hd r = CHR ''.'' then leading_fraction 0 1 False (tl r) else (0, 1, r)) = (f, sc, r')"
    by (metis prod_cases3)
  have "length r' \<le> length r"
    using lf by (auto split: if_splits dest!: leading_fraction_length)
  moreover have r: "length rest \<le> length r' - length (takeWhile (\<lambda>c. \<not> number_char c) r')"
    and u: "unit_of (takeWhile (\<lambda>c. \<not> number_char c) r') \<noteq> None"
    using a li lf by (auto simp: duration_part_def Let_def split: if_splits option.splits)
  from u have "takeWhile (\<lambda>c. \<not> number_char c) r' \<noteq> []" by (auto simp: unit_of_def)
  then have "0 < length (takeWhile (\<lambda>c. \<not> number_char c) r')" by simp
  moreover have "length (takeWhile (\<lambda>c. \<not> number_char c) r') \<le> length r'" by (rule length_takeWhile_le)
  ultimately show ?thesis using leading_int_length [OF li] r by linarith
qed

function duration_loop :: "fraction_share \<Rightarrow> int \<Rightarrow> bytes \<Rightarrow> int option" where
  "duration_loop share d s =
     (if s = [] then Some d
      else case duration_part share s of
        None \<Rightarrow> None
      | Some (w, rest) \<Rightarrow>
          let d' = (d + w) mod 2 ^ 64 in
          if d' > 2 ^ 63 then None else duration_loop share d' rest)"
  by pat_completeness auto
termination
  by (relation "measure (\<lambda>(_, _, s). length s)") (auto dest: duration_part_shorter)

declare duration_loop.simps [simp del]

definition ParseDuration :: "fraction_share \<Rightarrow> bytes \<Rightarrow> int option" where
  "ParseDuration share orig =
     (let signed = (orig \<noteq> [] \<and> (hd orig = CHR ''-'' \<or> hd orig = CHR ''+''));
          neg = (signed \<and> hd orig = CHR ''-'');
          s = (if signed then tl orig else orig)
      in if s = ''0'' then Some 0
         else if s = [] then None
         else case duration_loop share 0 s of
           None \<Rightarrow> None
         | Some d \<Rightarrow>
             if neg then Some (- d)
             else if d > 2 ^ 63 - 1 then None
             else Some d)"

lemma duration_loop_range:
  "duration_loop share d s = Some e \<Longrightarrow> 0 \<le> d \<Longrightarrow> d \<le> 2 ^ 63 \<Longrightarrow> 0 \<le> e \<and> e \<le> 2 ^ 63"
proof (induction share d s rule: duration_loop.induct)
  case (1 share d s)
  show ?case
  proof (cases "s = []")
    case True with 1 show ?thesis by (simp add: duration_loop.simps [of share d "[]"])
  next
    case False
    then obtain w rest where p: "duration_part share s = Some (w, rest)"
      using "1.prems"(1) by (auto simp: duration_loop.simps [of share d s] split: option.splits)
    let ?d = "(d + w) mod 2 ^ 64"
    have "?d \<le> 2 ^ 63" "duration_loop share ?d rest = Some e"
      using "1.prems"(1) False p
      by (simp_all add: duration_loop.simps [of share d s] Let_def split: if_splits)
    then show ?thesis using "1.IH" [OF False p refl refl] by simp
  qed
qed

lemma ParseDuration_range: "ParseDuration share s = Some d \<Longrightarrow> int64_ok d"
  using duration_loop_range [of share 0]
  by (fastforce simp: ParseDuration_def Let_def int64_ok_def split: if_splits option.splits)

subsection \<open>\<open>IP.String\<close> and \<open>net.SplitHostPort\<close>\<close>

definition hex_digit :: "int \<Rightarrow> char" where
  "hex_digit n = (if n < 10 then digit_char n else char_of (nat (87 + n)))"

definition hex_short :: "int \<Rightarrow> bytes" where
  "hex_short n =
     (let d = [n div 4096, n div 256 mod 16, n div 16 mod 16]
      in map hex_digit (dropWhile (\<lambda>x. x = 0) d) @ [hex_digit (n mod 16)])"

fun groups_of :: "int list \<Rightarrow> int list" where
  "groups_of (a # b # r) = (256 * a + b) # groups_of r"
| "groups_of _ = []"

text \<open>The run of zero groups that starts at each position; the longest run of at least two, the
  first of them, is written as \<open>::\<close>.\<close>

definition zero_run :: "int list \<Rightarrow> nat \<Rightarrow> nat" where
  "zero_run g i = length (takeWhile (\<lambda>x. x = 0) (drop i g))"

definition longest_run :: "int list \<Rightarrow> (nat \<times> nat) option" where
  "longest_run g =
     fold (\<lambda>i best. let l = zero_run g i in
             if 2 \<le> l \<and> l > (case best of None \<Rightarrow> 0 | Some (s, e) \<Rightarrow> e - s) then Some (i, i + l) else best)
          [0..<length g] None"

fun join_colon :: "bytes list \<Rightarrow> bytes" where
  "join_colon [] = []"
| "join_colon [x] = x"
| "join_colon (x # xs) = x @ CHR '':'' # join_colon xs"

definition ipv6_text :: "int list \<Rightarrow> bytes" where
  "ipv6_text ip =
     (let g = groups_of ip in
      case longest_run g of
        None \<Rightarrow> join_colon (map hex_short g)
      | Some (s, e) \<Rightarrow> join_colon (map hex_short (take s g)) @ ''::'' @ join_colon (map hex_short (drop e g)))"

definition ip_text :: "int list \<Rightarrow> bytes" where
  "ip_text ip =
     (if ip = [] then ''<nil>''
      else if length ip = 4 then dotted (ip ! 0) (ip ! 1) (ip ! 2) (ip ! 3)
      else if length ip \<noteq> 16 then
        ''?'' @ concat (map (\<lambda>b. [hex_digit (b div 16), hex_digit (b mod 16)]) ip)
      else if take 12 ip = replicate 10 0 @ [255, 255] then
        dotted (ip ! 12) (ip ! 13) (ip ! 14) (ip ! 15)
      else ipv6_text ip)"

text \<open>\<open>SplitHostPort\<close>: the host, or \<open>None\<close> for an error. The last colon separates the port.\<close>

definition before_last_colon :: "bytes \<Rightarrow> bytes option" where
  "before_last_colon s =
     (case dropWhile (\<lambda>c. c \<noteq> CHR '':'') (rev s) of [] \<Rightarrow> None | _ # r \<Rightarrow> Some (rev r))"

definition split_host :: "bytes \<Rightarrow> bytes option" where
  "split_host s =
     (case before_last_colon s of
        None \<Rightarrow> None
      | Some h \<Rightarrow>
          let port = drop (length h + 1) s in
          if s \<noteq> [] \<and> hd s = CHR ''['' then
            (if h = [] \<or> last h \<noteq> CHR '']'' \<or> CHR '']'' \<in> set (butlast h) \<or>
                CHR ''['' \<in> set (tl s) \<or> CHR '']'' \<in> set port then None
             else Some (tl (butlast h)))
          else if CHR '':'' \<in> set h \<or> CHR ''['' \<in> set s \<or> CHR '']'' \<in> set s then None
          else Some h)"

lemma split_host_plain:
  assumes "set h \<inter> {CHR '':'', CHR ''['', CHR '']''} = {}" "set p \<inter> {CHR '':'', CHR ''['', CHR '']''} = {}"
  shows "split_host (h @ CHR '':'' # p) = Some h"
proof -
  have "dropWhile (\<lambda>c. c \<noteq> CHR '':'') (rev p @ CHR '':'' # rev h) = CHR '':'' # rev h"
    using assms(2) by (subst dropWhile_append2) auto
  then have "before_last_colon (h @ CHR '':'' # p) = Some h"
    by (simp add: before_last_colon_def)
  moreover have "hd (h @ CHR '':'' # p) \<noteq> CHR ''[''" using assms(1) by (cases h) auto
  ultimately show ?thesis using assms by (auto simp: split_host_def)
qed

lemma ip_text_v4: "ip_text (v4_in_v6 [a, b, c, d]) = dotted a b c d"
  by (simp add: ip_text_def v4_in_v6_def eval_nat_numeral)

lemma dotted_chars: "octet a \<Longrightarrow> octet b \<Longrightarrow> octet c \<Longrightarrow> octet d \<Longrightarrow>
    set (dotted a b c d) \<inter> {CHR '':'', CHR ''['', CHR '']''} = {}"
  using itoa_digits [of a] itoa_digits [of b] itoa_digits [of c] itoa_digits [of d]
  by (auto simp: dotted_def octet_def list_all_iff is_digit_def byte_def)

end
