(* ===== verification/RelayConfig.thy ===== *)
theory RelayConfig
  imports GoNet
begin

text \<open>
  \<open>src/internal/config/config.go\<close> and \<open>src/internal/tomlutil/tomlutil.go\<close>: the configuration of
  the relay, its defaults and its validation. Reading a file and \<open>toml.Unmarshal\<close> are code outside
  the repository and arguments of \<open>Load\<close>. A TOML array that may be absent is an option, because
  the relay tells a missing list from an empty one.
\<close>

subsection \<open>Loading a TOML file\<close>

datatype toml_error = ReadError bytes bytes bytes | ParseError bytes bytes bytes

text \<open>\<open>tomlutil.Load\<close>: the prefix, the path and the wrapped error.\<close>

definition toml_load ::
  "(bytes \<Rightarrow> bytes + bytes) \<Rightarrow> (bytes \<Rightarrow> bytes + 'a) \<Rightarrow> bytes \<Rightarrow> bytes \<Rightarrow> toml_error + 'a" where
  "toml_load read_file unmarshal path prefix =
     (case read_file path of
        Inl e \<Rightarrow> Inl (ReadError prefix path e)
      | Inr raw \<Rightarrow>
          (case unmarshal raw of
             Inl e \<Rightarrow> Inl (ParseError prefix path e)
           | Inr v \<Rightarrow> Inr v))"

subsection \<open>The configuration\<close>

definition DefaultListenHost :: bytes where "DefaultListenHost = ''127.0.0.1''"
definition DefaultListenPort :: int where "DefaultListenPort = 4848"
definition DefaultMaxContentLength :: int where "DefaultMaxContentLength = 100000"

record prunable =
  pn_Kind :: int
  pn_KeepFor :: bytes

record config =
  ListenHost :: bytes
  ListenPort :: int
  Name :: bytes
  Description :: bytes
  Icon :: bytes
  OperatorPubkey :: bytes
  ServerPubkey :: bytes
  NoticePubkey :: bytes
  PublisherPubkey :: bytes
  AgentPubkeys :: "bytes list"
  AdminPubkeys :: "bytes list"
  AllowlistModeFlag :: bool
  RequireAuthKinds :: "int list option"
  AllowedKinds :: "int list"
  DeniedKinds :: "int list"
  MaxContentLength :: int
  EventsDBPath :: bytes
  PolicyDBPath :: bytes
  Prunables :: "prunable list"

definition zero_config :: config where
  "zero_config =
     \<lparr>ListenHost = [], ListenPort = 0, Name = [], Description = [], Icon = [], OperatorPubkey = [],
      ServerPubkey = [], NoticePubkey = [], PublisherPubkey = [], AgentPubkeys = [],
      AdminPubkeys = [], AllowlistModeFlag = False, RequireAuthKinds = None, AllowedKinds = [],
      DeniedKinds = [], MaxContentLength = 0, EventsDBPath = [], PolicyDBPath = [], Prunables = []\<rparr>"

definition Default :: config where
  "Default = zero_config
     \<lparr>ListenHost := DefaultListenHost, ListenPort := DefaultListenPort,
      MaxContentLength := DefaultMaxContentLength, EventsDBPath := ''./data/events.db'',
      PolicyDBPath := ''./data/policy.db''\<rparr>"

definition applyDefaults :: "config \<Rightarrow> config" where
  "applyDefaults c =
     c\<lparr>ListenHost := (if ListenHost c = [] then DefaultListenHost else ListenHost c),
       ListenPort := (if ListenPort c = 0 then DefaultListenPort else ListenPort c),
       MaxContentLength := (if MaxContentLength c = 0 then DefaultMaxContentLength else MaxContentLength c),
       EventsDBPath := (if EventsDBPath c = [] then ''./data/events.db'' else EventsDBPath c),
       PolicyDBPath := (if PolicyDBPath c = [] then ''./data/policy.db'' else PolicyDBPath c)\<rparr>"

datatype config_error =
    TomlError toml_error
  | OperatorRequired
  | NotLoopback bytes
  | PortOutOfRange int
  | BadKeepFor int bytes

definition isLoopbackHost :: "bytes \<Rightarrow> bool" where
  "isLoopbackHost host =
     (if host = ''localhost'' then True
      else case ParseIP host of None \<Rightarrow> False | Some ip \<Rightarrow> IsLoopback ip)"

fun prune_loop ::
  "fraction_share \<Rightarrow> prunable list \<Rightarrow> (int \<rightharpoonup> int) \<Rightarrow> config_error + (int \<rightharpoonup> int)" where
  "prune_loop share [] out = Inr out"
| "prune_loop share (p # ps) out =
     (case ParseDuration share (pn_KeepFor p) of
        None \<Rightarrow> Inl (BadKeepFor (pn_Kind p) (pn_KeepFor p))
      | Some d \<Rightarrow> prune_loop share ps (out(pn_Kind p \<mapsto> d)))"

definition PruneDurations :: "fraction_share \<Rightarrow> config \<Rightarrow> config_error + (int \<rightharpoonup> int)" where
  "PruneDurations share c = prune_loop share (Prunables c) Map.empty"

definition config_validate :: "fraction_share \<Rightarrow> config \<Rightarrow> config_error option" where
  "config_validate share c =
     (if OperatorPubkey c = [] then Some OperatorRequired
      else if \<not> isLoopbackHost (ListenHost c) then Some (NotLoopback (ListenHost c))
      else if ListenPort c < 1 \<or> ListenPort c > 65535 then Some (PortOutOfRange (ListenPort c))
      else case PruneDurations share c of Inl e \<Rightarrow> Some e | Inr _ \<Rightarrow> None)"

definition config_load ::
  "fraction_share \<Rightarrow> (bytes \<Rightarrow> bytes + bytes) \<Rightarrow> (bytes \<Rightarrow> bytes + config) \<Rightarrow> bytes
     \<Rightarrow> config \<times> config_error option" where
  "config_load share read_file unmarshal path =
     (case toml_load read_file unmarshal path ''config'' of
        Inl e \<Rightarrow> (Default, Some (TomlError e))
      | Inr cfg \<Rightarrow> let cfg = applyDefaults cfg in (cfg, config_validate share cfg))"

section \<open>Properties\<close>

text \<open>A loopback name: \<open>localhost\<close>, an IPv4 address of the block 127.0.0.0/8, also written as IPv6, or ::1.\<close>

definition loopback_name :: "bytes \<Rightarrow> bool" where
  "loopback_name host \<longleftrightarrow> host = ''localhost'' \<or>
     (\<exists>ip. ParseIP host = Some ip \<and>
        (take 12 ip = replicate 10 0 @ [255, 255] \<and> ip ! 12 = 127 \<or> ip = replicate 15 0 @ [1]))"

lemma loopback_name_iff: "loopback_name host \<longleftrightarrow> isLoopbackHost host"
proof -
  have "take 12 ip \<noteq> replicate 10 0 @ [255, 255]" if "ip = replicate 15 0 @ [1 :: int]" for ip
    using that by (simp add: eval_nat_numeral)
  then show ?thesis by (auto simp: loopback_name_def isLoopbackHost_def IsLoopback_def split: option.splits)
qed

lemma prune_loop_ok:
  "prune_loop share ps out = Inr m \<longleftrightarrow>
     (\<forall>p \<in> set ps. ParseDuration share (pn_KeepFor p) \<noteq> None) \<and>
     m = out ++ map_of (rev (map (\<lambda>p. (pn_Kind p, the (ParseDuration share (pn_KeepFor p)))) ps))"
  by (induction ps arbitrary: out) (auto split: option.splits)

definition first_bad :: "fraction_share \<Rightarrow> prunable list \<Rightarrow> prunable option" where
  "first_bad share ps = find (\<lambda>p. ParseDuration share (pn_KeepFor p) = None) ps"

lemma prune_loop_error:
  "prune_loop share ps out = Inl e \<longleftrightarrow>
     (\<exists>p. first_bad share ps = Some p \<and> e = BadKeepFor (pn_Kind p) (pn_KeepFor p))"
  by (induction ps arbitrary: out) (auto simp: first_bad_def split: option.splits)

lemma first_bad_None: "first_bad share ps = None \<longleftrightarrow> (\<forall>p \<in> set ps. ParseDuration share (pn_KeepFor p) \<noteq> None)"
  by (auto simp: first_bad_def find_None_iff)

lemma validate_cases:
  "config_validate share c =
     (if OperatorPubkey c = [] then Some OperatorRequired
      else if \<not> isLoopbackHost (ListenHost c) then Some (NotLoopback (ListenHost c))
      else if ListenPort c < 1 \<or> ListenPort c > 65535 then Some (PortOutOfRange (ListenPort c))
      else map_option (\<lambda>p. BadKeepFor (pn_Kind p) (pn_KeepFor p)) (first_bad share (Prunables c)))"
proof -
  have "(case prune_loop share ps out of Inl e \<Rightarrow> Some e | Inr _ \<Rightarrow> None) =
      map_option (\<lambda>p. BadKeepFor (pn_Kind p) (pn_KeepFor p)) (first_bad share ps)" for ps out
    by (induction ps arbitrary: out) (auto simp: first_bad_def split: option.splits)
  then show ?thesis by (simp add: config_validate_def PruneDurations_def)
qed

lemma validate_ok:
  "config_validate share c = None \<longleftrightarrow>
     OperatorPubkey c \<noteq> [] \<and> isLoopbackHost (ListenHost c) \<and> 1 \<le> ListenPort c \<and>
     ListenPort c \<le> 65535 \<and> (\<forall>p \<in> set (Prunables c). ParseDuration share (pn_KeepFor p) \<noteq> None)"
  by (auto simp: validate_cases first_bad_None)

lemma PruneDurations_range: "PruneDurations share c = Inr m \<Longrightarrow> m k = Some d \<Longrightarrow> int64_ok d"
proof -
  assume p: "PruneDurations share c = Inr m" and k: "m k = Some d"
  have "(k, d) \<in> set (rev (map (\<lambda>p. (pn_Kind p, the (ParseDuration share (pn_KeepFor p)))) (Prunables c)))"
    using p k by (intro map_of_SomeD) (simp add: PruneDurations_def prune_loop_ok)
  then show ?thesis using p ParseDuration_range by (auto simp: PruneDurations_def prune_loop_ok)
qed

text \<open>C33: A configuration that \<open>Load\<close> returns without an error names an operator, listens on a
  loopback host and a valid port, has a content limit and both database paths, and its retention
  table parses, so that \<open>PruneDurations\<close> cannot fail later: every kind maps to the last duration
  listed for it, a 64-bit number of nanoseconds.\<close>

theorem config_load_safe:
  assumes "config_load share read_file unmarshal path = (c, None)"
  shows "OperatorPubkey c \<noteq> [] \<and> loopback_name (ListenHost c) \<and> 1 \<le> ListenPort c \<and> ListenPort c \<le> 65535 \<and>
    MaxContentLength c \<noteq> 0 \<and> EventsDBPath c \<noteq> [] \<and> PolicyDBPath c \<noteq> [] \<and>
    (\<exists>m. PruneDurations share c = Inr m \<and> dom m = pn_Kind ` set (Prunables c) \<and>
      (\<forall>ps p qs. Prunables c = ps @ p # qs \<and> pn_Kind p \<notin> pn_Kind ` set qs \<longrightarrow>
         m (pn_Kind p) = ParseDuration share (pn_KeepFor p)) \<and> (\<forall>d \<in> ran m. int64_ok d))"
proof -
  obtain raw where c: "c = applyDefaults raw" and v: "config_validate share c = None"
    using assms by (auto simp: config_load_def Let_def split: sum.splits)
  let ?e = "\<lambda>p. (pn_Kind p, the (ParseDuration share (pn_KeepFor p)))"
  let ?m = "map_of (rev (map ?e (Prunables c)))"
  have d: "\<forall>p \<in> set (Prunables c). ParseDuration share (pn_KeepFor p) \<noteq> None"
    using v by (simp add: validate_ok)
  then have m: "PruneDurations share c = Inr ?m" by (simp add: PruneDurations_def prune_loop_ok)
  have "dom ?m = pn_Kind ` set (Prunables c)" by (simp add: dom_map_of_conv_image_fst image_image)
  moreover have "?m (pn_Kind p) = ParseDuration share (pn_KeepFor p)"
    if "Prunables c = ps @ p # qs" "pn_Kind p \<notin> pn_Kind ` set qs" for ps p qs
  proof -
    have "map_of (rev (map ?e qs)) (pn_Kind p) = None"
      using that(2) by (simp add: map_of_eq_None_iff image_image)
    then show ?thesis using that(1) d by (simp add: map_add_def)
  qed
  moreover have "int64_ok x" if "x \<in> ran ?m" for x
  proof -
    from that obtain k where "?m k = Some x" by (auto simp: ran_def)
    then have "(k, x) \<in> set (rev (map ?e (Prunables c)))" by (rule map_of_SomeD)
    then show ?thesis using d ParseDuration_range by auto
  qed
  ultimately show ?thesis using v m
    by (auto simp: validate_ok loopback_name_iff c applyDefaults_def DefaultMaxContentLength_def)
qed

definition sample_config :: config where
  "sample_config = zero_config
     \<lparr>OperatorPubkey := ''op'', Prunables := [\<lparr>pn_Kind = 2200, pn_KeepFor = ''720h''\<rparr>]\<rparr>"

definition exact_share :: fraction_share where
  "exact_share f u s = f * u div s"

lemma config_load_safe_witness:
  "loopback_name (ListenHost (fst (config_load exact_share (\<lambda>_. Inr []) (\<lambda>_. Inr sample_config) ''control.toml''))) \<and>
   snd (config_load exact_share (\<lambda>_. Inr []) (\<lambda>_. Inr sample_config) ''control.toml'') = None"
proof -
  have n: "snd (config_load exact_share (\<lambda>_. Inr []) (\<lambda>_. Inr sample_config) ''control.toml'') = None"
    by code_simp
  then have "config_load exact_share (\<lambda>_. Inr []) (\<lambda>_. Inr sample_config) ''control.toml'' =
      (fst (config_load exact_share (\<lambda>_. Inr []) (\<lambda>_. Inr sample_config) ''control.toml''), None)"
    by (metis prod.collapse)
  from config_load_safe [OF this] n show ?thesis by blast
qed

lemma v4_loopback: "IsLoopback (v4_in_v6 [a, b, c, d]) \<longleftrightarrow> a = 127"
  by (simp add: IsLoopback_def v4_in_v6_def eval_nat_numeral)

text \<open>Among the dotted IPv4 hosts the relay accepts exactly 127.0.0.0/8; the name \<open>localhost\<close>
  and the IPv6 loopback, in short, long and IPv4-mapped spelling, are accepted as well, and the
  unspecified addresses, the empty host, a zone, a host with a port and an octet with a leading zero
  are not.\<close>

theorem loopback_hosts:
  assumes "octet a" "octet b" "octet c" "octet d"
  shows "(isLoopbackHost (dotted a b c d) \<longleftrightarrow> a = 127) \<and>
    (\<forall>h \<in> set [''localhost'', ''::1'', ''0:0:0:0:0:0:0:1'', ''::ffff:127.0.0.1'', ''::ffff:7f00:1''].
       isLoopbackHost h) \<and>
    (\<forall>h \<in> set [[], ''::'', ''0.0.0.0'', ''::1%lo'', ''127.0.0.1:4848'', ''127.0.0.01'', ''LOCALHOST'', ''::ffff:10.0.0.1''].
       \<not> isLoopbackHost h)"
proof -
  have "hd (dotted a b c d) \<noteq> CHR ''l''"
    using itoa_digits [of a] assms(1)
    by (cases "itoa a") (auto simp: dotted_def octet_def is_digit_def byte_def)
  then have "dotted a b c d \<noteq> ''localhost''" by (metis list.sel(1))
  then have "isLoopbackHost (dotted a b c d) \<longleftrightarrow> a = 127"
    by (simp add: isLoopbackHost_def ParseIP_dotted [OF assms] v4_loopback)
  moreover have "\<forall>h \<in> set [''localhost'', ''::1'', ''0:0:0:0:0:0:0:1'', ''::ffff:127.0.0.1'', ''::ffff:7f00:1''].
       isLoopbackHost h"
    by code_simp
  moreover have "\<forall>h \<in> set [[], ''::'', ''0.0.0.0'', ''::1%lo'', ''127.0.0.1:4848'', ''127.0.0.01'', ''LOCALHOST'', ''::ffff:10.0.0.1''].
       \<not> isLoopbackHost h"
    by code_simp
  ultimately show ?thesis by blast
qed

lemma loopback_hosts_witness: "\<not> isLoopbackHost (dotted 192 168 0 1) \<and> isLoopbackHost (dotted 127 0 0 53)"
proof -
  have "octet 192" "octet 168" "octet 0" "octet 1" "octet 127" "octet 53" by (simp_all add: octet_def)
  then show ?thesis
    using loopback_hosts [of 192 168 0 1, THEN conjunct1] loopback_hosts [of 127 0 0 53, THEN conjunct1]
    by simp
qed

text \<open>\<open>Load\<close> reports, in this order, a file that cannot be read or parsed (returning the default
  configuration), a missing operator, a given host that is not loopback, a given port out of range and
  the first retention entry that does not parse. Unset fields got their defaults before, which are
  valid, and settings that were given are kept.\<close>

theorem config_load_errors:
  "config_load share read_file unmarshal path =
     (case toml_load read_file unmarshal path ''config'' of
        Inl e \<Rightarrow> (Default, Some (TomlError e))
      | Inr raw \<Rightarrow>
          (applyDefaults raw,
           if OperatorPubkey raw = [] then Some OperatorRequired
           else if ListenHost raw \<noteq> [] \<and> \<not> isLoopbackHost (ListenHost raw) then Some (NotLoopback (ListenHost raw))
           else if ListenPort raw < 0 \<or> ListenPort raw > 65535 then Some (PortOutOfRange (ListenPort raw))
           else map_option (\<lambda>p. BadKeepFor (pn_Kind p) (pn_KeepFor p)) (first_bad share (Prunables raw))))"
proof -
  have dflt: "isLoopbackHost DefaultListenHost" by code_simp
  have "config_validate share (applyDefaults raw) =
      (if OperatorPubkey raw = [] then Some OperatorRequired
       else if ListenHost raw \<noteq> [] \<and> \<not> isLoopbackHost (ListenHost raw) then Some (NotLoopback (ListenHost raw))
       else if ListenPort raw < 0 \<or> ListenPort raw > 65535 then Some (PortOutOfRange (ListenPort raw))
       else map_option (\<lambda>p. BadKeepFor (pn_Kind p) (pn_KeepFor p)) (first_bad share (Prunables raw)))" for raw
    using dflt by (auto simp: validate_cases applyDefaults_def DefaultListenPort_def)
  then show ?thesis by (simp add: config_load_def Let_def split: sum.split)
qed

end
