(* ===== verification/EventStore.thy ===== *)
theory EventStore
  imports Nostr
begin

text \<open>
  The event store of the relay is badger behind the \<open>eventstore\<close> interface, code outside the
  repository: the record \<open>estore\<close> of its operations, over an unspecified type of states. The
  locale \<open>event_store\<close> states what the interface documents: a query returns stored events that
  match the filter (not necessarily all of them: the backend has a limit), saving adds the event it is
  given, replacing adds it and removes at most events of the same author and kind, a deletion removes the
  event it is given.
\<close>

record 'e estore =
  es_init :: "'e \<Rightarrow> bytes option \<times> 'e"
  es_query :: "'e \<Rightarrow> nostr_filter \<Rightarrow> bytes + event list"
  es_save :: "'e \<Rightarrow> event \<Rightarrow> bytes option \<times> 'e"
  es_replace :: "'e \<Rightarrow> event \<Rightarrow> bytes option \<times> 'e"
  es_delete :: "'e \<Rightarrow> event \<Rightarrow> bytes option \<times> 'e"
  es_count :: "('e \<Rightarrow> nostr_filter \<Rightarrow> bytes + int) option"  \<comment> \<open>the optional \<open>CountEvents\<close>\<close>
  es_close :: "'e \<Rightarrow> 'e"

definition kind_filter :: "int \<Rightarrow> nostr_filter" where
  "kind_filter k = \<lparr>f_ids = [], f_kinds = [k], f_authors = [], f_since = None\<rparr>"

definition empty_filter :: nostr_filter where
  "empty_filter = \<lparr>f_ids = [], f_kinds = [], f_authors = [], f_since = None\<rparr>"

text \<open>The event matches the filter (NIP-01), as far as a filter is modelled.\<close>

definition matches :: "nostr_filter \<Rightarrow> event \<Rightarrow> bool" where
  "matches f ev \<longleftrightarrow>
     (f_ids f = [] \<or> ev_id ev \<in> set (f_ids f)) \<and> (f_kinds f = [] \<or> ev_kind ev \<in> set (f_kinds f)) \<and>
     (f_authors f = [] \<or> ev_pubkey ev \<in> set (f_authors f)) \<and>
     (case f_since f of None \<Rightarrow> True | Some t \<Rightarrow> t \<le> ev_created_at ev)"

locale event_store =
  fixes E :: "'e estore" and stored :: "'e \<Rightarrow> event set"
  assumes query_law: "es_query E s f = Inr evs \<Longrightarrow> ev \<in> set evs \<Longrightarrow> ev \<in> stored s \<and> matches f ev"
    and save_law: "es_save E s ev = (None, s') \<Longrightarrow> stored s' = insert ev (stored s)"
    and save_error: "es_save E s ev = (Some e, s') \<Longrightarrow> stored s' = stored s"
    and replace_law: "es_replace E s ev = (r, s') \<Longrightarrow> stored s' \<subseteq> insert ev (stored s) \<and>
      (\<forall>x \<in> stored s - stored s'. ev_kind x = ev_kind ev \<and> ev_pubkey x = ev_pubkey ev)"
    and delete_law: "es_delete E s ev = (None, s') \<Longrightarrow> stored s' = stored s - {ev}"
    and delete_error: "es_delete E s ev = (Some e, s') \<Longrightarrow> stored s' = stored s"

lemma matches_kind [simp]: "matches (kind_filter k) ev \<longleftrightarrow> ev_kind ev = k"
  by (auto simp: matches_def kind_filter_def)

subsection \<open>A store in memory\<close>

text \<open>A list of events and the limit a query stops at.\<close>

definition same_address :: "event \<Rightarrow> event \<Rightarrow> bool" where
  "same_address ev x \<longleftrightarrow>
     ev_kind x = ev_kind ev \<and> ev_pubkey x = ev_pubkey ev \<and>
     filter (\<lambda>t. take 1 t = [''d'']) (ev_tags x) = filter (\<lambda>t. take 1 t = [''d'']) (ev_tags ev)"

definition list_store :: "nat \<Rightarrow> event list estore" where
  "list_store limit =
     \<lparr>es_init = (\<lambda>s. (None, s)),
      es_query = (\<lambda>s f. Inr (take limit (filter (matches f) s))),
      es_save = (\<lambda>s ev. if ev \<in> set s then (Some ''duplicate: event already exists'', s) else (None, s @ [ev])),
      es_replace = (\<lambda>s ev. (None, filter (\<lambda>x. \<not> same_address ev x) s @ [ev])),
      es_delete = (\<lambda>s ev. (None, filter (\<lambda>x. x \<noteq> ev) s)),
      es_count = Some (\<lambda>s f. Inr (int (length (filter (matches f) s)))),
      es_close = (\<lambda>s. s)\<rparr>"

lemma list_event_store: "event_store (list_store limit) set"
  by unfold_locales
    (auto simp: list_store_def same_address_def dest!: in_set_takeD split: if_splits)

interpretation ls: event_store "list_store 5000" set
  by (rule list_event_store)

end
