(* ===== verification/Relay.thy ===== *)
theory Relay
  imports PolicyProps EventProtocol RelayConfig EventStore
begin

text \<open>
  \<open>src/internal/relay/server.go\<close>: assembling the relay from its configuration, the hooks that gate
  writes, reads and connections, the NIP-86 management calls and the retention pruner.

  \<open>khatru\<close> calls the hooks; its own policies and library functions the hooks use are the record
  \<open>relay_ext\<close>. The context of a call is modelled by what the code reads from it, the key that
  \<open>khatru.GetAuthed\<close> returns (empty when nobody authenticated). A hook returns Go's pair of
  flag and message, together with whether it called \<open>khatru.RequestAuth\<close>.
\<close>

type_synonym hook_result = "bool \<times> bytes \<times> bool"

record relay_info =
  in_Name :: bytes
  in_Description :: bytes
  in_Icon :: bytes
  in_Software :: bytes
  in_Version :: bytes
  in_PubKey :: bytes
  in_NIPs :: "int list"

record relay_ext =
  rx_ext :: ext
  rx_new_info :: relay_info                       \<comment> \<open>\<open>khatru.NewRelay().Info\<close>\<close>
  rx_add_nips :: "int list \<Rightarrow> int list \<Rightarrow> int list"  \<comment> \<open>\<open>Info.AddSupportedNIPs\<close>\<close>
  rx_valid_key :: "bytes \<Rightarrow> bool"                 \<comment> \<open>\<open>nostr.IsValidPublicKey\<close>\<close>
  rx_validate_kind :: "event \<Rightarrow> bool \<times> bytes"      \<comment> \<open>\<open>policies.ValidateKind\<close>\<close>
  rx_no_future :: "int \<Rightarrow> event \<Rightarrow> bool \<times> bytes"   \<comment> \<open>\<open>policies.PreventTimestampsInTheFuture\<close>, ns\<close>
  rx_no_empty :: "nostr_filter \<Rightarrow> bool \<times> bytes"    \<comment> \<open>\<open>policies.NoEmptyFilters\<close>\<close>
  rx_no_complex :: "nostr_filter \<Rightarrow> bool \<times> bytes"  \<comment> \<open>\<open>policies.NoComplexFilters\<close>\<close>

definition Software :: bytes where "Software = ''https://github.com/imattau/nostrhost-control''"
definition Version :: bytes where "Version = ''0.1.0''"

definition ProtectedKinds :: "int list" where
  "ProtectedKinds =
     [KindOperationRequest, KindOperationApproval, KindOperationRejection, KindExecutionStarted,
      KindExecutionResult, KindSystemEvent, KindServiceEvent, KindBackupEvent, KindSecurityEvent,
      KindCapability, KindTrustPolicy, KindIdentityDefinition, KindBuildAttestation,
      78, 30078, 10002, 30000, 30002, 30267, 10006]"

record 'd server =
  sv_policy :: "'d store"
  sv_cfg :: config
  sv_info :: relay_info
  sv_ServiceURL :: bytes
  sv_Negentropy :: bool
  sv_MaxLimit :: int
  sv_pruners :: "int \<rightharpoonup> int"

subsection \<open>Assembling the relay\<close>

datatype relay_error =
    OpenPolicyFailed bytes
  | SyncAdminsFailed bytes
  | SyncAgentsFailed bytes
  | PruneFailed config_error

definition adminsFrom :: "config \<Rightarrow> bytes list" where
  "adminsFrom cfg = AdminPubkeys cfg @ (if OperatorPubkey cfg \<noteq> [] then [OperatorPubkey cfg] else [])"

text \<open>\<open>if nostr.IsValidPublicKey(key) { _ = pol.Allow(key, reason) }\<close>\<close>

definition allow_valid ::
  "relay_ext \<Rightarrow> 'd bolt \<Rightarrow> bytes \<Rightarrow> bytes \<Rightarrow> 'd store \<Rightarrow> 'd store" where
  "allow_valid X B key reason p = (if rx_valid_key X key then snd (Allow B key reason p) else p)"

definition or_stored :: "bytes \<Rightarrow> bytes \<Rightarrow> bytes" where
  "or_stored stored configured = (if stored \<noteq> [] then stored else configured)"

definition relay_info_of :: "relay_ext \<Rightarrow> 'd bolt \<Rightarrow> config \<Rightarrow> 'd store \<Rightarrow> relay_info" where
  "relay_info_of X B cfg p = (rx_new_info X)
     \<lparr>in_Name := or_stored (GetRelayInfo B p ''name'') (Name cfg),
      in_Description := or_stored (GetRelayInfo B p ''description'') (Description cfg),
      in_Icon := or_stored (GetRelayInfo B p ''icon'') (Icon cfg),
      in_Software := Software, in_Version := Version,
      in_NIPs := rx_add_nips X [1, 9, 11, 42, 70, 77, 86, 98] (in_NIPs (rx_new_info X)),
      in_PubKey := (if rx_valid_key X (OperatorPubkey cfg) then OperatorPubkey cfg
                    else in_PubKey (rx_new_info X))\<rparr>"

text \<open>The policy store before and after the administrators are synchronised, and the writers that
  are allowed afterwards.\<close>

definition agent_keys :: "relay_ext \<Rightarrow> config \<Rightarrow> bytes list" where
  "agent_keys X cfg = filter (rx_valid_key X) (AgentPubkeys cfg)"

text \<open>On an error after the store was opened the code closes it: the second component is the store
  that is left behind.\<close>

definition New ::
  "relay_ext \<Rightarrow> 'd bolt \<Rightarrow> (bytes list \<Rightarrow> bytes list) \<Rightarrow> fraction_share \<Rightarrow> config
     \<Rightarrow> (relay_error \<times> 'd store option) + 'd server" where
  "New X B ord share cfg =
     (case Open B (PolicyDBPath cfg) (adminsFrom cfg) (AllowedKinds cfg) (AllowlistModeFlag cfg) of
        Inl e \<Rightarrow> Inl (OpenPolicyFailed e, None)
      | Inr p0 \<Rightarrow>
          let p1 = allow_valid X B (ServerPubkey cfg) ''server'' p0 in
          case SyncAdmins B ord (adminsFrom cfg) p1 of
            (Some e, p) \<Rightarrow> Inl (SyncAdminsFailed e, Some (snd (Close B p)))
          | (None, p2) \<Rightarrow>
              let p3 = allow_valid X B (NoticePubkey cfg) ''portal'' p2;
                  p4 = allow_valid X B (PublisherPubkey cfg) ''publisher'' p3 in
              case SyncAllowed B ord (agent_keys X cfg) ''agent'' p4 of
                (Some e, p) \<Rightarrow> Inl (SyncAgentsFailed e, Some (snd (Close B p)))
              | (None, p5) \<Rightarrow>
                  (case PruneDurations share cfg of
                     Inl e \<Rightarrow> Inl (PruneFailed e, Some (snd (Close B p5)))
                   | Inr m \<Rightarrow>
                       Inr \<lparr>sv_policy = p5, sv_cfg = cfg, sv_info = relay_info_of X B cfg p5,
                            sv_ServiceURL = ''ws://'' @ ListenHost cfg @ '':'' @ itoa (ListenPort cfg),
                            sv_Negentropy = True, sv_MaxLimit = 20000, sv_pruners = m\<rparr>))"

subsection \<open>Write policies\<close>

definition protectedKinds :: "'d server \<Rightarrow> int list" where
  "protectedKinds s = (case RequireAuthKinds (sv_cfg s) of Some ks \<Rightarrow> ks | None \<Rightarrow> ProtectedKinds)"

fun kindIn :: "int list \<Rightarrow> int \<Rightarrow> bool" where
  "kindIn [] kind = False"
| "kindIn (k # ks) kind = (if k = kind then True else kindIn ks kind)"

definition countEvents :: "'e estore \<Rightarrow> 'e \<Rightarrow> nostr_filter \<Rightarrow> bytes + int" where
  "countEvents E e f = (case es_count E of Some c \<Rightarrow> c e f | None \<Rightarrow> Inr 0)"

definition pass :: hook_result where "pass = (False, [], False)"
definition reject :: "bytes \<Rightarrow> hook_result" where "reject msg = (True, msg, False)"
definition challenge :: hook_result where
  "challenge = (True, ''auth-required: authentication required'', True)"

text \<open>A hook of the framework, which does not ask for authentication.\<close>

definition plain_hook :: "bool \<times> bytes \<Rightarrow> hook_result" where
  "plain_hook r = (fst r, snd r, False)"

definition rejectOversizedContent :: "'d server \<Rightarrow> event \<Rightarrow> hook_result" where
  "rejectOversizedContent s ev =
     (if int (length (ev_content ev)) > MaxContentLength (sv_cfg s) then reject ''content too large''
      else pass)"

definition rejectKindDenied :: "'d bolt \<Rightarrow> 'd server \<Rightarrow> event \<Rightarrow> hook_result" where
  "rejectKindDenied B s ev =
     (if \<not> KindAllowed B (sv_policy s) (ev_kind ev) then reject ''kind not allowed'' else pass)"

definition rejectWriterPolicy :: "'d bolt \<Rightarrow> 'd server \<Rightarrow> event \<Rightarrow> hook_result" where
  "rejectWriterPolicy B s ev =
     (if IsBanned B (sv_policy s) (ev_pubkey ev) then reject ''pubkey is banned''
      else if ev_kind ev = KindOperationApproval \<or> ev_kind ev = KindOperationRejection then pass
      else if AllowlistMode (sv_policy s) \<and> \<not> IsAllowed B (sv_policy s) (ev_pubkey ev)
        then reject ''pubkey not in allowlist''
      else pass)"

definition requireAuthPolicy :: "'d server \<Rightarrow> bytes \<Rightarrow> event \<Rightarrow> hook_result" where
  "requireAuthPolicy s authed ev =
     (if kindIn (protectedKinds s) (ev_kind ev) \<and> authed = [] then challenge else pass)"

definition validateEventModelPolicy :: "relay_ext \<Rightarrow> event \<Rightarrow> hook_result" where
  "validateEventModelPolicy X ev =
     (case Validate (rx_ext X) ev of Some e \<Rightarrow> reject (error_text e) | None \<Rightarrow> pass)"

definition KindExecutionProgress :: int where [kind_defs]: "KindExecutionProgress = 2205"

definition rejectUnauthorizedAuthorPolicy :: "'d bolt \<Rightarrow> 'd server \<Rightarrow> event \<Rightarrow> hook_result" where
  "rejectUnauthorizedAuthorPolicy B s ev =
     (if ev_kind ev \<in> {KindCapability, KindTrustPolicy, KindIdentityDefinition} then
        (if \<not> IsAdmin B (sv_policy s) (ev_pubkey ev) then reject ''author not authorized for kind'' else pass)
      else if ev_kind ev \<in> {KindExecutionStarted, KindExecutionResult, KindExecutionProgress} then
        (if ServerPubkey (sv_cfg s) \<noteq> [] \<and> ev_pubkey ev = ServerPubkey (sv_cfg s) then pass
         else if \<not> IsAdmin B (sv_policy s) (ev_pubkey ev)
           then reject ''execution events require the server key or an admin''
         else pass)
      else pass)"

definition ten_minutes :: int where "ten_minutes = 600000000000"

definition RejectEvent :: "relay_ext \<Rightarrow> 'd bolt \<Rightarrow> 'd server \<Rightarrow> (bytes \<Rightarrow> event \<Rightarrow> hook_result) list" where
  "RejectEvent X B s =
     [\<lambda>_ ev. plain_hook (rx_validate_kind X ev),
      \<lambda>_ ev. plain_hook (rx_no_future X ten_minutes ev),
      \<lambda>_ ev. rejectOversizedContent s ev,
      \<lambda>_ ev. rejectKindDenied B s ev,
      \<lambda>_ ev. rejectWriterPolicy B s ev,
      \<lambda>authed ev. requireAuthPolicy s authed ev,
      \<lambda>_ ev. rejectUnauthorizedAuthorPolicy B s ev,
      \<lambda>_ ev. validateEventModelPolicy X ev]"

subsection \<open>Read and connection policies\<close>

definition requireAuthForRead :: "'d server \<Rightarrow> bytes \<Rightarrow> nostr_filter \<Rightarrow> hook_result" where
  "requireAuthForRead s authed f =
     (case find (\<lambda>kind. kindIn (protectedKinds s) kind \<and> authed = []) (f_kinds f) of
        Some _ \<Rightarrow> challenge
      | None \<Rightarrow> pass)"

definition RejectFilter :: "relay_ext \<Rightarrow> 'd server \<Rightarrow> (bytes \<Rightarrow> nostr_filter \<Rightarrow> hook_result) list" where
  "RejectFilter X s =
     [\<lambda>authed f. requireAuthForRead s authed f,
      \<lambda>_ f. plain_hook (rx_no_empty X f),
      \<lambda>_ f. plain_hook (rx_no_complex X f)]"

definition RejectCountFilter :: "relay_ext \<Rightarrow> 'd server \<Rightarrow> (bytes \<Rightarrow> nostr_filter \<Rightarrow> hook_result) list" where
  "RejectCountFilter X s =
     [\<lambda>authed f. requireAuthForRead s authed f,
      \<lambda>_ f. plain_hook (rx_no_empty X f),
      \<lambda>_ f. plain_hook (rx_no_complex X f)]"

definition rejectBlockedIP :: "'d bolt \<Rightarrow> 'd server \<Rightarrow> bytes \<Rightarrow> bool" where
  "rejectBlockedIP B s remote_addr =
     (case split_host remote_addr of
        None \<Rightarrow> False
      | Some host \<Rightarrow> IsIPBlocked B (sv_policy s) host)"

text \<open>khatru stores an event, answers a filter and makes a call only when no hook of the list
  rejects; with several hooks the first rejection is the answer.\<close>

definition passes :: "(bytes \<Rightarrow> 'a \<Rightarrow> hook_result) list \<Rightarrow> bytes \<Rightarrow> 'a \<Rightarrow> bool" where
  "passes hooks authed x \<longleftrightarrow> list_all (\<lambda>h. \<not> fst (h authed x)) hooks"

definition first_rejection :: "(bytes \<Rightarrow> 'a \<Rightarrow> hook_result) list \<Rightarrow> bytes \<Rightarrow> 'a \<Rightarrow> hook_result option" where
  "first_rejection hooks authed x = find fst (map (\<lambda>h. h authed x) hooks)"

end
