(* ===== verification/RelayProps.thy ===== *)
theory RelayProps
  imports Relay
begin

text \<open>
  The properties of the relay's assembly and of its gates: what the write hooks let through, in
  terms of the policy the store holds; who is an administrator and who may write after \<open>New\<close>; what
  the read gate covers.
\<close>

lemma kindIn_iff [simp]: "kindIn ks k \<longleftrightarrow> k \<in> set ks"
  by (induction ks) auto

lemmas hook_results = pass_def reject_def challenge_def plain_hook_def

lemmas write_hooks = rejectOversizedContent_def rejectKindDenied_def rejectWriterPolicy_def
  requireAuthPolicy_def validateEventModelPolicy_def rejectUnauthorizedAuthorPolicy_def

text \<open>The kinds whose author the relay checks.\<close>

definition admin_kinds :: "int set" where
  "admin_kinds = {KindCapability, KindTrustPolicy, KindIdentityDefinition}"

definition execution_kinds :: "int set" where
  "execution_kinds = {KindExecutionStarted, KindExecutionResult, KindExecutionProgress}"

definition decision_kinds :: "int set" where
  "decision_kinds = {KindOperationApproval, KindOperationRejection}"

lemma author_kinds_disjoint: "admin_kinds \<inter> execution_kinds = {}"
  by (simp add: admin_kinds_def execution_kinds_def kind_defs)

definition author_ok :: "policy \<Rightarrow> config \<Rightarrow> event \<Rightarrow> bool" where
  "author_ok p cfg ev \<longleftrightarrow>
     (ev_kind ev \<in> admin_kinds \<longrightarrow> ev_pubkey ev \<in> p_admins p) \<and>
     (ev_kind ev \<in> execution_kinds \<longrightarrow>
        ev_pubkey ev \<in> p_admins p \<or> (ev_pubkey ev = ServerPubkey cfg \<and> ServerPubkey cfg \<noteq> []))"

definition writer_ok :: "policy \<Rightarrow> event \<Rightarrow> bool" where
  "writer_ok p ev \<longleftrightarrow>
     p_banned p (ev_pubkey ev) = None \<and>
     (p_allowlist p \<and> ev_kind ev \<notin> decision_kinds \<longrightarrow> p_allowed p (ev_pubkey ev) \<noteq> None)"

lemma author_hook:
  assumes "bolt_db B ok" "store_open B ok (sv_policy s)"
  shows "fst (rejectUnauthorizedAuthorPolicy B s ev) \<longleftrightarrow>
    \<not> author_ok (policy_of B (sv_policy s)) (sv_cfg s) ev"
proof -
  have "ev_kind ev \<in> admin_kinds \<Longrightarrow> ev_kind ev \<notin> execution_kinds" using author_kinds_disjoint by blast
  then show ?thesis
    unfolding rejectUnauthorizedAuthorPolicy_def admin_kinds_def [symmetric]
      execution_kinds_def [symmetric] author_ok_def store_policy [OF assms]
    by (simp add: hook_results)
qed

lemma writer_hook:
  assumes "bolt_db B ok" "store_open B ok (sv_policy s)"
  shows "fst (rejectWriterPolicy B s ev) \<longleftrightarrow> \<not> writer_ok (policy_of B (sv_policy s)) ev"
  unfolding writer_ok_def decision_kinds_def
  by (simp add: rejectWriterPolicy_def hook_results store_policy [OF assms])

lemma accepted:
  assumes "bolt_db B ok" "store_open B ok (sv_policy s)"
  shows "passes (RejectEvent X B s) authed ev \<longleftrightarrow>
    \<not> fst (rx_validate_kind X ev) \<and> \<not> fst (rx_no_future X ten_minutes ev) \<and>
    int (length (ev_content ev)) \<le> MaxContentLength (sv_cfg s) \<and>
    spec_kind_allowed (policy_of B (sv_policy s)) (ev_kind ev) \<and>
    writer_ok (policy_of B (sv_policy s)) ev \<and>
    (ev_kind ev \<in> set (protectedKinds s) \<longrightarrow> authed \<noteq> []) \<and>
    author_ok (policy_of B (sv_policy s)) (sv_cfg s) ev \<and> Validate (rx_ext X) ev = None"
  unfolding passes_def RejectEvent_def list.pred_inject author_hook [OF assms] writer_hook [OF assms]
  by (auto simp: rejectOversizedContent_def rejectKindDenied_def requireAuthPolicy_def
      validateEventModelPolicy_def hook_results store_policy [OF assms] split: option.splits)

subsection \<open>What \<open>New\<close> leaves behind\<close>

text \<open>The kind buckets of an existing policy file hold formatted integers.\<close>

definition file_ok :: "'d bolt \<Rightarrow> bytes \<Rightarrow> bool" where
  "file_ok B path \<longleftrightarrow>
     (\<forall>d. bk_open B path = Inr d \<longrightarrow>
        dom (opened B d bucketKindsAllowed) \<subseteq> range itoa \<and> dom (opened B d bucketKindsDenied) \<subseteq> range itoa)"

definition configured_admins :: "config \<Rightarrow> bytes set" where
  "configured_admins cfg = (set (AdminPubkeys cfg) \<union> {OperatorPubkey cfg}) - {[]}"

lemma adminsFrom_set: "wanted_set (adminsFrom cfg) = configured_admins cfg"
  by (auto simp: wanted_set_def adminsFrom_def configured_admins_def)

context store_impl
begin

lemma allow_valid_open: "store_open B ok p \<Longrightarrow> store_open B ok (allow_valid X B k r p)"
  using pc.run_inv [of p "DoAllow k r"] by (auto simp: allow_valid_def) (metis prod.collapse)

lemma allow_valid_view:
  assumes "store_open B ok p"
  shows "policy_of B (allow_valid X B k r p) = policy_of B p \<or>
    rx_valid_key X k \<and> policy_of B (allow_valid X B k r p) = spec_op (DoAllow k r) (policy_of B p)"
proof -
  obtain e p' where q: "run_op B ord (DoAllow k r) p = (e, p')" by fastforce
  then show ?thesis
    using op_done [OF assms, of "DoAllow k r" p'] op_failed [of "DoAllow k r" p]
    by (cases e) (auto simp: allow_valid_def)
qed

lemma allow_valid_done:
  assumes "store_open B ok p" "commits B" "rx_valid_key X k" "storable k r"
  shows "policy_of B (allow_valid X B k r p) = spec_op (DoAllow k r) (policy_of B p)"
proof -
  obtain e p' where q: "run_op B ord (DoAllow k r) p = (e, p')" by fastforce
  moreover have "e = None" using op_succeeds [OF assms(2,1), of "DoAllow k r"] assms(4) q
    by (simp add: op_storable_def)
  ultimately show ?thesis using op_done [OF assms(1), of "DoAllow k r" p'] assms(3)
    by (simp add: allow_valid_def)
qed

text \<open>The stores that \<open>New\<close> goes through.\<close>

lemma new_trace:
  assumes "New X B ord share cfg = Inr s" "file_ok B (PolicyDBPath cfg)"
  obtains d es p0 p2 p4 where
    "bk_open B (PolicyDBPath cfg) = Inr d" "store_open B ok p0"
    "policy_of B p0 = fold spec_op (succeeded (seed_ops (adminsFrom cfg) (AllowedKinds cfg)) (es :: bytes option list))
       (policy_in (opened B d) (AllowlistModeFlag cfg))"
    "AllowlistMode p0 = AllowlistModeFlag cfg"
    "store_open B ok p2" "policy_of B p2 = spec_op (DoSyncAdmins (adminsFrom cfg))
       (policy_of B (allow_valid X B (ServerPubkey cfg) ''server'' p0))"
    "p4 = allow_valid X B (PublisherPubkey cfg) ''publisher'' (allow_valid X B (NoticePubkey cfg) ''portal'' p2)"
    "store_open B ok p4" "store_open B ok (sv_policy s)"
    "policy_of B (sv_policy s) = spec_op (DoSyncAllowed (agent_keys X cfg) ''agent'') (policy_of B p4)"
    "sv_cfg s = cfg" "sv_info s = relay_info_of X B cfg (sv_policy s)"
proof -
  obtain p0 where o: "Open B (PolicyDBPath cfg) (adminsFrom cfg) (AllowedKinds cfg) (AllowlistModeFlag cfg) = Inr p0"
    using assms(1) by (auto simp: New_def split: sum.splits)
  let ?p1 = "allow_valid X B (ServerPubkey cfg) ''server'' p0"
  obtain p2 where a: "SyncAdmins B ord (adminsFrom cfg) ?p1 = (None, p2)"
    using assms(1) o by (auto simp: New_def Let_def split: prod.splits option.splits)
  let ?p4 = "allow_valid X B (PublisherPubkey cfg) ''publisher'' (allow_valid X B (NoticePubkey cfg) ''portal'' p2)"
  obtain p5 where w: "SyncAllowed B ord (agent_keys X cfg) ''agent'' ?p4 = (None, p5)"
    and s: "sv_policy s = p5" "sv_cfg s = cfg" "sv_info s = relay_info_of X B cfg p5"
    using assms(1) o a by (auto simp: New_def Let_def split: prod.splits option.splits sum.splits)
  obtain d where d: "bk_open B (PolicyDBPath cfg) = Inr d"
    using o by (auto simp: Open_def split: sum.splits)
  note k = assms(2) [unfolded file_ok_def, rule_format, OF d]
  obtain s0 where s0: "store_open B ok s0" "policy_of B s0 = policy_in (opened B d) (AllowlistModeFlag cfg)"
    "p0 = snd (run_ops (run_op B ord) (seed_ops (adminsFrom cfg) (AllowedKinds cfg)) s0)"
    using open_reads [OF d _ _ o] k by blast
  obtain es where es: "run_ops (run_op B ord) (seed_ops (adminsFrom cfg) (AllowedKinds cfg)) s0 = (es, p0)"
    using s0(3) by (metis prod.collapse)
  note r0 = pc.run_ops_refines [OF s0(1) es]
  have al: "AllowlistMode p0 = AllowlistModeFlag cfg"
    using open_allowlist [OF o] .
  have o1: "store_open B ok ?p1" using r0 allow_valid_open by simp
  have r2: "store_open B ok p2 \<and> policy_of B p2 = spec_op (DoSyncAdmins (adminsFrom cfg)) (policy_of B ?p1)"
    using op_done [OF o1, of "DoSyncAdmins (adminsFrom cfg)" p2] a by simp
  then have o4: "store_open B ok ?p4" using allow_valid_open by simp
  have r5: "store_open B ok p5 \<and> policy_of B p5 = spec_op (DoSyncAllowed (agent_keys X cfg) ''agent'') (policy_of B ?p4)"
    using op_done [OF o4, of "DoSyncAllowed (agent_keys X cfg) ''agent''" p5] w by simp
  show ?thesis using that [OF d _ _ al _ _ refl o4 _ _ s(2)] r0 r2 r5 s0(2) s(1,3) by simp
qed

end

section \<open>Properties\<close>

subsection \<open>Writes\<close>

text \<open>C3: The write hooks let an event through exactly when khatru's two policies do, its content is
  within the limit, its kind is allowed and its author not banned and, in allowlist mode and unless
  the event decides a request, allowed, an authenticated connection sent it if its kind is protected,
  its author may sign its kind, and the event model accepts it.\<close>

theorem event_gate:
  assumes "bolt_db B ok" and "store_open B ok (sv_policy s)"
  shows "passes (RejectEvent X B s) authed ev \<longleftrightarrow>
    \<not> fst (rx_validate_kind X ev) \<and> \<not> fst (rx_no_future X ten_minutes ev) \<and>
    int (length (ev_content ev)) \<le> MaxContentLength (sv_cfg s) \<and>
    spec_kind_allowed (policy_of B (sv_policy s)) (ev_kind ev) \<and>
    writer_ok (policy_of B (sv_policy s)) ev \<and>
    (ev_kind ev \<in> set (protectedKinds s) \<longrightarrow> authed \<noteq> []) \<and>
    author_ok (policy_of B (sv_policy s)) (sv_cfg s) ev \<and> Validate (rx_ext X) ev = None"
  by (rule accepted [OF assms])

subsection \<open>The assembled relay\<close>

context store_impl
begin

lemma final_admins:
  assumes "New X B ord share cfg = Inr s" "file_ok B (PolicyDBPath cfg)"
  shows "store_open B ok (sv_policy s) \<and> sv_cfg s = cfg \<and>
    p_admins (policy_of B (sv_policy s)) = configured_admins cfg"
proof (rule new_trace [OF assms])
  fix d es p0 p2 p4
  assume p2: "store_open B ok p2"
      "policy_of B p2 = spec_op (DoSyncAdmins (adminsFrom cfg))
        (policy_of B (allow_valid X B (ServerPubkey cfg) ''server'' p0))"
    and p4: "p4 = allow_valid X B (PublisherPubkey cfg) ''publisher'' (allow_valid X B (NoticePubkey cfg) ''portal'' p2)"
    and s: "store_open B ok (sv_policy s)" "sv_cfg s = cfg"
      "policy_of B (sv_policy s) = spec_op (DoSyncAllowed (agent_keys X cfg) ''agent'') (policy_of B p4)"
  have keep: "p_admins (policy_of B (allow_valid X B k r p)) = p_admins (policy_of B p)"
    if "store_open B ok p" for k r p
    using allow_valid_view [OF that, of X k r] by auto
  have "p_admins (policy_of B p4) = p_admins (policy_of B p2)"
    using keep p2(1) allow_valid_open p4 by simp
  then show ?thesis using s p2(2) by (simp add: adminsFrom_set)
qed

lemma allow_valid_allowed:
  assumes "store_open B ok p"
  shows "p_allowed (policy_of B (allow_valid X B k r p)) k' = p_allowed (policy_of B p) k' \<or>
    k' = k \<and> p_allowed (policy_of B (allow_valid X B k r p)) k' = Some r"
  using allow_valid_view [OF assms, of X k r] by (cases "k' = k") auto

lemma final_admins_allowed:
  assumes "New X B ord share cfg = Inr s" "file_ok B (PolicyDBPath cfg)" "k \<in> configured_admins cfg"
  shows "p_allowed (policy_of B (sv_policy s)) k \<noteq> None"
proof (rule new_trace [OF assms(1,2)])
  fix d es p0 p2 p4
  assume p2: "store_open B ok p2"
      "policy_of B p2 = spec_op (DoSyncAdmins (adminsFrom cfg))
        (policy_of B (allow_valid X B (ServerPubkey cfg) ''server'' p0))"
    and p4: "p4 = allow_valid X B (PublisherPubkey cfg) ''publisher'' (allow_valid X B (NoticePubkey cfg) ''portal'' p2)"
    and s: "policy_of B (sv_policy s) = spec_op (DoSyncAllowed (agent_keys X cfg) ''agent'') (policy_of B p4)"
  let ?p3 = "allow_valid X B (NoticePubkey cfg) ''portal'' p2"
  have "p_allowed (policy_of B p2) k = Some ''admin''"
    using p2(2) assms(3) by (simp add: adminsFrom_set)
  then have "p_allowed (policy_of B ?p3) k = Some ''admin'' \<or> p_allowed (policy_of B ?p3) k = Some ''portal''"
    using allow_valid_allowed [OF p2(1), of X "NoticePubkey cfg" "''portal''" k] by metis
  moreover have "p_allowed (policy_of B p4) k = p_allowed (policy_of B ?p3) k \<or>
      p_allowed (policy_of B p4) k = Some ''publisher''"
    using allow_valid_allowed [OF allow_valid_open [OF p2(1), of X "NoticePubkey cfg" "''portal''"], of X "PublisherPubkey cfg" "''publisher''" k] p4
    by metis
  ultimately have "p_allowed (policy_of B p4) k \<in> {Some ''admin'', Some ''portal'', Some ''publisher''}"
    by (metis insertI1 insertI2)
  then show ?thesis using s by auto
qed

end

text \<open>Whatever the policy file held, a relay that \<open>New\<close> assembled has exactly the configured
  administrators, each of them with an allow entry: a key removed from the configuration loses its
  authority at the next start.\<close>

theorem new_authority:
  assumes "store_impl B ok ord" and "file_ok B (PolicyDBPath cfg)" and "New X B ord share cfg = Inr s"
  shows "store_open B ok (sv_policy s) \<and>
    (IsAdmin B (sv_policy s) k \<longleftrightarrow> k \<noteq> [] \<and> (k \<in> set (AdminPubkeys cfg) \<or> k = OperatorPubkey cfg)) \<and>
    (IsAdmin B (sv_policy s) k \<longrightarrow> IsAllowed B (sv_policy s) k)"
proof -
  have "bolt_db B ok" using assms(1) by (simp add: store_impl_def)
  note f = store_impl.final_admins [OF assms(1,3,2)]
  note p = store_policy [OF \<open>bolt_db B ok\<close> conjunct1 [OF f]]
  show ?thesis using f store_impl.final_admins_allowed [OF assms(1,3,2), of k]
    by (auto simp: p configured_admins_def)
qed

text \<open>On a relay that \<open>New\<close> assembled, no event of a server-authoritative kind gets past the write
  hooks unless a configured administrator signed it: capability grants, trust policies and identity
  definitions always, execution events unless the configured server key signed them.\<close>

theorem new_forgery_safe:
  assumes "store_impl B ok ord" and "file_ok B (PolicyDBPath cfg)" and "New X B ord share cfg = Inr s"
    and "passes (RejectEvent X B s) authed ev"
  shows "(ev_kind ev \<in> admin_kinds \<longrightarrow> ev_pubkey ev \<in> configured_admins cfg) \<and>
    (ev_kind ev \<in> execution_kinds \<longrightarrow>
       ev_pubkey ev \<in> configured_admins cfg \<or> (ev_pubkey ev = ServerPubkey cfg \<and> ServerPubkey cfg \<noteq> [])) \<and>
    \<not> IsBanned B (sv_policy s) (ev_pubkey ev) \<and> Validate (rx_ext X) ev = None"
proof -
  have "bolt_db B ok" using assms(1) by (simp add: store_impl_def)
  note f = store_impl.final_admins [OF assms(1,3,2)]
  note p = store_policy [OF \<open>bolt_db B ok\<close> conjunct1 [OF f]]
  show ?thesis
    using assms(4) accepted [OF \<open>bolt_db B ok\<close> conjunct1 [OF f]] f
    by (auto simp: p author_ok_def writer_ok_def)
qed

subsection \<open>Reads\<close>

lemma read_hook:
  "fst (requireAuthForRead s authed f) \<longleftrightarrow> authed = [] \<and> (\<exists>k \<in> set (f_kinds f). k \<in> set (protectedKinds s))"
  by (auto simp: requireAuthForRead_def hook_results find_None_iff split: option.splits
      dest: find_Some_cases)

text \<open>A REQ and a COUNT pass the same gate: khatru's two filter policies, and an authenticated
  connection whenever the filter names a protected kind.\<close>

theorem read_gate:
  "(passes (RejectFilter X s) authed f \<longleftrightarrow>
     \<not> (authed = [] \<and> (\<exists>k. k \<in> set (f_kinds f) \<and> k \<in> set (protectedKinds s))) \<and>
     \<not> fst (rx_no_empty X f) \<and> \<not> fst (rx_no_complex X f)) \<and>
   (passes (RejectCountFilter X s) authed f \<longleftrightarrow> passes (RejectFilter X s) authed f)"
  by (auto simp: passes_def RejectFilter_def RejectCountFilter_def read_hook plain_hook_def)

text \<open>The gate looks at the kinds a filter names and not at the events it returns: a filter by
  author alone passes without authentication, as far as khatru's policies let it, and matches every
  protected event of that author.\<close>

theorem read_gap:
  assumes "f = \<lparr>f_ids = [], f_kinds = [], f_authors = [ev_pubkey ev], f_since = None\<rparr>"
    and "\<not> fst (rx_no_empty X f)" and "\<not> fst (rx_no_complex X f)"
    and "ev_kind ev \<in> set (protectedKinds s)"
  shows "passes (RejectFilter X s) [] f \<and> matches f ev"
  using assms by (simp add: passes_def RejectFilter_def read_hook plain_hook_def matches_def)

subsection \<open>Writers after a restart\<close>

lemma succeeded_seeds:
  assumes "c \<in> set (succeeded (seed_ops admins kinds) es)"
  shows "(\<exists>k. c = DoGrantAdmin k) \<or> (\<exists>k r. c = DoAllow k r) \<or> (\<exists>n. c = DoAllowKind n)"
proof -
  have "c \<in> set (seed_ops admins kinds)" using assms by (auto simp: succeeded_def dest: set_zip_leftD)
  then show ?thesis by (force simp: seed_ops_def split: if_splits)
qed

lemma fold_seeds:
  assumes "\<And>c. c \<in> set cs \<Longrightarrow> (\<exists>k. c = DoGrantAdmin k) \<or> (\<exists>k r. c = DoAllow k r) \<or> (\<exists>n. c = DoAllowKind n)"
  shows "p_admins p \<subseteq> p_admins (fold spec_op cs p) \<and> p_info (fold spec_op cs p) = p_info p"
  using assms by (induction cs arbitrary: p) fastforce+

lemma seeds_keep:
  "p_admins p \<subseteq> p_admins (fold spec_op (succeeded (seed_ops admins kinds) es) p) \<and>
   p_info (fold spec_op (succeeded (seed_ops admins kinds) es) p) = p_info p"
  by (rule fold_seeds) (rule succeeded_seeds)

context store_impl
begin

lemma final_server_key:
  assumes n: "New X B ord share cfg = Inr s" "file_ok B (PolicyDBPath cfg)"
    and d: "bk_open B (PolicyDBPath cfg) = Inr d" "opened B d bucketAdmins k \<noteq> None"
    and k: "k \<notin> configured_admins cfg" "k \<notin> {NoticePubkey cfg, PublisherPubkey cfg} \<union> set (AgentPubkeys cfg)"
  shows "p_allowed (policy_of B (sv_policy s)) k = None"
proof (rule new_trace [OF n])
  fix d' es p0 p2 p4
  assume d': "bk_open B (PolicyDBPath cfg) = Inr d'"
    and p0: "store_open B ok p0"
      "policy_of B p0 = fold spec_op (succeeded (seed_ops (adminsFrom cfg) (AllowedKinds cfg)) (es :: bytes option list))
        (policy_in (opened B d') (AllowlistModeFlag cfg))"
    and p2: "store_open B ok p2"
      "policy_of B p2 = spec_op (DoSyncAdmins (adminsFrom cfg))
        (policy_of B (allow_valid X B (ServerPubkey cfg) ''server'' p0))"
    and p4: "p4 = allow_valid X B (PublisherPubkey cfg) ''publisher'' (allow_valid X B (NoticePubkey cfg) ''portal'' p2)"
    and s: "policy_of B (sv_policy s) = spec_op (DoSyncAllowed (agent_keys X cfg) ''agent'') (policy_of B p4)"
  have "k \<in> p_admins (policy_in (opened B d') (AllowlistModeFlag cfg))"
    using d d' by (auto simp: policy_in_def)
  then have "k \<in> p_admins (policy_of B p0)" unfolding p0(2) by (rule subsetD [OF conjunct1 [OF seeds_keep]])
  then have "k \<in> p_admins (policy_of B (allow_valid X B (ServerPubkey cfg) ''server'' p0))"
    using allow_valid_view [OF p0(1), of X "ServerPubkey cfg" "''server''"] by auto
  then have "p_allowed (policy_of B p2) k = None" using p2(2) k(1) by (simp add: adminsFrom_set)
  then have "p_allowed (policy_of B p4) k = None"
    using allow_valid_allowed [OF allow_valid_open [OF p2(1)], of X "PublisherPubkey cfg" "''publisher''" X "NoticePubkey cfg" "''portal''" k]
      allow_valid_allowed [OF p2(1), of X "NoticePubkey cfg" "''portal''" k] k(2) p4 by auto
  then show ?thesis using s k(2) by (auto simp: wanted_set_def agent_keys_def)
qed

lemma final_info:
  assumes n: "New X B ord share cfg = Inr s" "file_ok B (PolicyDBPath cfg)"
    and d: "bk_open B (PolicyDBPath cfg) = Inr d"
  shows "sv_info s = relay_info_of X B cfg (sv_policy s) \<and>
    p_info (policy_of B (sv_policy s)) = opened B d bucketInfo"
proof (rule new_trace [OF n])
  fix d' es p0 p2 p4
  assume d': "bk_open B (PolicyDBPath cfg) = Inr d'"
    and p0: "store_open B ok p0"
      "policy_of B p0 = fold spec_op (succeeded (seed_ops (adminsFrom cfg) (AllowedKinds cfg)) (es :: bytes option list))
        (policy_in (opened B d') (AllowlistModeFlag cfg))"
    and p2: "store_open B ok p2"
      "policy_of B p2 = spec_op (DoSyncAdmins (adminsFrom cfg))
        (policy_of B (allow_valid X B (ServerPubkey cfg) ''server'' p0))"
    and p4: "p4 = allow_valid X B (PublisherPubkey cfg) ''publisher'' (allow_valid X B (NoticePubkey cfg) ''portal'' p2)"
    and s: "policy_of B (sv_policy s) = spec_op (DoSyncAllowed (agent_keys X cfg) ''agent'') (policy_of B p4)"
      "sv_info s = relay_info_of X B cfg (sv_policy s)"
  have keep: "p_info (policy_of B (allow_valid X B k r p)) = p_info (policy_of B p)"
    if "store_open B ok p" for k r p
    using allow_valid_view [OF that, of X k r] by auto
  have "p_info (policy_of B p4) = p_info (policy_of B p0)"
    using keep p0(1) p2 allow_valid_open p4 by simp
  also have "\<dots> = opened B d bucketInfo" using d d' unfolding p0(2) conjunct2 [OF seeds_keep] by (simp add: policy_in_def)
  finally show ?thesis using s by simp
qed

lemma final_mode:
  assumes "New X B ord share cfg = Inr s"
  shows "AllowlistMode (sv_policy s) = AllowlistModeFlag cfg"
proof -
  obtain p0 where o: "Open B (PolicyDBPath cfg) (adminsFrom cfg) (AllowedKinds cfg) (AllowlistModeFlag cfg) = Inr p0"
    using assms by (auto simp: New_def split: sum.splits)
  let ?p1 = "allow_valid X B (ServerPubkey cfg) ''server'' p0"
  obtain p2 where a: "SyncAdmins B ord (adminsFrom cfg) ?p1 = (None, p2)"
    using assms o by (auto simp: New_def Let_def split: prod.splits option.splits)
  let ?p4 = "allow_valid X B (PublisherPubkey cfg) ''publisher'' (allow_valid X B (NoticePubkey cfg) ''portal'' p2)"
  have w: "SyncAllowed B ord (agent_keys X cfg) ''agent'' ?p4 = (None, sv_policy s)"
    using assms o a by (auto simp: New_def Let_def split: prod.splits option.splits sum.splits)
  have keep: "st_allowlist (allow_valid X B k r p) = st_allowlist p" for k r p
    using op_allowlist [of B ord "DoAllow k r" p] by (simp add: allow_valid_def)
  have "st_allowlist (sv_policy s) = st_allowlist ?p4"
    using op_allowlist [of B ord "DoSyncAllowed (agent_keys X cfg) ''agent''" ?p4] w by simp
  also have "\<dots> = st_allowlist ?p1"
    using op_allowlist [of B ord "DoSyncAdmins (adminsFrom cfg)" ?p1] a by (simp add: keep)
  finally show ?thesis using open_allowlist [OF o] by (simp add: keep AllowlistMode_def)
qed

lemma allow_valid_banned:
  assumes "store_open B ok p" "p_banned (policy_of B p) k' = None"
  shows "p_banned (policy_of B (allow_valid X B k r p)) k' = None"
  using allow_valid_view [OF assms(1), of X k r] assms(2) by auto

lemma allow_valid_keeps:
  assumes "store_open B ok p" "p_allowed (policy_of B p) k' = Some q" "q \<noteq> ''agent''" "r \<noteq> ''agent''"
  shows "\<exists>q'. p_allowed (policy_of B (allow_valid X B k r p)) k' = Some q' \<and> q' \<noteq> ''agent''"
  using allow_valid_allowed [OF assms(1), of X k r k'] assms(2-4) by metis

lemma final_writers:
  assumes n: "New X B ord share cfg = Inr s" "file_ok B (PolicyDBPath cfg)" "commits B"
    and k: "k \<in> {NoticePubkey cfg, PublisherPubkey cfg} \<union> set (AgentPubkeys cfg)" "rx_valid_key X k"
    and st: "storable k ''portal''" "storable k ''publisher''" "k \<noteq> []"
  shows "p_allowed (policy_of B (sv_policy s)) k \<noteq> None \<and> p_banned (policy_of B (sv_policy s)) k = None"
proof (rule new_trace [OF n(1,2)])
  fix d es p0 p2 p4
  assume p2: "store_open B ok p2"
    and p4: "p4 = allow_valid X B (PublisherPubkey cfg) ''publisher'' (allow_valid X B (NoticePubkey cfg) ''portal'' p2)"
    and s: "policy_of B (sv_policy s) = spec_op (DoSyncAllowed (agent_keys X cfg) ''agent'') (policy_of B p4)"
  let ?p3 = "allow_valid X B (NoticePubkey cfg) ''portal'' p2"
  have o3: "store_open B ok ?p3" by (rule allow_valid_open [OF p2])
  have writer: "(\<exists>q. p_allowed (policy_of B p4) k = Some q \<and> q \<noteq> ''agent'') \<and> p_banned (policy_of B p4) k = None"
    if "k = NoticePubkey cfg \<or> k = PublisherPubkey cfg"
  proof (cases "k = PublisherPubkey cfg")
    case True
    then show ?thesis using allow_valid_done [OF o3 n(3) _ st(2), of X] k(2) p4 by simp
  next
    case False
    then have "p_allowed (policy_of B ?p3) k = Some ''portal''" "p_banned (policy_of B ?p3) k = None"
      using that allow_valid_done [OF p2 n(3) _ st(1), of X] k(2) by simp_all
    then show ?thesis using allow_valid_keeps [OF o3, of k "''portal''" "''publisher''" X "PublisherPubkey cfg"]
        allow_valid_banned [OF o3, of k X "PublisherPubkey cfg" "''publisher''"] p4 by simp
  qed
  show ?thesis
  proof (cases "k \<in> set (agent_keys X cfg)")
    case True then show ?thesis using s st(3) by (simp add: wanted_set_def)
  next
    case False
    then have "k = NoticePubkey cfg \<or> k = PublisherPubkey cfg" using k by (auto simp: agent_keys_def)
    from writer [OF this] show ?thesis using s False by (auto simp: wanted_set_def)
  qed
qed

end

text \<open>When commits succeed, the configured notice key, publisher key and agents that are valid
  public keys can write after \<open>New\<close>: they are in the allow set and not banned, even if the policy file
  had banned them, and none of them became an administrator by it.\<close>

theorem new_writers:
  assumes "store_impl B ok ord" and "file_ok B (PolicyDBPath cfg)" and "commits B"
    and "New X B ord share cfg = Inr s"
    and "k \<in> {NoticePubkey cfg, PublisherPubkey cfg} \<union> set (AgentPubkeys cfg)" and "rx_valid_key X k"
    and "k \<noteq> []" and "int (length k) \<le> 32768"
  shows "IsAllowed B (sv_policy s) k \<and> \<not> IsBanned B (sv_policy s) k \<and>
    (k \<notin> configured_admins cfg \<longrightarrow> \<not> IsAdmin B (sv_policy s) k)"
proof -
  have "bolt_db B ok" using assms(1) by (simp add: store_impl_def)
  note f = store_impl.final_admins [OF assms(1,4,2)]
  note p = store_policy [OF \<open>bolt_db B ok\<close> conjunct1 [OF f]]
  have "storable k ''portal''" "storable k ''publisher''" using assms(7,8) by (simp_all add: storable_def)
  from store_impl.final_writers [OF assms(1,4,2,3,5,6) this assms(7)] f show ?thesis by (simp add: p)
qed

text \<open>The order of the steps in \<open>New\<close> costs the server its own writer entry after a role change: a
  server key that the policy file still lists as an administrator, and that is no longer one in the
  configuration, was allowed before the administrators were synchronised, and synchronising removes
  that entry. In allowlist mode the relay then rejects the execution events of its own executor.\<close>

theorem new_server_key_revoked:
  assumes "store_impl B ok ord" and "file_ok B (PolicyDBPath cfg)" and "New X B ord share cfg = Inr s"
    and "bk_open B (PolicyDBPath cfg) = Inr d" and "opened B d bucketAdmins (ServerPubkey cfg) \<noteq> None"
    and "ServerPubkey cfg \<notin> configured_admins cfg"
    and "ServerPubkey cfg \<notin> {NoticePubkey cfg, PublisherPubkey cfg} \<union> set (AgentPubkeys cfg)"
  shows "\<not> IsAllowed B (sv_policy s) (ServerPubkey cfg) \<and>
    (AllowlistModeFlag cfg \<and> ev_pubkey ev = ServerPubkey cfg \<and> ev_kind ev \<notin> decision_kinds \<longrightarrow>
       \<not> passes (RejectEvent X B s) authed ev)"
proof -
  have "bolt_db B ok" using assms(1) by (simp add: store_impl_def)
  note f = store_impl.final_admins [OF assms(1,3,2)]
  note p = store_policy [OF \<open>bolt_db B ok\<close> conjunct1 [OF f]]
  have "p_allowlist (policy_of B (sv_policy s)) = AllowlistModeFlag cfg"
    using store_impl.final_mode [OF assms(1,3)] by (simp add: p(7) [symmetric])
  then show ?thesis
    using store_impl.final_server_key [OF assms(1,3,2,4-7)] accepted [OF \<open>bolt_db B ok\<close> conjunct1 [OF f]]
    by (auto simp: p writer_ok_def)
qed

subsection \<open>An assembled relay for the witnesses\<close>

text \<open>The policy file still lists the key \<open>op\<close> as administrator; the configuration has made it the
  server key.\<close>

definition old_disk :: mem where
  "old_disk = \<lparr>mem_closed = False, mem_buckets =
     [(bucketAdmins, [(''op'', ''granted'')]), (bucketAllowed, [(''op'', ''admin'')]),
      (bucketKindsAllowed, [(''1'', [])]), (bucketBanned, []), (bucketKindsDenied, []),
      (bucketIPs, []), (bucketInfo, [])]\<rparr>"

abbreviation olddb :: "mem bolt" where "olddb \<equiv> mem_bolt old_disk"

definition sample_relay_ext :: relay_ext where
  "sample_relay_ext =
     \<lparr>rx_ext = sample_ext,
      rx_new_info = \<lparr>in_Name = [], in_Description = [], in_Icon = [], in_Software = [], in_Version = [],
                     in_PubKey = [], in_NIPs = []\<rparr>,
      rx_add_nips = (\<lambda>new old. old @ new), rx_valid_key = (\<lambda>k. k \<noteq> []),
      rx_validate_kind = (\<lambda>_. (False, [])), rx_no_future = (\<lambda>_ _. (False, [])),
      rx_no_empty = (\<lambda>f. (f_ids f = [] \<and> f_kinds f = [] \<and> f_authors f = [], ''empty'')),
      rx_no_complex = (\<lambda>_. (False, []))\<rparr>"

definition relay_raw :: config where
  "relay_raw = zero_config
     \<lparr>OperatorPubkey := ''boss'', ServerPubkey := ''op'', NoticePubkey := ''portal'',
      AgentPubkeys := [''bot''], AllowlistModeFlag := True, AllowedKinds := [2203, 31100],
      RequireAuthKinds := Some []\<rparr>"

definition relay_config :: config where
  "relay_config = applyDefaults relay_raw"

lemmas relay_config_defs = relay_config_def relay_raw_def applyDefaults_def zero_config_def

definition sample_server :: "mem server" where
  "sample_server =
     (case New sample_relay_ext olddb id exact_share relay_config of
        Inr s \<Rightarrow> s
      | Inl _ \<Rightarrow> \<lparr>sv_policy = mem_store, sv_cfg = relay_config, sv_info = rx_new_info sample_relay_ext,
                  sv_ServiceURL = [], sv_Negentropy = False, sv_MaxLimit = 0, sv_pruners = Map.empty\<rparr>)"

lemma sample_up: "New sample_relay_ext olddb id exact_share relay_config = Inr sample_server"
proof -
  have "\<not> isl (New sample_relay_ext olddb id exact_share relay_config)" by code_simp
  then show ?thesis
    by (cases "New sample_relay_ext olddb id exact_share relay_config") (simp_all add: sample_server_def)
qed

lemma old_pairs:
  "mem_pairs old_disk b =
     (if b = bucketAdmins then [(''op'', ''granted'')] else if b = bucketAllowed then [(''op'', ''admin'')]
      else if b = bucketKindsAllowed then [(''1'', [])] else [])"
  by (simp add: mem_pairs_def mem_bucket_def old_disk_def)

lemma old_impl: "store_impl olddb mem_ok id"
  by (rule mem_store_impl) (simp add: mem_ok_def old_pairs)

lemma old_open: "bk_open olddb path = Inr old_disk"
  by (simp add: mem_bolt_def old_disk_def)

lemma old_file: "file_ok olddb path"
proof -
  have "''1'' = itoa 1" by code_simp
  then show ?thesis
    by (auto simp: file_ok_def old_open opened_def mem_bolt_def old_pairs split: if_splits)
qed

lemma old_commits: "commits olddb"
  by (simp add: commits_def mem_bolt_def)

lemma new_authority_witness:
  "\<forall>k. IsAdmin olddb (sv_policy sample_server) k \<longleftrightarrow> k = ''boss''"
proof
  fix k
  show "IsAdmin olddb (sv_policy sample_server) k \<longleftrightarrow> k = ''boss''"
    using new_authority [OF old_impl old_file sample_up, of k]
    by (auto simp: relay_config_defs)
qed

definition boss_start :: event where
  "boss_start = (sample_event KindExecutionStarted [[''e'', ''request'']] [])\<lparr>ev_pubkey := ''boss''\<rparr>"

lemma boss_passes: "passes (RejectEvent sample_relay_ext olddb sample_server) [] boss_start"
  by code_simp

lemma event_gate_witness:
  "writer_ok (policy_of olddb (sv_policy sample_server)) boss_start \<and>
   author_ok (policy_of olddb (sv_policy sample_server)) (sv_cfg sample_server) boss_start"
proof -
  have "bolt_db olddb mem_ok" using old_impl by (simp add: store_impl_def)
  moreover have "store_open olddb mem_ok (sv_policy sample_server)"
    using store_impl.final_admins [OF old_impl sample_up old_file] by blast
  ultimately show ?thesis using event_gate boss_passes by blast
qed

lemma new_forgery_safe_witness:
  "ev_kind boss_start \<in> execution_kinds \<and> ev_pubkey boss_start \<in> configured_admins relay_config"
proof -
  have "ev_kind boss_start \<in> execution_kinds" "ev_pubkey boss_start \<noteq> ServerPubkey relay_config" by code_simp+
  then show ?thesis using new_forgery_safe [OF old_impl old_file sample_up boss_passes] by blast
qed

lemma new_writers_witness:
  "IsAllowed olddb (sv_policy sample_server) ''bot'' \<and> \<not> IsAdmin olddb (sv_policy sample_server) ''bot''"
  using new_writers [OF old_impl old_file old_commits sample_up, of "''bot''"]
  by (simp add: relay_config_defs sample_relay_ext_def configured_admins_def)

lemma new_server_key_revoked_witness:
  "\<not> passes (RejectEvent sample_relay_ext olddb sample_server) [] (boss_start\<lparr>ev_pubkey := ''op''\<rparr>)"
proof -
  have "opened olddb old_disk bucketAdmins (ServerPubkey relay_config) \<noteq> None"
    "ServerPubkey relay_config \<notin> {NoticePubkey relay_config, PublisherPubkey relay_config} \<union> set (AgentPubkeys relay_config)"
    by code_simp+
  moreover have "ServerPubkey relay_config \<notin> configured_admins relay_config"
    by (simp add: relay_config_defs configured_admins_def)
  moreover have "AllowlistModeFlag relay_config" "ServerPubkey relay_config = ''op''"
    by (simp_all add: relay_config_defs)
  moreover have "ev_kind (boss_start\<lparr>ev_pubkey := ''op''\<rparr>) \<notin> decision_kinds"
    by (simp add: boss_start_def sample_event_def decision_kinds_def kind_defs)
  ultimately show ?thesis
    using new_server_key_revoked [OF old_impl old_file sample_up old_open,
        of "boss_start\<lparr>ev_pubkey := ''op''\<rparr>"] by simp
qed

lemma read_gap_witness:
  "passes (RejectFilter sample_relay_ext (sample_server\<lparr>sv_cfg := zero_config\<rparr>)) []
     \<lparr>f_ids = [], f_kinds = [], f_authors = [''boss''], f_since = None\<rparr> \<and>
   matches \<lparr>f_ids = [], f_kinds = [], f_authors = [''boss''], f_since = None\<rparr> boss_start"
proof (rule read_gap)
  show "\<lparr>f_ids = [], f_kinds = [], f_authors = [''boss''], f_since = None\<rparr> =
      \<lparr>f_ids = [], f_kinds = [], f_authors = [ev_pubkey boss_start], f_since = None\<rparr>"
    by (simp add: boss_start_def)
  show "ev_kind boss_start \<in> set (protectedKinds (sample_server\<lparr>sv_cfg := zero_config\<rparr>))"
    by (simp add: boss_start_def sample_event_def protectedKinds_def zero_config_def ProtectedKinds_def)
qed (simp_all add: sample_relay_ext_def)

end
