(* ===== verification/CmdUtil.thy ===== *)
theory CmdUtil
  imports Prelude
begin

text \<open>
  \<open>src/internal/cmdutil/cmdutil.go\<close>: the helpers both commands share. A signal is its number on Linux;
  the context is a predicate on the signals delivered so far, true when it is cancelled. \<open>FatalIfErr\<close>
  yields the line that is logged when the process ends there, and \<open>None\<close> when it returns.
\<close>

definition SIGINT :: int where "SIGINT = 2"
definition SIGTERM :: int where "SIGTERM = 15"

definition SignalContext :: "int list \<Rightarrow> bool" where
  "SignalContext sigs = list_ex (\<lambda>s. s = SIGINT \<or> s = SIGTERM) sigs"

definition FatalIfErr :: "bytes \<Rightarrow> bytes option \<Rightarrow> bytes option" where
  "FatalIfErr prefix err = (case err of None \<Rightarrow> None | Some e \<Rightarrow> Some (prefix @ '': '' @ e))"

lemma fatal_iff: "FatalIfErr prefix err = None \<longleftrightarrow> err = None"
  by (simp add: FatalIfErr_def split: option.splits)

lemma cancelled_iff: "SignalContext sigs \<longleftrightarrow> SIGINT \<in> set sigs \<or> SIGTERM \<in> set sigs"
  by (auto simp: SignalContext_def list_ex_iff)

text \<open>A cancelled context stays cancelled.\<close>

lemma cancelled_append: "SignalContext (sigs @ more_sigs) \<longleftrightarrow> SignalContext sigs \<or> SignalContext more_sigs"
  by (simp add: SignalContext_def)

end
