(* ===== verification/Lifecycle.thy ===== *)
theory Lifecycle
  imports RelayProps CmdUtil
begin

text \<open>
  The lifecycle part of \<open>src/internal/relay/server.go\<close>: \<open>Start\<close>, \<open>Shutdown\<close> and the retention
  pruner. Time is read from the clock by the code: the instant of each \<open>pruneKind\<close> call, in
  nanoseconds since the epoch, is an argument, and one round of the pruner is the list of its calls in
  the order in which Go ranges over the retention table.
\<close>

definition Start :: "'e estore \<Rightarrow> 'd server \<Rightarrow> 'e \<Rightarrow> (bytes + bytes \<times> int) \<times> 'e" where
  "Start E s e =
     (case es_init E e of
        (Some err, e') \<Rightarrow> (Inl (''relay: init store: '' @ err), e')
      | (None, e') \<Rightarrow> (Inr (ListenHost (sv_cfg s), ListenPort (sv_cfg s)), e'))"

definition Shutdown :: "'d bolt \<Rightarrow> 'e estore \<Rightarrow> 'd server \<Rightarrow> 'e \<Rightarrow> 'd server \<times> 'e" where
  "Shutdown B E s e = (s\<lparr>sv_policy := snd (Close B (sv_policy s))\<rparr>, es_close E e)"

text \<open>\<open>src/cmd/nostrhost-control/main.go\<close> up to the point where the relay serves: the outcome is the
  server and the address, or the step that failed. \<open>cmdutil.FatalIfErr\<close> ends the process with the
  error it is given.\<close>

datatype control_error =
    ControlConfig config_error
  | ControlNew relay_error
  | ControlStart bytes

definition control_main ::
  "relay_ext \<Rightarrow> 'd bolt \<Rightarrow> 'e estore \<Rightarrow> (bytes list \<Rightarrow> bytes list) \<Rightarrow> fraction_share
     \<Rightarrow> (bytes \<Rightarrow> bytes + bytes) \<Rightarrow> (bytes \<Rightarrow> bytes + config) \<Rightarrow> bytes \<Rightarrow> 'e
     \<Rightarrow> control_error + 'd server \<times> bytes \<times> int" where
  "control_main X B E ord share read_file unmarshal cfgPath e =
     (let (cfg, err) = config_load share read_file unmarshal cfgPath in
      case err of
        Some x \<Rightarrow> Inl (ControlConfig x)
      | None \<Rightarrow>
     (case New X B ord share cfg of
        Inl (x, _) \<Rightarrow> Inl (ControlNew x)
      | Inr s \<Rightarrow>
     (case fst (Start E s e) of
        Inl x \<Rightarrow> Inl (ControlStart x)
      | Inr (host, port) \<Rightarrow> Inr (s, host, port))))"

text \<open>The line the process logs when it ends before it serves; \<open>txt\<close> is how an error prints.\<close>

definition control_fatal :: "(control_error \<Rightarrow> bytes) \<Rightarrow> control_error + 'd server \<times> bytes \<times> int \<Rightarrow> bytes option" where
  "control_fatal txt r =
     FatalIfErr ''nostrhost-control'' (case r of Inl x \<Rightarrow> Some (txt x) | Inr _ \<Rightarrow> None)"

text \<open>What ends the wait of \<open>main\<close>: \<open>Start\<close> returned, or a signal came; \<open>select\<close> takes one of the cases that are
  ready. Only the signal leads to \<open>Shutdown\<close>. The result is the line the process dies with, if any, and
  what it leaves behind.\<close>

datatype wake = StartReturned "bytes option" | SignalReceived

definition control_select :: "bytes option option \<Rightarrow> int list \<Rightarrow> wake list" where
  "control_select ret sigs =
     (case ret of None \<Rightarrow> [] | Some err \<Rightarrow> [StartReturned err]) @
     (if SignalContext sigs then [SignalReceived] else [])"

definition control_wait :: "'d bolt \<Rightarrow> 'e estore \<Rightarrow> 'd server \<Rightarrow> 'e \<Rightarrow> wake \<Rightarrow> bytes option \<times> 'd server \<times> 'e" where
  "control_wait B E s e wk =
     (case wk of
        StartReturned err \<Rightarrow> (FatalIfErr ''nostrhost-control'' err, s, e)
      | SignalReceived \<Rightarrow> (None, Shutdown B E s e))"

lemma control_waits_on: "control_select None sigs = [] \<longleftrightarrow> SIGINT \<notin> set sigs \<and> SIGTERM \<notin> set sigs"
  by (simp add: control_select_def cancelled_iff)

lemma stores_closed_on_signal:
  "wk \<in> set (control_select ret sigs) \<Longrightarrow> control_wait B E s e wk = (line, r) \<Longrightarrow> r \<noteq> (s, e) \<Longrightarrow>
   line = None \<and> SignalContext sigs"
  by (auto simp: control_select_def control_wait_def split: option.splits if_splits)

definition cutoff :: "int \<Rightarrow> int \<Rightarrow> int" where
  "cutoff now ttl = (now + wrap64 (- ttl)) div 1000000000"

fun prune_events :: "'e estore \<Rightarrow> int \<Rightarrow> event list \<Rightarrow> 'e \<Rightarrow> 'e" where
  "prune_events E limit [] e = e"
| "prune_events E limit (ev # evs) e =
     prune_events E limit evs (if ev_created_at ev < limit then snd (es_delete E e ev) else e)"

definition pruneKind :: "'e estore \<Rightarrow> int \<Rightarrow> int \<Rightarrow> int \<Rightarrow> 'e \<Rightarrow> 'e" where
  "pruneKind E now kind ttl e =
     (case es_query E e (kind_filter kind) of
        Inl _ \<Rightarrow> e
      | Inr evs \<Rightarrow> prune_events E (cutoff now ttl) evs e)"

record prune_call =
  pc_now :: int
  pc_kind :: int
  pc_ttl :: int

fun prune_round :: "'e estore \<Rightarrow> prune_call list \<Rightarrow> 'e \<Rightarrow> 'e" where
  "prune_round E [] e = e"
| "prune_round E (c # cs) e = prune_round E cs (pruneKind E (pc_now c) (pc_kind c) (pc_ttl c) e)"

text \<open>The rounds of the hourly ticker; without retention table the pruner does not start.\<close>

definition runPruner :: "'e estore \<Rightarrow> (int \<rightharpoonup> int) \<Rightarrow> prune_call list list \<Rightarrow> 'e \<Rightarrow> 'e" where
  "runPruner E pruners rounds e = (if pruners = Map.empty then e else fold (prune_round E) rounds e)"

text \<open>What a round may be: one call for each entry of the table, in any order.\<close>

definition round_of :: "(int \<rightharpoonup> int) \<Rightarrow> prune_call list \<Rightarrow> bool" where
  "round_of pruners cs \<longleftrightarrow>
     distinct (map pc_kind cs) \<and> map_of (map (\<lambda>c. (pc_kind c, pc_ttl c)) cs) = pruners"

text \<open>Retention without the code's rounding: the second in which the event was created had ended a full
  period before the instant, all in nanoseconds. The negated period is Go's, so it wraps for the least
  64-bit number.\<close>

definition outlived :: "int \<Rightarrow> int \<Rightarrow> event \<Rightarrow> bool" where
  "outlived now ttl ev \<longleftrightarrow> (ev_created_at ev + 1) * 1000000000 \<le> now + wrap64 (- ttl)"

lemma less_div: "0 < d \<Longrightarrow> t < n div d \<longleftrightarrow> (t + 1) * d \<le> n" for d t n :: int
proof -
  assume d: "0 < d"
  have "n div d * d \<le> n" using pos_mod_sign [OF d, of n] minus_mod_eq_div_mult [of n d] by linarith
  then have "t + 1 \<le> n div d \<Longrightarrow> (t + 1) * d \<le> n"
    using mult_right_mono [of "t + 1" "n div d" d] d by (meson order.trans order.strict_implies_order)
  moreover have "(t + 1) * d \<le> n \<Longrightarrow> t + 1 \<le> n div d"
    using zdiv_mono1 [OF _ d, of "(t + 1) * d" n] d by simp
  ultimately show ?thesis by (metis zless_imp_add1_zle add1_zle_eq)
qed

lemma before_cutoff: "ev_created_at ev < cutoff now ttl \<longleftrightarrow> outlived now ttl ev"
  unfolding cutoff_def outlived_def by (rule less_div) simp

lemma after_cutoff: "cutoff now ttl \<le> ev_created_at ev \<longleftrightarrow> \<not> outlived now ttl ev"
  using before_cutoff [of ev now ttl] by linarith

definition expired :: "prune_call \<Rightarrow> event \<Rightarrow> bool" where
  "expired c ev \<longleftrightarrow> ev_kind ev = pc_kind c \<and> outlived (pc_now c) (pc_ttl c) ev"

lemma negated_period: "int64_ok d \<Longrightarrow> wrap64 (- d) \<le> - d"
proof (cases "d = - (2 ^ 63)")
  case False
  assume "int64_ok d"
  with False have "int64_ok (- d)" by (simp add: int64_ok_def)
  then show ?thesis by (simp add: wrap64_id)
qed (simp add: wrap64_def)

lemma round_call: "round_of pruners cs \<Longrightarrow> c \<in> set cs \<Longrightarrow> pruners (pc_kind c) = Some (pc_ttl c)"
  by (auto simp: round_of_def comp_def intro!: map_of_is_SomeI)

text \<open>Removing in two steps removes only what one of the steps may remove.\<close>

lemma removal_chain:
  assumes "T \<subseteq> S" "\<forall>x \<in> S - T. P x" and "U \<subseteq> T \<and> (\<forall>x \<in> T - U. Q x)"
    and "\<And>x. P x \<Longrightarrow> R x" "\<And>x. Q x \<Longrightarrow> R x"
  shows "U \<subseteq> S \<and> (\<forall>x \<in> S - U. R x)"
  using assms by blast

context event_store
begin

lemma delete_reads:
  "stored (snd (es_delete E e ev)) = stored e - {ev} \<or> stored (snd (es_delete E e ev)) = stored e"
  using delete_law delete_error by (metis not_Some_eq prod.collapse)

lemma prune_events_only:
  "stored (prune_events E limit evs e) \<subseteq> stored e \<and>
   (\<forall>ev \<in> stored e - stored (prune_events E limit evs e). ev \<in> set evs \<and> ev_created_at ev < limit)"
proof (induction evs arbitrary: e)
  case (Cons v evs)
  let ?e = "if ev_created_at v < limit then snd (es_delete E e v) else e"
  have step: "stored ?e \<subseteq> stored e" "\<forall>ev \<in> stored e - stored ?e. ev = v \<and> ev_created_at ev < limit"
    using delete_reads [of e v] by (auto split: if_splits)
  show ?case unfolding prune_events.simps
    by (rule removal_chain [OF step Cons.IH [of ?e]]) auto
qed simp

lemma prune_kind_only:
  "stored (pruneKind E (pc_now c) (pc_kind c) (pc_ttl c) e) \<subseteq> stored e \<and>
   (\<forall>ev \<in> stored e - stored (pruneKind E (pc_now c) (pc_kind c) (pc_ttl c) e). expired c ev)"
proof (cases "es_query E e (kind_filter (pc_kind c))")
  case (Inr evs)
  then show ?thesis using prune_events_only [of "cutoff (pc_now c) (pc_ttl c)" evs e] query_law [OF Inr]
    by (auto simp: pruneKind_def expired_def before_cutoff)
qed (simp add: pruneKind_def)

lemma prune_round_only:
  "stored (prune_round E cs e) \<subseteq> stored e \<and>
   (\<forall>ev \<in> stored e - stored (prune_round E cs e). \<exists>c \<in> set cs. expired c ev)"
proof (induction cs arbitrary: e)
  case (Cons c cs)
  let ?e = "pruneKind E (pc_now c) (pc_kind c) (pc_ttl c) e"
  show ?case unfolding prune_round.simps
    by (rule removal_chain [OF conjunct1 conjunct2 Cons.IH, OF prune_kind_only prune_kind_only]) auto
qed simp

lemma rounds_only:
  "stored (fold (prune_round E) rounds e) \<subseteq> stored e \<and>
   (\<forall>ev \<in> stored e - stored (fold (prune_round E) rounds e). \<exists>cs \<in> set rounds. \<exists>c \<in> set cs. expired c ev)"
proof (induction rounds arbitrary: e)
  case (Cons cs rounds)
  show ?case unfolding fold_simps
    by (rule removal_chain [OF conjunct1 conjunct2 Cons.IH, OF prune_round_only prune_round_only]) auto
qed simp

lemma prune_events_all:
  assumes "\<And>e ev. fst (es_delete E e ev) = None"
  shows "stored (prune_events E limit evs e) = stored e - {ev \<in> set evs. ev_created_at ev < limit}"
proof (induction evs arbitrary: e)
  case (Cons v evs)
  have "stored (snd (es_delete E e v)) = stored e - {v}"
    using delete_law [of e v] assms [of e v] by (metis prod.collapse)
  then show ?case using Cons.IH by auto
qed simp

end

section \<open>Properties\<close>

lemma pruner_only_expired:
  assumes "event_store E stored" and "\<forall>cs \<in> set rounds. round_of pruners cs"
    and "ev \<in> stored e" and "ev \<notin> stored (runPruner E pruners rounds e)"
  shows "\<exists>cs \<in> set rounds. \<exists>c \<in> set cs. pruners (ev_kind ev) = Some (pc_ttl c) \<and> expired c ev"
proof -
  have "ev \<in> stored e - stored (fold (prune_round E) rounds e)"
    using assms(3,4) by (auto simp: runPruner_def split: if_splits)
  then obtain cs c where c: "cs \<in> set rounds" "c \<in> set cs" "expired c ev"
    using event_store.rounds_only [OF assms(1), of rounds e] by blast
  then have "pruners (pc_kind c) = Some (pc_ttl c)"
    using assms(2) round_call by blast
  then show ?thesis using c by (auto simp: expired_def)
qed

text \<open>C13: The pruner never removes an event it should keep: over any number of rounds, whatever
  deletions fail and whatever the store's query limit hides, an event that disappears has a kind for
  which the configuration has a retention period, and at the instant the round came to its kind the
  second it was created in had ended at least that period ago.\<close>

theorem pruner_safe:
  assumes "event_store E stored" and "PruneDurations share cfg = Inr pruners"
    and "\<forall>cs \<in> set rounds. round_of pruners cs"
    and "ev \<in> stored e" and "ev \<notin> stored (runPruner E pruners rounds e)"
  shows "\<exists>cs \<in> set rounds. \<exists>c \<in> set cs. pc_kind c = ev_kind ev \<and> pruners (ev_kind ev) = Some (pc_ttl c) \<and>
    (ev_created_at ev + 1) * 1000000000 + pc_ttl c \<le> pc_now c"
proof -
  obtain cs c where c: "cs \<in> set rounds" "c \<in> set cs" "pruners (ev_kind ev) = Some (pc_ttl c)" "expired c ev"
    using pruner_only_expired [OF assms(1,3-5)] by blast
  have "wrap64 (- pc_ttl c) \<le> - pc_ttl c"
    using PruneDurations_range [OF assms(2) c(3)] by (rule negated_period)
  then have "(ev_created_at ev + 1) * 1000000000 + pc_ttl c \<le> pc_now c"
    using c(4) by (simp add: expired_def outlived_def)
  then show ?thesis using c by (auto simp: expired_def)
qed

text \<open>A call of \<open>pruneKind\<close> for which the query returned every event of the kind and no deletion
  failed leaves exactly the events that have not expired.\<close>

theorem prune_complete:
  assumes "event_store E stored" and "es_query E e (kind_filter (pc_kind c)) = Inr evs"
    and "\<forall>ev \<in> stored e. ev_kind ev = pc_kind c \<longrightarrow> ev \<in> set evs"
    and "\<And>e ev. fst (es_delete E e ev) = None"
  shows "stored (pruneKind E (pc_now c) (pc_kind c) (pc_ttl c) e) = {ev \<in> stored e. \<not> expired c ev}"
  using event_store.prune_events_all [OF assms(1,4)] assms(2,3) event_store.query_law [OF assms(1,2)]
  by (auto simp: pruneKind_def expired_def before_cutoff)

text \<open>C20: Whatever the configuration file holds, if the process gets to serve it serves on a loopback
  host and a valid port, its administrators are exactly the keys the file configures, the operator among
  them, and after a signal its policy store answers nobody as an administrator.\<close>

theorem started_on_loopback:
  assumes "store_impl B ok ord" and "\<And>path. file_ok B path"
    and "control_main X B E ord share read_file unmarshal cfgPath e = Inr (s, host, port)"
  shows "loopback_name host \<and> 1 \<le> port \<and> port \<le> 65535 \<and>
    (IsAdmin B (sv_policy s) k \<longleftrightarrow> k \<in> configured_admins (sv_cfg s)) \<and>
    OperatorPubkey (sv_cfg s) \<in> configured_admins (sv_cfg s) \<and>
    (fst (Close B (sv_policy s)) = None \<longrightarrow>
       \<not> IsAdmin B (sv_policy (fst (snd (control_wait B E s e SignalReceived)))) k)"
proof -
  obtain cfg where c: "config_load share read_file unmarshal cfgPath = (cfg, None)"
    and n: "New X B ord share cfg = Inr s" and st: "fst (Start E s e) = Inr (host, port)"
    using assms(3) by (auto simp: control_main_def Let_def split: prod.splits option.splits sum.splits)
  have v: "config_validate share cfg = None"
    using c by (auto simp: config_load_def Let_def split: sum.splits)
  note f = store_impl.final_admins [OF assms(1) n assms(2)]
  have db: "bolt_db B ok" using assms(1) by (simp add: store_impl_def)
  have "host = ListenHost cfg" "port = ListenPort cfg"
    using st f by (auto simp: Start_def split: prod.splits option.splits)
  moreover have "\<not> IsAdmin B (sv_policy (fst (snd (control_wait B E s e SignalReceived)))) k" if "fst (Close B (sv_policy s)) = None"
  proof -
    have "bk_close B (st_db (sv_policy s)) = (None, st_db (snd (Close B (sv_policy s))))"
      using that by (simp add: Close_def case_prod_beta' Let_def prod_eq_iff)
    moreover have "ok (st_db (sv_policy s))" using f by (simp add: store_open_def db_ready_def)
    ultimately show ?thesis
      using bolt_db.close_law [OF db] by (fastforce simp: control_wait_def Shutdown_def IsAdmin_def db_view_def)
  qed
  moreover have "IsAdmin B (sv_policy s) k \<longleftrightarrow> k \<in> configured_admins (sv_cfg s)"
    using f store_policy(1) [OF db conjunct1 [OF f]] by simp
  moreover have "OperatorPubkey (sv_cfg s) \<in> configured_admins (sv_cfg s)"
    using f v by (simp add: configured_admins_def validate_ok)
  ultimately show ?thesis using v by (simp add: validate_ok loopback_name_iff)
qed

text \<open>A negative retention period passes validation, because any duration that parses is accepted,
  and then the pruner deletes events that were created at the very moment it runs.\<close>

theorem negative_retention:
  "let cfg = zero_config\<lparr>OperatorPubkey := ''op'', ListenHost := ''::1'', ListenPort := 4848,
         Prunables := [\<lparr>pn_Kind = 2200, pn_KeepFor = ''-1h''\<rparr>]\<rparr>;
       now = 1700000000;
       ev = (sample_event 2200 [] [])\<lparr>ev_created_at := now\<rparr>
   in config_validate exact_share cfg = None \<and>
      ParseDuration exact_share ''-1h'' = Some (- 3600000000000) \<and>
      pruneKind (list_store 5000) (now * 1000000000) 2200 (- 3600000000000) [ev] = []"
  by code_simp

subsection \<open>Witnesses\<close>

definition old_event :: event where
  "old_event = (sample_event 2200 [] [])\<lparr>ev_created_at := 1000\<rparr>"

definition prune_at :: prune_call where
  "prune_at = \<lparr>pc_now = 1700000000000000000, pc_kind = 2200, pc_ttl = 3600000000000\<rparr>"

definition keeping_config :: config where
  "keeping_config = zero_config\<lparr>Prunables := [\<lparr>pn_Kind = 2200, pn_KeepFor = ''1h''\<rparr>]\<rparr>"

lemma keeping_table: "PruneDurations exact_share keeping_config = Inr [2200 \<mapsto> 3600000000000]"
proof -
  have "ParseDuration exact_share ''1h'' = Some 3600000000000" by code_simp
  then show ?thesis by (simp add: PruneDurations_def keeping_config_def)
qed

lemma pruner_safe_witness: "(ev_created_at old_event + 1) * 1000000000 + 3600000000000 \<le> pc_now prune_at"
proof -
  have "fold (prune_round (list_store 5000)) [[prune_at]] [old_event] = []" by code_simp
  then have gone: "old_event \<notin> set (runPruner (list_store 5000) [2200 \<mapsto> 3600000000000] [[prune_at]] [old_event])"
    by (simp add: runPruner_def del: fold_simps)
  have r: "\<forall>cs \<in> set [[prune_at]]. round_of [2200 \<mapsto> 3600000000000] cs"
    by (simp add: round_of_def prune_at_def)
  from pruner_safe [OF list_event_store keeping_table r _ gone] show ?thesis by (auto simp: prune_at_def)
qed

lemma prune_complete_witness:
  "set (pruneKind (list_store 5000) (pc_now prune_at) (pc_kind prune_at) (pc_ttl prune_at) [old_event]) =
     {ev \<in> set [old_event]. \<not> expired prune_at ev}"
proof (rule prune_complete [OF list_event_store])
  show "es_query (list_store 5000) [old_event] (kind_filter (pc_kind prune_at)) = Inr [old_event]" by code_simp
qed (simp_all add: list_store_def)

lemma sample_control:
  "control_main sample_relay_ext olddb (list_store 5000) id exact_share (\<lambda>_. Inr []) (\<lambda>_. Inr relay_raw)
     ''control.toml'' [] = Inr (sample_server, ''127.0.0.1'', 4848)"
proof -
  have l: "config_load exact_share (\<lambda>_. Inr []) (\<lambda>_. Inr relay_raw) ''control.toml'' = (relay_config, None)"
  proof -
    have "config_validate exact_share (applyDefaults relay_raw) = None" by code_simp
    then show ?thesis by (simp add: config_load_def toml_load_def relay_config_def Let_def)
  qed
  have "sv_cfg sample_server = relay_config"
    using store_impl.final_admins [OF old_impl sample_up old_file] by blast
  then have "fst (Start (list_store 5000) sample_server []) = Inr (''127.0.0.1'', 4848)"
    by (simp add: Start_def list_store_def relay_config_defs DefaultListenHost_def DefaultListenPort_def)
  then show ?thesis by (simp add: control_main_def l sample_up)
qed

lemma started_on_loopback_witness:
  "loopback_name ''127.0.0.1'' \<and> \<not> IsAdmin olddb (sv_policy (fst (snd (control_wait olddb (list_store 5000) sample_server [] SignalReceived)))) ''boss''"
proof -
  have "fst (Close olddb (sv_policy sample_server)) = None" by (simp add: Close_def mem_bolt_def)
  with started_on_loopback [OF old_impl old_file sample_control] show ?thesis by blast
qed

end
