(* ===== verification/Pruning.thy ===== *)
theory Pruning
  imports Lifecycle
begin

text \<open>
  Whether retention is ever reached. \<open>pruneKind\<close> asks the store for all events of a kind and gets at
  most as many as the backend's limit, the newest ones: \<open>newest_first\<close> states that, as the comment on
  \<open>MaxLimit\<close> in \<open>server.go\<close> and NIP-01 describe it. With fewer unexpired events than the limit the hourly
  rounds remove everything that has expired, a known number per round; with as many as the limit they
  remove nothing of the kind, ever.
\<close>

subsection \<open>What a query with a limit returns\<close>

definition newest_first :: "nat \<Rightarrow> 'e estore \<Rightarrow> ('e \<Rightarrow> event set) \<Rightarrow> bool" where
  "newest_first limit E stored \<longleftrightarrow>
     (\<forall>e k. finite (stored e) \<longrightarrow> (\<exists>evs. es_query E e (kind_filter k) = Inr evs \<and> distinct evs \<and>
        set evs \<subseteq> {ev \<in> stored e. ev_kind ev = k} \<and>
        length evs = min limit (card {ev \<in> stored e. ev_kind ev = k}) \<and>
        (\<forall>x \<in> set evs. \<forall>y \<in> {ev \<in> stored e. ev_kind ev = k} - set evs. ev_created_at y \<le> ev_created_at x)))"

definition ranked_store :: "nat \<Rightarrow> event list estore" where
  "ranked_store limit = (list_store limit)
     \<lparr>es_query := (\<lambda>s f. Inr (take limit (sort_key (\<lambda>ev. - ev_created_at ev) (remdups (filter (matches f) s)))))\<rparr>"

lemma ranked_event_store: "event_store (ranked_store limit) set"
  by unfold_locales
    (auto simp: ranked_store_def list_store_def same_address_def dest!: in_set_takeD split: if_splits)

lemma ranked_newest_first: "newest_first limit (ranked_store limit) set"
  unfolding newest_first_def
proof (intro allI impI exI conjI ballI)
  fix e :: "event list" and k
  let ?r = "sort_key (\<lambda>ev. - ev_created_at ev) (remdups (filter (matches (kind_filter k)) e))"
  have s: "set ?r = {ev \<in> set e. ev_kind ev = k}" by auto
  show "es_query (ranked_store limit) e (kind_filter k) = Inr (take limit ?r)" by (simp add: ranked_store_def)
  have d: "distinct ?r" by simp
  then show "distinct (take limit ?r)" by (rule distinct_take)
  show "set (take limit ?r) \<subseteq> {ev \<in> set e. ev_kind ev = k}" using s set_take_subset by metis
  show "length (take limit ?r) = min limit (card {ev \<in> set e. ev_kind ev = k})"
    unfolding s [symmetric] distinct_card [OF d] by simp
  fix x y assume x: "x \<in> set (take limit ?r)" and "y \<in> {ev \<in> set e. ev_kind ev = k} - set (take limit ?r)"
  then have "y \<in> set (drop limit ?r)" using s set_append [of "take limit ?r" "drop limit ?r"] by auto
  moreover have "sorted (map (\<lambda>ev. - ev_created_at ev) (take limit ?r @ drop limit ?r))"
    by (simp only: append_take_drop_id sorted_sort_key)
  then have "\<forall>a \<in> set (take limit ?r). \<forall>b \<in> set (drop limit ?r). - ev_created_at a \<le> - ev_created_at b"
    by (simp only: map_append sorted_append set_map ball_simps) blast
  ultimately show "ev_created_at y \<le> ev_created_at x" using x by fastforce
qed

subsection \<open>Rounds and the events of one kind\<close>

definition stale :: "int \<Rightarrow> int \<Rightarrow> event set \<Rightarrow> event set" where
  "stale k L S = {ev \<in> S. ev_kind ev = k \<and> ev_created_at ev < L}"

definition fresh :: "int \<Rightarrow> int \<Rightarrow> event set \<Rightarrow> event set" where
  "fresh k L S = {ev \<in> S. ev_kind ev = k \<and> L \<le> ev_created_at ev}"

lemma kind_parts: "{ev \<in> S. ev_kind ev = k} = stale k L S \<union> fresh k L S" "stale k L S \<inter> fresh k L S = {}"
  by (auto simp: stale_def fresh_def)

lemma parts_mono: "S \<subseteq> T \<Longrightarrow> stale k L S \<subseteq> stale k L T" "S \<subseteq> T \<Longrightarrow> fresh k L S \<subseteq> fresh k L T"
  by (auto simp: stale_def fresh_def)

lemma parts_finite: "finite S \<Longrightarrow> finite (stale k L S)" "finite S \<Longrightarrow> finite (fresh k L S)"
  by (simp_all add: stale_def fresh_def)

lemma prune_round_append: "prune_round E (cs @ ds) e = prune_round E ds (prune_round E cs e)"
  by (induction cs arbitrary: e) simp_all

lemma cutoff_mono: "t \<le> now \<Longrightarrow> cutoff t ttl \<le> cutoff now ttl"
  by (simp add: cutoff_def zdiv_mono1)

lemma cutoff_le: "cutoff now ttl \<le> t \<longleftrightarrow> now + wrap64 (- ttl) < (t + 1) * 1000000000"
  using less_div [of 1000000000 t "now + wrap64 (- ttl)"] unfolding cutoff_def by (simp add: not_less [symmetric])

lemma round_has_call:
  assumes "round_of pruners cs" "pruners k = Some ttl"
  shows "\<exists>c \<in> set cs. pc_kind c = k \<and> pc_ttl c = ttl"
proof -
  have "map_of (map (\<lambda>c. (pc_kind c, pc_ttl c)) cs) k = Some ttl" using assms by (simp add: round_of_def)
  from map_of_SomeD [OF this] show ?thesis by auto
qed

text \<open>At most \<open>limit\<close> events come back, so at least \<open>limit\<close> minus the fresh ones of them are stale.\<close>

lemma stale_share:
  assumes "finite S" "finite T" "S \<inter> T = {}" "A \<subseteq> S \<union> T" "card A = min limit (card (S \<union> T))"
  shows "card (S - A) \<le> card S - (limit - card T)"
proof -
  have "A = (S \<inter> A) \<union> (T \<inter> A)" using assms(4) by blast
  moreover have "card ((S \<inter> A) \<union> (T \<inter> A)) = card (S \<inter> A) + card (T \<inter> A)"
    by (rule card_Un_disjoint) (use assms(1-3) in auto)
  ultimately have "card A = card (S \<inter> A) + card (T \<inter> A)" by argo
  moreover have "card (T \<inter> A) \<le> card T" using assms(2) by (simp add: card_mono)
  moreover have "card (S \<union> T) = card S + card T" using assms(1-3) by (rule card_Un_disjoint)
  moreover have "card (S - A) = card S - card (S \<inter> A)" using assms(1) by (simp add: card_Diff_subset_Int)
  ultimately show ?thesis using assms(5) by linarith
qed

context event_store
begin

lemma call_removes:
  assumes nf: "newest_first limit E stored" and fin: "finite (stored e)"
    and del: "\<And>e ev. fst (es_delete E e ev) = None" and L: "L \<le> cutoff now ttl"
  shows "card (stale k L (stored (pruneKind E now k ttl e))) \<le>
    card (stale k L (stored e)) - (limit - card (fresh k L (stored e)))"
proof -
  obtain evs where q: "es_query E e (kind_filter k) = Inr evs" "distinct evs"
    "set evs \<subseteq> {ev \<in> stored e. ev_kind ev = k}" "length evs = min limit (card {ev \<in> stored e. ev_kind ev = k})"
    using nf [unfolded newest_first_def, rule_format, OF fin, of k] by blast
  have "stored (pruneKind E now k ttl e) = stored e - {ev \<in> set evs. ev_created_at ev < cutoff now ttl}"
    using q(1) prune_events_all [OF del] by (simp add: pruneKind_def)
  then have "stale k L (stored (pruneKind E now k ttl e)) \<subseteq> stale k L (stored e) - set evs"
    using L by (auto simp: stale_def)
  then have "card (stale k L (stored (pruneKind E now k ttl e))) \<le> card (stale k L (stored e) - set evs)"
    by (intro card_mono finite_Diff parts_finite fin)
  also have "\<dots> \<le> card (stale k L (stored e)) - (limit - card (fresh k L (stored e)))"
    using q(2-4) parts_finite [OF fin] kind_parts(1) [of "stored e" k L] kind_parts(2) [of k L "stored e"] distinct_card [OF q(2)]
    by (intro stale_share) simp_all
  finally show ?thesis .
qed

lemma round_removes:
  assumes nf: "newest_first limit E stored" and fin: "finite (stored e)"
    and del: "\<And>e ev. fst (es_delete E e ev) = None"
    and c: "c \<in> set cs" "pc_kind c = k" "L \<le> cutoff (pc_now c) (pc_ttl c)"
  shows "card (stale k L (stored (prune_round E cs e))) \<le>
    card (stale k L (stored e)) - (limit - card (fresh k L (stored e)))"
proof -
  obtain pre post where cs: "cs = pre @ c # post" using c(1) by (auto simp: in_set_conv_decomp)
  define e1 where "e1 = prune_round E pre e"
  define e2 where "e2 = pruneKind E (pc_now c) k (pc_ttl c) e1"
  have s: "stored e1 \<subseteq> stored e" "stored e2 \<subseteq> stored e1" "stored (prune_round E cs e) \<subseteq> stored e2"
    using prune_round_only [of pre e] prune_kind_only [of c e1] prune_round_only [of post e2] c(2)
    by (simp_all add: cs prune_round_append e1_def e2_def)
  have f: "finite (stored e1)" "finite (stored e2)" using s fin by (auto intro: finite_subset)
  have "card (stale k L (stored (prune_round E cs e))) \<le> card (stale k L (stored e2))"
    by (intro card_mono parts_finite parts_mono f s)
  also have "\<dots> \<le> card (stale k L (stored e1)) - (limit - card (fresh k L (stored e1)))"
    unfolding e2_def by (rule call_removes [OF nf f(1) del c(3)])
  also have "\<dots> \<le> card (stale k L (stored e)) - (limit - card (fresh k L (stored e)))"
    using card_mono [OF parts_finite(1) [OF fin] parts_mono(1) [OF s(1), of k L]]
      card_mono [OF parts_finite(2) [OF fin] parts_mono(2) [OF s(1), of k L]] by linarith
  finally show ?thesis .
qed

lemma rounds_remove:
  assumes nf: "newest_first limit E stored" and del: "\<And>e ev. fst (es_delete E e ev) = None"
  shows "finite (stored e) \<Longrightarrow> card (fresh k L (stored e)) \<le> m \<Longrightarrow>
    \<forall>cs \<in> set rounds. \<exists>c \<in> set cs. pc_kind c = k \<and> L \<le> cutoff (pc_now c) (pc_ttl c) \<Longrightarrow>
    card (stale k L (stored (fold (prune_round E) rounds e))) \<le> card (stale k L (stored e)) - length rounds * (limit - m)"
proof (induction rounds arbitrary: e)
  case (Cons cs rounds)
  let ?e = "prune_round E cs e"
  obtain c where c: "c \<in> set cs" "pc_kind c = k" "L \<le> cutoff (pc_now c) (pc_ttl c)" using Cons.prems(3) by auto
  have s: "stored ?e \<subseteq> stored e" using prune_round_only by blast
  have f: "finite (stored ?e)" using s Cons.prems(1) by (rule finite_subset)
  have "card (fresh k L (stored ?e)) \<le> m"
    using card_mono [OF parts_finite(2) [OF Cons.prems(1)] parts_mono(2) [OF s]] Cons.prems(2) by (rule order_trans)
  from Cons.IH [OF f this] Cons.prems(3)
  have "card (stale k L (stored (fold (prune_round E) (cs # rounds) e))) \<le> card (stale k L (stored ?e)) - length rounds * (limit - m)"
    by simp
  moreover have "card (stale k L (stored ?e)) \<le> card (stale k L (stored e)) - (limit - m)"
    using round_removes [OF nf Cons.prems(1) del c] Cons.prems(2) by linarith
  ultimately show ?case by simp
qed simp

lemma call_starves:
  assumes nf: "newest_first limit E stored" and fin: "finite (stored e)"
    and c: "cutoff (pc_now c) (pc_ttl c) \<le> U \<or> pc_kind (c :: prune_call) \<noteq> k" and U: "limit \<le> card (fresh k U (stored e))"
  shows "{ev \<in> stored (pruneKind E (pc_now c) (pc_kind c) (pc_ttl c) e). ev_kind ev = k} = {ev \<in> stored e. ev_kind ev = k}"
proof -
  let ?e = "pruneKind E (pc_now c) (pc_kind c) (pc_ttl c) e"
  have only: "ev \<in> stored ?e" if ev: "ev \<in> stored e" "ev_kind ev = k" for ev
  proof (rule ccontr)
    assume gone: "ev \<notin> stored ?e"
    then have x: "expired c ev" using ev prune_kind_only [of c e] by blast
    then have k: "pc_kind c = k" and lt: "ev_created_at ev < U"
      using ev(2) c by (auto simp: expired_def before_cutoff [symmetric])
    obtain evs where q: "es_query E e (kind_filter k) = Inr evs" "distinct evs"
      "set evs \<subseteq> {ev \<in> stored e. ev_kind ev = k}" "length evs = min limit (card {ev \<in> stored e. ev_kind ev = k})"
      "\<forall>x \<in> set evs. \<forall>y \<in> {ev \<in> stored e. ev_kind ev = k} - set evs. ev_created_at y \<le> ev_created_at x"
      using nf [unfolded newest_first_def, rule_format, OF fin, of k] by blast
    have "ev \<in> set evs"
      using gone ev(1) prune_events_only [of "cutoff (pc_now c) (pc_ttl c)" evs e] q(1) by (auto simp: pruneKind_def k)
    moreover have "y \<in> set evs" if "y \<in> fresh k U (stored e)" for y
    proof (rule ccontr)
      assume "y \<notin> set evs"
      then have "ev_created_at y \<le> ev_created_at ev" using q(5) calculation that by (simp add: fresh_def)
      then show False using lt that by (simp add: fresh_def)
    qed
    ultimately have "insert ev (fresh k U (stored e)) \<subseteq> set evs" by blast
    then have "card (insert ev (fresh k U (stored e))) \<le> card (set evs)" by (intro card_mono) simp_all
    moreover have "ev \<notin> fresh k U (stored e)" using lt by (simp add: fresh_def)
    ultimately show False using U q(4) distinct_card [OF q(2)] parts_finite [OF fin] by simp
  qed
  then show ?thesis using prune_kind_only [of c e] by blast
qed

lemma round_starves:
  assumes nf: "newest_first limit E stored"
  shows "finite (stored e) \<Longrightarrow> limit \<le> card (fresh k U (stored e)) \<Longrightarrow>
    \<forall>c \<in> set cs. cutoff (pc_now c) (pc_ttl c) \<le> U \<or> pc_kind (c :: prune_call) \<noteq> k \<Longrightarrow>
    finite (stored (prune_round E cs e)) \<and>
    {ev \<in> stored (prune_round E cs e). ev_kind ev = k} = {ev \<in> stored e. ev_kind ev = k}"
proof (induction cs arbitrary: e)
  case (Cons c cs)
  let ?e = "pruneKind E (pc_now c) (pc_kind c) (pc_ttl c) e"
  have s: "{ev \<in> stored ?e. ev_kind ev = k} = {ev \<in> stored e. ev_kind ev = k}"
    using call_starves [OF nf Cons.prems(1) _ Cons.prems(2)] Cons.prems(3) by simp
  have "finite (stored ?e)" using prune_kind_only [of c e] Cons.prems(1) by (auto intro: finite_subset)
  moreover have "fresh k U (stored ?e) = fresh k U (stored e)" using s by (auto simp: fresh_def)
  ultimately show ?case using Cons.IH [of ?e] Cons.prems(2,3) s by simp
qed simp

end

section \<open>Properties\<close>

text \<open>C14: The pruner gets there: on a store that answers with its newest events up to a limit, when fewer
  unexpired events of a kind are stored than the limit, everything of the kind that had expired at a time
  is gone after enough later rounds, each of which removes at least the difference.\<close>

theorem pruner_converges:
  assumes "event_store E stored" and "newest_first limit E stored" and "finite (stored e)"
    and "\<And>e ev. fst (es_delete E e ev) = None" and "pruners k = Some ttl"
    and "\<And>cs. cs \<in> set rounds \<Longrightarrow> round_of pruners cs \<and> (\<forall>c \<in> set cs. t \<le> pc_now c)"
    and "card {ev \<in> stored e. ev_kind ev = k \<and> outlived t ttl ev}
      \<le> length rounds * (limit - card {ev \<in> stored e. ev_kind ev = k \<and> \<not> outlived t ttl ev})"
  shows "{ev \<in> stored (runPruner E pruners rounds e). ev_kind ev = k \<and> outlived t ttl ev} = {}"
proof -
  let ?L = "cutoff t ttl" and ?e = "fold (prune_round E) rounds e"
  have r: "runPruner E pruners rounds e = ?e" using assms(5) by (auto simp: runPruner_def)
  have "\<exists>c \<in> set cs. pc_kind c = k \<and> ?L \<le> cutoff (pc_now c) (pc_ttl c)" if "cs \<in> set rounds" for cs
    using round_has_call [of pruners cs, OF _ assms(5)] assms(6) [OF that] cutoff_mono by blast
  then have "card (stale k ?L (stored ?e)) \<le>
      card (stale k ?L (stored e)) - length rounds * (limit - card (fresh k ?L (stored e)))"
    by (intro event_store.rounds_remove [OF assms(1,2,4,3) order_refl]) blast
  then have "card (stale k ?L (stored ?e)) = 0"
    using assms(7) by (simp add: stale_def fresh_def before_cutoff after_cutoff)
  moreover have "finite (stored ?e)"
    using event_store.rounds_only [OF assms(1), of rounds e] assms(3) by (auto intro: finite_subset)
  ultimately show ?thesis using parts_finite(1) by (simp add: r stale_def before_cutoff)
qed

text \<open>C32: And it starves: once as many unexpired events of a kind are stored as a query returns, the
  rounds remove no event of the kind at all, however old it is and however many rounds there are.\<close>

theorem pruner_starves:
  assumes "event_store E stored" and "newest_first limit E stored" and "finite (stored e)"
    and "\<And>cs c. cs \<in> set rounds \<Longrightarrow> c \<in> set cs \<Longrightarrow> pc_kind c = k \<Longrightarrow>
      pc_now c + wrap64 (- pc_ttl c) < (t + 1) * 1000000000"
    and "limit \<le> card {ev \<in> stored e. ev_kind ev = k \<and> t \<le> ev_created_at ev}"
  shows "{ev \<in> stored (runPruner E pruners rounds e). ev_kind ev = k} = {ev \<in> stored e. ev_kind ev = k}"
proof -
  have "{ev \<in> stored (fold (prune_round E) rounds e). ev_kind ev = k} = {ev \<in> stored e. ev_kind ev = k}"
    using assms(3-5)
  proof (induction rounds arbitrary: e)
    case (Cons cs rounds)
    let ?e = "prune_round E cs e"
    have "cutoff (pc_now c) (pc_ttl c) \<le> t" if "c \<in> set cs" "pc_kind c = k" for c
      using Cons.prems(2) [of cs c] that cutoff_le [of "pc_now c" "pc_ttl c" t] by simp
    then have "\<forall>c \<in> set cs. cutoff (pc_now c) (pc_ttl c) \<le> t \<or> pc_kind c \<noteq> k" by blast
    from event_store.round_starves [OF assms(1,2) Cons.prems(1) _ this]
    have f: "finite (stored ?e)" and s: "{ev \<in> stored ?e. ev_kind ev = k} = {ev \<in> stored e. ev_kind ev = k}"
      using Cons.prems(3) by (simp_all add: fresh_def)
    have "{ev \<in> stored ?e. ev_kind ev = k \<and> t \<le> ev_created_at ev}
        = {ev \<in> stored e. ev_kind ev = k \<and> t \<le> ev_created_at ev}"
      using s by blast
    then have "limit \<le> card {ev \<in> stored ?e. ev_kind ev = k \<and> t \<le> ev_created_at ev}"
      using Cons.prems(3) by simp
    then have "{ev \<in> stored (fold (prune_round E) rounds ?e). ev_kind ev = k} = {ev \<in> stored ?e. ev_kind ev = k}"
      by (intro Cons.IH [OF f]) (rule Cons.prems(2), simp_all)
    then show ?case using s by simp
  qed simp
  then show ?thesis by (simp add: runPruner_def)
qed

subsection \<open>Witnesses\<close>

definition prune_later :: prune_call where
  "prune_later = prune_at\<lparr>pc_now := 1700003600000000000\<rparr>"

text \<open>A limit of one: without a recent event two old ones go in two rounds, with one they stay.\<close>

definition recent_event :: event where
  "recent_event = (sample_event 2200 [] [])\<lparr>ev_created_at := 1700003000\<rparr>"

definition older_event :: event where
  "older_event = (sample_event 2200 [] [])\<lparr>ev_created_at := 900\<rparr>"

lemma ranked_deletes: "fst (es_delete (ranked_store l) e ev) = None"
  by (simp add: ranked_store_def list_store_def)

lemma prune_sample:
  "ev_created_at old_event = 1000" "ev_created_at older_event = 900" "ev_created_at recent_event = 1700003000"
  "ev_kind old_event = 2200" "ev_kind older_event = 2200" "ev_kind recent_event = 2200"
  by (simp_all add: old_event_def older_event_def recent_event_def sample_event_def)

lemma cutoff_sample: "cutoff 1700000000000000000 3600000000000 = 1699996400" "cutoff 1700003600000000000 3600000000000 = 1700000000"
  by code_simp+

lemma pruner_converges_witness:
  "{ev \<in> set (runPruner (ranked_store 1) [2200 \<mapsto> 3600000000000] [[prune_at], [prune_later]] [old_event, older_event]).
     ev_kind ev = 2200 \<and> outlived 1700000000000000000 3600000000000 ev} = {}"
proof (rule pruner_converges [OF ranked_event_store ranked_newest_first finite_set ranked_deletes])
  let ?E = "set [old_event, older_event]"
  show "[2200 \<mapsto> 3600000000000] 2200 = Some (3600000000000 :: int)" by simp
  show "round_of [2200 \<mapsto> 3600000000000] cs \<and> (\<forall>c \<in> set cs. 1700000000000000000 \<le> pc_now c)"
    if "cs \<in> set [[prune_at], [prune_later]]" for cs
    using that by (auto simp: round_of_def prune_at_def prune_later_def)
  have "{ev \<in> ?E. ev_kind ev = 2200 \<and> \<not> outlived 1700000000000000000 3600000000000 ev} = {}"
    by (auto simp: before_cutoff [symmetric] prune_sample cutoff_sample)
  then have "card {ev \<in> ?E. ev_kind ev = 2200 \<and> \<not> outlived 1700000000000000000 3600000000000 ev} = 0"
    by (simp only: card.empty)
  moreover have "card {ev \<in> ?E. ev_kind ev = 2200 \<and> outlived 1700000000000000000 3600000000000 ev} \<le> card ?E"
    by (intro card_mono) auto
  moreover have "card ?E \<le> 2" using card_length [of "[old_event, older_event]"] by simp
  moreover have two: "length [[prune_at], [prune_later]] * (1 - 0) = 2" by simp
  ultimately show "card {ev \<in> ?E. ev_kind ev = 2200 \<and> outlived 1700000000000000000 3600000000000 ev}
      \<le> length [[prune_at], [prune_later]] *
         (1 - card {ev \<in> ?E. ev_kind ev = 2200 \<and> \<not> outlived 1700000000000000000 3600000000000 ev})"
    by (simp only: two)
qed

lemma pruner_starves_witness:
  "old_event \<in> set (runPruner (ranked_store 1) [2200 \<mapsto> 3600000000000] [[prune_at], [prune_later]] [old_event, recent_event])"
proof -
  have "pc_now c + wrap64 (- pc_ttl c) < (1700000000 + 1) * 1000000000"
    if "cs \<in> set [[prune_at], [prune_later]]" "c \<in> set cs" for cs c
    using that unfolding cutoff_le [symmetric] by (auto simp: prune_at_def prune_later_def cutoff_sample)
  moreover have "{ev \<in> set [old_event, recent_event]. ev_kind ev = 2200 \<and> 1700000000 \<le> ev_created_at ev} = {recent_event}"
    by (auto simp: prune_sample)
  ultimately have "{ev \<in> set (runPruner (ranked_store 1) [2200 \<mapsto> 3600000000000] [[prune_at], [prune_later]] [old_event, recent_event]). ev_kind ev = 2200}
      = {ev \<in> set [old_event, recent_event]. ev_kind ev = 2200}"
    by (intro pruner_starves [OF ranked_event_store ranked_newest_first finite_set, where t = 1700000000]) simp_all
  moreover have "old_event \<in> {ev \<in> set [old_event, recent_event]. ev_kind ev = 2200}" by (simp add: prune_sample)
  ultimately show ?thesis by blast
qed

end
