(* ===== verification/Management.thy ===== *)
theory Management
  imports RelayProps
begin

text \<open>
  The NIP-86 management calls that \<open>wireManagementAPI\<close> in \<open>src/internal/relay/server.go\<close>
  installs, and the step relation of a relay whose callers make them one after another. khatru
  verifies the caller's signature and asks \<open>RejectAPICall\<close> before it runs a handler; addresses
  reach the handlers parsed (\<open>net.IP\<close>).
\<close>

datatype api_call =
    BanPubKey bytes bytes
  | AllowPubKey bytes bytes
  | ListBannedPubKeys
  | ListAllowedPubKeys
  | ApiAllowKind int
  | ApiDisallowKind int
  | ApiListAllowedKinds
  | ApiListDisallowedKinds
  | ApiBlockIP "int list" bytes
  | ApiUnblockIP "int list" bytes
  | ApiListBlockedIPs
  | ApiGrantAdmin bytes "bytes list"
  | ApiRevokeAdmin bytes "bytes list"
  | ChangeRelayName bytes
  | ChangeRelayDescription bytes
  | ChangeRelayIcon bytes
  | ApiStats

datatype api_result =
    Done "bytes option"
  | PubKeys "pubkey_reason list"
  | Kinds "int list"
  | IPs "ip_reason list"
  | Stats int int int

definition RejectAPICall :: "'d bolt \<Rightarrow> 'd server \<Rightarrow> (bytes \<Rightarrow> api_call \<Rightarrow> hook_result) list" where
  "RejectAPICall B s =
     [\<lambda>authed _. if \<not> IsAdmin B (sv_policy s) authed then reject ''not authorized'' else pass]"

text \<open>Lift a store operation to the server.\<close>

definition on_policy ::
  "('d store \<Rightarrow> bytes option \<times> 'd store) \<Rightarrow> 'd server \<Rightarrow> api_result \<times> 'd server" where
  "on_policy f s = (let (e, p) = f (sv_policy s) in (Done e, s\<lparr>sv_policy := p\<rparr>))"

definition stored_count :: "'e estore \<Rightarrow> 'e \<Rightarrow> int" where
  "stored_count E e =
     (case es_count E of
        None \<Rightarrow> 0
      | Some c \<Rightarrow> (case c e empty_filter of Inl _ \<Rightarrow> 0 | Inr n \<Rightarrow> n))"

fun api_handler ::
  "'d bolt \<Rightarrow> 'e estore \<Rightarrow> map_order \<Rightarrow> 'e \<Rightarrow> api_call \<Rightarrow> 'd server \<Rightarrow> api_result \<times> 'd server" where
  "api_handler B E order e (BanPubKey pk r) s = on_policy (Ban B pk r) s"
| "api_handler B E order e (AllowPubKey pk r) s = on_policy (Allow B pk r) s"
| "api_handler B E order e ListBannedPubKeys s = (PubKeys (ListBanned B order (sv_policy s)), s)"
| "api_handler B E order e ListAllowedPubKeys s = (PubKeys (ListAllowed B order (sv_policy s)), s)"
| "api_handler B E order e (ApiAllowKind k) s = on_policy (AllowKind B k) s"
| "api_handler B E order e (ApiDisallowKind k) s = on_policy (DenyKind B k) s"
| "api_handler B E order e ApiListAllowedKinds s = (Kinds (ListAllowedKinds B order (sv_policy s)), s)"
| "api_handler B E order e ApiListDisallowedKinds s = (Kinds (ListDeniedKinds B order (sv_policy s)), s)"
| "api_handler B E order e (ApiBlockIP ip r) s = on_policy (BlockIP B (ip_text ip) r) s"
| "api_handler B E order e (ApiUnblockIP ip r) s = on_policy (UnblockIP B (ip_text ip)) s"
| "api_handler B E order e ApiListBlockedIPs s = (IPs (ListBlockedIPs B order (sv_policy s)), s)"
| "api_handler B E order e (ApiGrantAdmin pk ms) s = on_policy (GrantAdmin B pk) s"
| "api_handler B E order e (ApiRevokeAdmin pk ms) s = on_policy (RevokeAdmin B pk) s"
| "api_handler B E order e (ChangeRelayName v) s =
     on_policy (SetRelayInfo B ''name'' v) (s\<lparr>sv_info := (sv_info s)\<lparr>in_Name := v\<rparr>\<rparr>)"
| "api_handler B E order e (ChangeRelayDescription v) s =
     on_policy (SetRelayInfo B ''description'' v) (s\<lparr>sv_info := (sv_info s)\<lparr>in_Description := v\<rparr>\<rparr>)"
| "api_handler B E order e (ChangeRelayIcon v) s =
     on_policy (SetRelayInfo B ''icon'' v) (s\<lparr>sv_info := (sv_info s)\<lparr>in_Icon := v\<rparr>\<rparr>)"
| "api_handler B E order e ApiStats s =
     (Stats (int (length (ListBanned B order (sv_policy s)))) (int (length (ListAllowed B order (sv_policy s))))
        (stored_count E e), s)"

text \<open>A call: the hooks, then the handler. \<open>Inl\<close> is the message of a rejection.\<close>

definition manage ::
  "'d bolt \<Rightarrow> 'e estore \<Rightarrow> map_order \<Rightarrow> 'e \<Rightarrow> bytes \<Rightarrow> api_call \<Rightarrow> 'd server
     \<Rightarrow> (bytes + api_result) \<times> 'd server" where
  "manage B E order e authed c s =
     (case first_rejection (RejectAPICall B s) authed c of
        Some r \<Rightarrow> (Inl (fst (snd r)), s)
      | None \<Rightarrow> (let (r, s') = api_handler B E order e c s in (Inr r, s')))"

text \<open>The store operation behind a call, if it writes.\<close>

fun op_of_call :: "api_call \<Rightarrow> policy_op option" where
  "op_of_call (BanPubKey pk r) = Some (DoBan pk r)"
| "op_of_call (AllowPubKey pk r) = Some (DoAllow pk r)"
| "op_of_call (ApiAllowKind k) = Some (DoAllowKind k)"
| "op_of_call (ApiDisallowKind k) = Some (DoDenyKind k)"
| "op_of_call (ApiBlockIP ip r) = Some (DoBlockIP (ip_text ip) r)"
| "op_of_call (ApiUnblockIP ip r) = Some (DoUnblockIP (ip_text ip))"
| "op_of_call (ApiGrantAdmin pk ms) = Some (DoGrantAdmin pk)"
| "op_of_call (ApiRevokeAdmin pk ms) = Some (DoRevokeAdmin pk)"
| "op_of_call (ChangeRelayName v) = Some (DoSetRelayInfo ''name'' v)"
| "op_of_call (ChangeRelayDescription v) = Some (DoSetRelayInfo ''description'' v)"
| "op_of_call (ChangeRelayIcon v) = Some (DoSetRelayInfo ''icon'' v)"
| "op_of_call _ = None"

lemma handler_op:
  "op_of_call c = Some p \<Longrightarrow>
   sv_policy (snd (api_handler B E order e c s)) = snd (run_op B ord p (sv_policy s)) \<and>
   fst (api_handler B E order e c s) = Done (fst (run_op B ord p (sv_policy s)))"
  by (cases c) (auto simp: on_policy_def case_prod_beta' Let_def)

lemma handler_reads: "op_of_call c = None \<Longrightarrow> snd (api_handler B E order e c s) = s"
  by (cases c) auto

lemma handler_cfg: "sv_cfg (snd (api_handler B E order e c s)) = sv_cfg s"
  by (cases c) (auto simp: on_policy_def case_prod_beta' Let_def)

lemma first_rejection_admin:
  "first_rejection (RejectAPICall B s) authed c =
     (if IsAdmin B (sv_policy s) authed then None else Some (reject ''not authorized''))"
  by (simp add: first_rejection_def RejectAPICall_def reject_def pass_def)

lemma manage_cases:
  "manage B E order e authed c s =
     (if IsAdmin B (sv_policy s) authed
      then (Inr (fst (api_handler B E order e c s)), snd (api_handler B E order e c s))
      else (Inl ''not authorized'', s))"
  by (simp add: manage_def first_rejection_admin reject_def case_prod_beta' Let_def)

lemma calls_lift_bans: "op_of_call c = Some p \<Longrightarrow> lifts_bans p"
  by (cases c) (auto simp: lifts_bans_def)

text \<open>Runs of a relay under management: any caller, any call, in any order.\<close>

inductive api_step ::
  "'d bolt \<Rightarrow> 'e estore \<Rightarrow> map_order \<Rightarrow> bytes \<times> api_call \<Rightarrow> 'd server \<Rightarrow> 'd server \<Rightarrow> bool"
  for B E order where
  call: "manage B E order e authed c s = (r, s') \<Longrightarrow> api_step B E order (authed, c) s s'"

inductive api_run ::
  "'d bolt \<Rightarrow> 'e estore \<Rightarrow> map_order \<Rightarrow> 'd server \<Rightarrow> (bytes \<times> api_call) list \<Rightarrow> 'd server \<Rightarrow> bool"
  for B E order s where
  start: "api_run B E order s [] s"
| step: "api_run B E order s cs t \<Longrightarrow> api_step B E order c t u \<Longrightarrow> api_run B E order s (cs @ [c]) u"

inductive_simps api_step_iff: "api_step B E order (authed, c) s s'"

context store_impl
begin

lemma manage_view:
  assumes "store_open B ok (sv_policy s)" "manage B E order e authed c s = (r, s')"
  shows "store_open B ok (sv_policy s') \<and> sv_cfg s' = sv_cfg s \<and>
    (policy_of B (sv_policy s') = policy_of B (sv_policy s) \<or>
     IsAdmin B (sv_policy s) authed \<and>
     (\<exists>p. op_of_call c = Some p \<and> policy_of B (sv_policy s') = spec_op p (policy_of B (sv_policy s))))"
proof (cases "IsAdmin B (sv_policy s) authed")
  case False
  then show ?thesis using assms by (simp add: manage_cases)
next
  case True
  then have s': "s' = snd (api_handler B E order e c s)" using assms(2) by (simp add: manage_cases)
  show ?thesis
  proof (cases "op_of_call c")
    case None
    then show ?thesis using assms(1) s' by (simp add: handler_reads)
  next
    case (Some p)
    obtain x q where q: "run_op B ord p (sv_policy s) = (x, q)" by fastforce
    then have q': "sv_policy s' = q" using handler_op [OF Some, of B E order e s ord] s' by simp
    show ?thesis
    proof (cases x)
      case None
      then show ?thesis using op_done [OF assms(1)] q q' Some True s' handler_cfg by metis
    next
      case (Some y)
      then have "q = sv_policy s" using op_failed q by blast
      then show ?thesis using assms(1) q' s' handler_cfg by metis
    qed
  qed
qed

lemma manage_done:
  assumes "store_open B ok (sv_policy s)" "manage B E order e authed c s = (Inr (Done None), s')"
    and "op_of_call c = Some p"
  shows "s' = snd (api_handler B E order e c s) \<and> store_open B ok (sv_policy s') \<and>
    policy_of B (sv_policy s') = spec_op p (policy_of B (sv_policy s))"
proof -
  have s': "s' = snd (api_handler B E order e c s)" "fst (api_handler B E order e c s) = Done None"
    using assms(2) by (auto simp: manage_cases split: if_splits)
  then have "run_op B ord p (sv_policy s) = (None, sv_policy s')"
    using handler_op [OF assms(3), of B E order e s ord] by (metis api_result.inject(1) prod.collapse)
  from op_done [OF assms(1) this] s'(1) show ?thesis by simp
qed

lemma run_view:
  assumes "api_run B E order s cs t" "store_open B ok (sv_policy s)"
  shows "store_open B ok (sv_policy t) \<and> sv_cfg t = sv_cfg s"
  using assms(1)
proof (induction rule: api_run.induct)
  case start show ?case using assms(2) by simp
next
  case (step cs t c u)
  then show ?case by (cases c) (metis api_step_iff manage_view)
qed

lemma run_invariant:
  assumes "api_run B E order s cs t" "store_open B ok (sv_policy s)"
    and "P (policy_of B (sv_policy s))"
    and "\<And>p authed c op. P p \<Longrightarrow> authed \<in> p_admins p \<Longrightarrow> (authed, c) \<in> set cs \<Longrightarrow>
      op_of_call c = Some op \<Longrightarrow> P (spec_op op p)"
  shows "P (policy_of B (sv_policy t))"
  using assms(1,4)
proof (induction rule: api_run.induct)
  case start show ?case using assms(3) by simp
next
  case (step cs t c u)
  obtain a k where c: "c = (a, k)" by fastforce
  have o: "store_open B ok (sv_policy t)" using run_view [OF step.hyps(1) assms(2)] by simp
  have "P (policy_of B (sv_policy t))" using step.IH step.prems by (metis Un_iff set_append)
  moreover obtain e r where "manage B E order e a k t = (r, u)"
    using step.hyps(2) c by (auto simp: api_step_iff)
  note v = manage_view [OF o this]
  have "IsAdmin B (sv_policy t) a \<longleftrightarrow> a \<in> p_admins (policy_of B (sv_policy t))"
    by (rule store_policy(1) [OF bolt_db_axioms o])
  ultimately show ?case using v step.prems [of "policy_of B (sv_policy t)" a k] c by auto
qed

end

section \<open>Properties\<close>

text \<open>A management call by a key that is not an administrator is answered with "not authorized" and
  changes nothing. By an administrator, a writing call performs its store operation and reports that
  operation's error, a reading call changes nothing, and no call touches the configuration.\<close>

theorem api_guarded:
  assumes "store_impl B ok ord" and "store_open B ok (sv_policy s)"
  shows "(\<not> IsAdmin B (sv_policy s) authed \<longrightarrow> manage B E order e authed c s = (Inl ''not authorized'', s)) \<and>
    (IsAdmin B (sv_policy s) authed \<longrightarrow>
      (case op_of_call c of
         None \<Rightarrow> snd (manage B E order e authed c s) = s
       | Some p \<Rightarrow>
           (\<exists>err. fst (manage B E order e authed c s) = Inr (Done err) \<and>
              policy_of B (sv_policy (snd (manage B E order e authed c s))) =
                (if err = None then spec_op p (policy_of B (sv_policy s)) else policy_of B (sv_policy s))))) \<and>
    sv_cfg (snd (manage B E order e authed c s)) = sv_cfg s"
proof -
  have w: "\<exists>err. fst (api_handler B E order e c s) = Done err \<and>
      policy_of B (sv_policy (snd (api_handler B E order e c s))) =
        (if err = None then spec_op p (policy_of B (sv_policy s)) else policy_of B (sv_policy s))"
    if p: "op_of_call c = Some p" for p
  proof -
    obtain x q where q: "run_op B ord p (sv_policy s) = (x, q)" by fastforce
    note h = handler_op [OF p, of B E order e s ord]
    show ?thesis
    proof (cases x)
      case None
      then show ?thesis using h q store_impl.op_done [OF assms] by simp
    next
      case (Some y)
      then have "q = sv_policy s" using store_impl.op_failed [OF assms(1)] q by blast
      then show ?thesis using h q Some by simp
    qed
  qed
  show ?thesis
  proof (cases "op_of_call c")
    case None
    then show ?thesis by (simp add: manage_cases handler_cfg handler_reads)
  next
    case (Some p)
    from w [OF Some] obtain err where "fst (api_handler B E order e c s) = Done err"
      "policy_of B (sv_policy (snd (api_handler B E order e c s))) =
        (if err = None then spec_op p (policy_of B (sv_policy s)) else policy_of B (sv_policy s))"
      by blast
    then show ?thesis using Some by (simp add: manage_cases handler_cfg)
  qed
qed

lemma run_gains_no_admin:
  assumes "store_impl B ok ord" "store_open B ok (sv_policy s)" "api_run B E order s cs t"
    and "A \<inter> p_admins (policy_of B (sv_policy s)) = {}"
    and "\<forall>(a, c) \<in> set cs. a \<notin> A \<longrightarrow> (\<forall>k \<in> A. \<forall>ms. c \<noteq> ApiGrantAdmin k ms)"
  shows "A \<inter> p_admins (policy_of B (sv_policy t)) = {}"
proof (rule store_impl.run_invariant [OF assms(1,3,2), where P = "\<lambda>p. A \<inter> p_admins p = {}"])
  show "A \<inter> p_admins (policy_of B (sv_policy s)) = {}" by (rule assms(4))
next
  fix p :: policy and a c x
  assume "A \<inter> p_admins p = {}" "a \<in> p_admins p" "(a, c) \<in> set cs" "op_of_call c = Some x"
  then show "A \<inter> p_admins (spec_op x p) = {}" using assms(5) by (cases c) fastforce+
qed

text \<open>The calls of a set of keys left out.\<close>

definition without :: "bytes set \<Rightarrow> (bytes \<times> api_call) list \<Rightarrow> (bytes \<times> api_call) list" where
  "without A cs = filter (\<lambda>(a, c). a \<notin> A) cs"

text \<open>Calls of keys that are never administrators are without effect.\<close>

lemma run_without:
  assumes "store_impl B ok ord" "store_open B ok (sv_policy s)" "A \<inter> p_admins (policy_of B (sv_policy s)) = {}"
  shows "api_run B E order s cs t \<Longrightarrow>
    \<forall>(a, c) \<in> set cs. a \<notin> A \<longrightarrow> (\<forall>k \<in> A. \<forall>ms. c \<noteq> ApiGrantAdmin k ms) \<Longrightarrow> api_run B E order s (without A cs) t"
proof (induction rule: api_run.induct)
  case start
  show ?case by (simp add: without_def api_run.start)
next
  case (step cs t x u)
  obtain a c where x: "x = (a, c)" by (rule prod.exhaust)
  have g: "\<forall>(a, c) \<in> set cs. a \<notin> A \<longrightarrow> (\<forall>k \<in> A. \<forall>ms. c \<noteq> ApiGrantAdmin k ms)" using step.prems by auto
  note ih = step.IH [OF g]
  show ?case
  proof (cases "a \<in> A")
    case False
    then have "without A (cs @ [x]) = without A cs @ [x]" by (simp add: without_def x)
    then show ?thesis using api_run.step [OF ih step.hyps(2)] by simp
  next
    case True
    have db: "bolt_db B ok" using assms(1) by (simp add: store_impl_def)
    have o: "store_open B ok (sv_policy t)" using store_impl.run_view [OF assms(1) step.hyps(1) assms(2)] by simp
    have "\<not> IsAdmin B (sv_policy t) a"
      using run_gains_no_admin [OF assms(1,2) step.hyps(1) assms(3) g] True by (auto simp: store_policy(1) [OF db o])
    then have "u = t" using step.hyps(2) unfolding x api_step_iff by (auto simp: manage_cases)
    moreover have "without A (cs @ [x]) = without A cs" using True by (simp add: without_def x)
    ultimately show ?thesis using ih by simp
  qed
qed

text \<open>C9: No privilege escalation: take a set of keys none of which is an administrator. Over any run of
  management calls, by any callers in any order, none of them becomes one, as long as nobody outside the
  set grants one of them the role, and their own calls have no effect at all: the run with these calls
  left out ends in the same server, policy store and relay information included.\<close>

theorem no_escalation:
  assumes "store_impl B ok ord" and "store_open B ok (sv_policy s)" and "api_run B E order s cs t"
    and "\<forall>k \<in> A. \<not> IsAdmin B (sv_policy s) k"
    and "\<forall>(a, c) \<in> set cs. a \<notin> A \<longrightarrow> (\<forall>k \<in> A. \<forall>ms. c \<noteq> ApiGrantAdmin k ms)"
  shows "(\<forall>k \<in> A. \<not> IsAdmin B (sv_policy t) k) \<and> api_run B E order s (without A cs) t"
proof -
  have db: "bolt_db B ok" using assms(1) by (simp add: store_impl_def)
  have o: "store_open B ok (sv_policy t)" using store_impl.run_view [OF assms(1,3,2)] by simp
  have n: "A \<inter> p_admins (policy_of B (sv_policy s)) = {}"
    using assms(4) by (auto simp: store_policy(1) [OF db assms(2)])
  have "A \<inter> p_admins (policy_of B (sv_policy t)) = {}"
    by (rule run_gains_no_admin [OF assms(1-3) n assms(5)])
  then show ?thesis
    using run_without [OF assms(1,2) n assms(3,5)] by (auto simp: store_policy(1) [OF db o])
qed

text \<open>Management calls never leave a key both banned and allowed, whoever makes them and whether or
  not they succeed.\<close>

theorem api_runs_exclusive:
  assumes "store_impl B ok ord" and "store_open B ok (sv_policy s)" and "api_run B E order s cs t"
    and "\<And>k. \<not> (IsBanned B (sv_policy s) k \<and> IsAllowed B (sv_policy s) k)"
  shows "store_open B ok (sv_policy t) \<and> \<not> (IsBanned B (sv_policy t) k \<and> IsAllowed B (sv_policy t) k)"
proof -
  have db: "bolt_db B ok" using assms(1) by (simp add: store_impl_def)
  have o: "store_open B ok (sv_policy t)" using store_impl.run_view [OF assms(1,3,2)] by simp
  have "exclusive (policy_of B (sv_policy t))"
  proof (rule store_impl.run_invariant [OF assms(1,3,2), where P = exclusive])
    show "exclusive (policy_of B (sv_policy s))"
      using assms(4) by (auto simp: exclusive_iff store_policy [OF db assms(2)])
  next
    fix p :: policy and a c x assume "exclusive p" "op_of_call c = Some x"
    then show "exclusive (spec_op x p)" using spec_exclusive calls_lift_bans by blast
  qed
  then show ?thesis using o by (auto simp: exclusive_iff store_policy [OF db o])
qed

text \<open>Blocking an IPv4 address is felt by connections: after an administrator blocks it with
  success, every connection from it is refused whatever its port, and a connection from another IPv4
  address is refused exactly when it was before; unblocking undoes it.\<close>

theorem block_ip_connection:
  assumes "store_impl B ok ord" and "store_open B ok (sv_policy s)"
    and "c = ApiBlockIP (v4_in_v6 [a1, a2, a3, a4]) r \<or> c = ApiUnblockIP (v4_in_v6 [a1, a2, a3, a4]) r"
    and "manage B E order e authed c s = (Inr (Done None), s')"
    and "octet a1" "octet a2" "octet a3" "octet a4" "octet b1" "octet b2" "octet b3" "octet b4"
    and "list_all is_digit port"
  shows "rejectBlockedIP B s' (dotted b1 b2 b3 b4 @ '':'' @ port) =
    (if (b1, b2, b3, b4) = (a1, a2, a3, a4) then c = ApiBlockIP (v4_in_v6 [a1, a2, a3, a4]) r
     else rejectBlockedIP B s (dotted b1 b2 b3 b4 @ '':'' @ port))"
proof -
  have db: "bolt_db B ok" using assms(1) by (simp add: store_impl_def)
  let ?ip = "dotted a1 a2 a3 a4" let ?h = "dotted b1 b2 b3 b4"
  let ?op = "if c = ApiBlockIP (v4_in_v6 [a1, a2, a3, a4]) r then DoBlockIP ?ip r else DoUnblockIP ?ip"
  have op: "op_of_call c = Some ?op" using assms(3) by (auto simp: ip_text_v4)
  note v = store_impl.manage_done [OF assms(1,2,4) op, THEN conjunct2]
  have "set port \<inter> {CHR '':'', CHR ''['', CHR '']''} = {}"
    using assms(13) by (auto simp: list_all_iff is_digit_def byte_def)
  then have h: "split_host (?h @ '':'' @ port) = Some ?h"
    using split_host_plain [of ?h port] dotted_chars [OF assms(9-12)] by simp
  have inj: "?h = ?ip \<longleftrightarrow> (b1, b2, b3, b4) = (a1, a2, a3, a4)"
    using ParseIP_dotted [OF assms(5-8)] ParseIP_dotted [OF assms(9-12)] by (auto simp: v4_in_v6_def)
  have "IsIPBlocked B (sv_policy s') ?h =
      (if ?h = ?ip then c = ApiBlockIP (v4_in_v6 [a1, a2, a3, a4]) r else IsIPBlocked B (sv_policy s) ?h)"
    using v by (auto simp: store_policy [OF db assms(2)] store_policy [OF db conjunct1 [OF v]] split: if_splits)
  then show ?thesis using h inj by (simp add: rejectBlockedIP_def)
qed

subsection \<open>Relay fields across restarts\<close>

text \<open>A relay name set by an administrator is shown at once and again after a restart on the same
  database, whatever the configuration says; setting it to the empty string shows the empty name until
  the restart, which falls back to the configured one.\<close>

theorem relay_name_restart:
  assumes "store_impl B ok ord" and "store_open B ok (sv_policy s)"
    and "manage B E order e authed (ChangeRelayName v) s = (Inr (Done None), s')"
    and "store_impl B' ok' ord'" and "file_ok B' (PolicyDBPath cfg)" and "bk_open B' (PolicyDBPath cfg) = Inr d"
    and "opened B' d bucketInfo = p_info (policy_of B (sv_policy s'))"
    and "New X B' ord' share cfg = Inr s2"
  shows "in_Name (sv_info s') = v \<and> in_Name (sv_info s2) = (if v = [] then Name cfg else v)"
proof -
  have db: "bolt_db B' ok'" using assms(4) by (simp add: store_impl_def)
  have "op_of_call (ChangeRelayName v) = Some (DoSetRelayInfo ''name'' v)" by simp
  note m = store_impl.manage_done [OF assms(1-3) this]
  note view = m [THEN conjunct2, THEN conjunct2]
  note f = store_impl.final_admins [OF assms(4,8,5)]
  note i = store_impl.final_info [OF assms(4,8,5,6)]
  have "GetRelayInfo B' (sv_policy s2) ''name'' = v"
    using i view assms(7) by (simp add: store_policy [OF db conjunct1 [OF f]])
  then have "in_Name (sv_info s2) = (if v = [] then Name cfg else v)"
    using i by (simp add: relay_info_of_def or_stored_def)
  moreover have "in_Name (sv_info s') = v"
    using m [THEN conjunct1] by (simp add: on_policy_def case_prod_beta' Let_def)
  ultimately show ?thesis by simp
qed

subsection \<open>Witnesses\<close>

abbreviation "stored_events \<equiv> list_store 5000"

definition plain_server :: "mem server" where
  "plain_server =
     \<lparr>sv_policy = \<lparr>st_db = old_disk, st_allowlist = True\<rparr>, sv_cfg = relay_config,
      sv_info = rx_new_info sample_relay_ext, sv_ServiceURL = [], sv_Negentropy = True,
      sv_MaxLimit = 20000, sv_pruners = Map.empty\<rparr>"

lemma sample_open_policy: "store_open olddb mem_ok (sv_policy plain_server)"
proof -
  have "mem_ok old_disk" by (simp add: mem_ok_def old_pairs)
  moreover have "bk_bucket olddb old_disk b" if "b \<in> set bucket_list" for b
    using that by (auto simp: bucket_list_def mem_bolt_def mem_bucket_def old_disk_def)
  moreover have "opened olddb old_disk b = bk_get olddb old_disk b" if "b \<in> set bucket_list" for b
    using calculation(2) [OF that] by (simp add: opened_def)
  ultimately show ?thesis
    using old_file [unfolded file_ok_def, rule_format, OF old_open]
    by (simp add: plain_server_def store_open_def db_ready_def kind_keys_def)
      (simp add: mem_bolt_def old_disk_def)
qed

lemma op_is_admin: "IsAdmin olddb (sv_policy plain_server) ''op''"
  by code_simp

lemma bot_not_admin: "\<not> IsAdmin olddb (sv_policy plain_server) ''bot''"
  by code_simp

lemma api_guarded_witness:
  "manage olddb stored_events id [] ''bot'' (BanPubKey ''op'' ''coup'') plain_server = (Inl ''not authorized'', plain_server)"
  by (rule api_guarded [OF old_impl sample_open_policy, THEN conjunct1, THEN mp, OF bot_not_admin])

lemma bot_run: "api_run olddb stored_events id plain_server [(''bot'', ApiGrantAdmin ''bot'' [])] plain_server"
proof -
  have "manage olddb stored_events id [] ''bot'' (ApiGrantAdmin ''bot'' []) plain_server =
      (Inl ''not authorized'', plain_server)"
    using bot_not_admin by (simp add: manage_cases)
  then have "api_step olddb stored_events id (''bot'', ApiGrantAdmin ''bot'' []) plain_server plain_server"
    by (rule api_step.call)
  from api_run.step [OF api_run.start this] show ?thesis by simp
qed

lemma no_escalation_witness: "\<not> IsAdmin olddb (sv_policy plain_server) ''bot''"
  using no_escalation [OF old_impl sample_open_policy bot_run, of "{''bot''}"] bot_not_admin by auto

lemma api_runs_exclusive_witness:
  "\<not> (IsBanned olddb (sv_policy plain_server) ''bot'' \<and> IsAllowed olddb (sv_policy plain_server) ''bot'')"
proof -
  have "listKV olddb (sv_policy plain_server) bucketBanned = []" by code_simp
  then have "bk_get olddb (st_db (sv_policy plain_server)) bucketBanned = Map.empty"
    using bolt_db.pairs_open [OF _ sample_open_policy, of bucketBanned] sample_open_policy old_impl
    by (simp add: listKV_def store_impl_def)
  then have "\<not> (IsBanned olddb (sv_policy plain_server) k \<and> IsAllowed olddb (sv_policy plain_server) k)" for k
    using sample_open_policy by (simp add: IsBanned_def)
  from api_runs_exclusive [OF old_impl sample_open_policy bot_run this] show ?thesis by blast
qed

lemma block_ip_connection_witness:
  "rejectBlockedIP olddb (snd (manage olddb stored_events id [] ''op'' (ApiBlockIP (v4_in_v6 [10, 0, 0, 1]) ''abuse'') plain_server))
     (dotted 10 0 0 1 @ '':'' @ ''443'')"
proof -
  have f: "fst (manage olddb stored_events id [] ''op'' (ApiBlockIP (v4_in_v6 [10, 0, 0, 1]) ''abuse'') plain_server) = Inr (Done None)"
    by code_simp
  have o: "octet 10" "octet 0" "octet 1" by (simp_all add: octet_def)
  have m: "manage olddb stored_events id [] ''op'' (ApiBlockIP (v4_in_v6 [10, 0, 0, 1]) ''abuse'') plain_server =
      (Inr (Done None), snd (manage olddb stored_events id [] ''op'' (ApiBlockIP (v4_in_v6 [10, 0, 0, 1]) ''abuse'') plain_server))"
    using f by (metis prod.collapse)
  have "list_all is_digit ''443''" by code_simp
  from block_ip_connection [OF old_impl sample_open_policy disjI1 [OF refl] m o(1,2,2,3) o(1,2,2,3) this]
  show ?thesis by simp
qed

lemma relay_name_restart_witness:
  "in_Name (sv_info (snd (manage olddb stored_events id [] ''op'' (ChangeRelayName []) plain_server))) = [] \<and>
   in_Name (sv_info sample_server) = Name relay_config"
proof -
  let ?m = "manage olddb stored_events id [] ''op'' (ChangeRelayName []) plain_server"
  have "fst ?m = Inr (Done None)" by code_simp
  then have m: "?m = (Inr (Done None), snd ?m)" by (metis prod.collapse)
  have g: "policy_of olddb (sv_policy (snd ?m)) =
      spec_op (DoSetRelayInfo ''name'' []) (policy_of olddb (sv_policy plain_server))"
    by (rule store_impl.manage_done [OF old_impl sample_open_policy m, THEN conjunct2, THEN conjunct2]) simp
  have "opened olddb old_disk bucketInfo = p_info (policy_of olddb (sv_policy (snd ?m)))"
    by (simp add: g) (simp add: plain_server_def policy_of_def policy_in_def opened_def mem_bolt_def old_pairs fun_eq_iff)
  from relay_name_restart [OF old_impl sample_open_policy m old_impl old_file old_open this sample_up]
  show ?thesis by (simp add: relay_config_defs)
qed

end
