(* ===== verification/Restart.thy ===== *)
theory Restart
  imports Lifecycle Management
begin

text \<open>
  What outlives the process: which decisions of the administrators a start of the relay keeps, and whose
  signatures carry authority on a relay that was started from its configuration and managed since.
\<close>

subsection \<open>Starting on an existing policy file\<close>

text \<open>The keys that the configuration names.\<close>

definition configured_keys :: "config \<Rightarrow> bytes set" where
  "configured_keys cfg =
     configured_admins cfg \<union> {ServerPubkey cfg, NoticePubkey cfg, PublisherPubkey cfg} \<union> set (AgentPubkeys cfg)"

text \<open>From one policy to another, only bans of keys in \<open>K\<close> were lifted and nothing was banned, blocked
  or denied, or released from a block or a denial.\<close>

definition keeps :: "bytes set \<Rightarrow> policy \<Rightarrow> policy \<Rightarrow> bool" where
  "keeps K p q \<longleftrightarrow>
     p_ips q = p_ips p \<and> p_kinds_denied q = p_kinds_denied p \<and>
     (\<forall>k. p_banned q k = p_banned p k \<or> (k \<in> K \<and> p_banned q k = None))"

lemma keeps_refl: "keeps K p p"
  by (simp add: keeps_def)

lemma keeps_trans: "keeps K p q \<Longrightarrow> keeps K q r \<Longrightarrow> keeps K p r"
  unfolding keeps_def by (metis (no_types, lifting))

definition harmless :: "bytes set \<Rightarrow> policy_op \<Rightarrow> bool" where
  "harmless K c \<longleftrightarrow>
     (case c of
        DoGrantAdmin _ \<Rightarrow> True | DoSyncAdmins _ \<Rightarrow> True | DoAllowKind _ \<Rightarrow> True
      | DoAllow k _ \<Rightarrow> k \<in> K | DoSyncAllowed ks _ \<Rightarrow> set ks \<subseteq> K | _ \<Rightarrow> False)"

lemma harmless_keeps: "harmless K c \<Longrightarrow> keeps K p (spec_op c p)"
  by (cases c) (auto simp: harmless_def keeps_def wanted_set_def)

lemma harmless_run: "\<forall>c \<in> set cs. harmless K c \<Longrightarrow> keeps K p (fold spec_op cs p)"
  by (induction cs arbitrary: p) (auto intro: keeps_refl keeps_trans harmless_keeps)

lemma seeds_harmless: "set admins - {[]} \<subseteq> K \<Longrightarrow> \<forall>c \<in> set (succeeded (seed_ops admins kinds) es). harmless K c"
  unfolding subset_iff by (auto simp: succeeded_def seed_ops_def harmless_def dest!: set_zip_leftD split: if_splits)

context store_impl
begin

lemma start_keeps:
  assumes "New X B ord share cfg = Inr s" "file_ok B (PolicyDBPath cfg)" "bk_open B (PolicyDBPath cfg) = Inr d"
  shows "keeps (configured_keys cfg) (policy_in (opened B d) (AllowlistModeFlag cfg)) (policy_of B (sv_policy s)) \<and>
    (\<forall>k \<in> set (agent_keys X cfg) - {[]}. p_banned (policy_of B (sv_policy s)) k = None)"
proof (rule new_trace [OF assms(1,2)])
  fix d' es p0 p2 p4
  assume d': "bk_open B (PolicyDBPath cfg) = Inr d'" and o: "store_open B ok p0" "store_open B ok p2"
    and p0: "policy_of B p0 = fold spec_op (succeeded (seed_ops (adminsFrom cfg) (AllowedKinds cfg)) (es :: bytes option list))
       (policy_in (opened B d') (AllowlistModeFlag cfg))"
    and p2: "policy_of B p2 = spec_op (DoSyncAdmins (adminsFrom cfg))
       (policy_of B (allow_valid X B (ServerPubkey cfg) ''server'' p0))"
    and p4: "p4 = allow_valid X B (PublisherPubkey cfg) ''publisher'' (allow_valid X B (NoticePubkey cfg) ''portal'' p2)"
    and s: "policy_of B (sv_policy s) = spec_op (DoSyncAllowed (agent_keys X cfg) ''agent'') (policy_of B p4)"
  let ?K = "configured_keys cfg"
  have valid: "keeps ?K (policy_of B p) (policy_of B (allow_valid X B k r p))"
    if "store_open B ok p" "k \<in> ?K" for p k r
    using allow_valid_view [OF that(1), of X k r] harmless_keeps [of ?K "DoAllow k r"] that(2) keeps_refl
    by (auto simp: harmless_def)
  have "set (adminsFrom cfg) - {[]} \<subseteq> ?K" by (auto simp: adminsFrom_def configured_keys_def configured_admins_def)
  then have "keeps ?K (policy_in (opened B d') (AllowlistModeFlag cfg)) (policy_of B p0)"
    unfolding p0 by (intro harmless_run seeds_harmless)
  moreover have "keeps ?K (policy_of B p0) (policy_of B (allow_valid X B (ServerPubkey cfg) ''server'' p0))"
    by (rule valid [OF o(1)]) (simp add: configured_keys_def)
  moreover have "keeps ?K (policy_of B (allow_valid X B (ServerPubkey cfg) ''server'' p0)) (policy_of B p2)"
    unfolding p2 by (rule harmless_keeps) (simp add: harmless_def)
  moreover have "keeps ?K (policy_of B p2) (policy_of B (allow_valid X B (NoticePubkey cfg) ''portal'' p2))"
    by (rule valid [OF o(2)]) (simp add: configured_keys_def)
  moreover have "keeps ?K (policy_of B (allow_valid X B (NoticePubkey cfg) ''portal'' p2)) (policy_of B p4)"
    unfolding p4 by (rule valid [OF allow_valid_open [OF o(2)]]) (simp add: configured_keys_def)
  moreover have "keeps ?K (policy_of B p4) (policy_of B (sv_policy s))"
    unfolding s by (rule harmless_keeps) (auto simp: harmless_def agent_keys_def configured_keys_def)
  moreover have "\<forall>k \<in> set (agent_keys X cfg) - {[]}. p_banned (policy_of B (sv_policy s)) k = None"
    by (simp add: s wanted_set_def)
  moreover have "d' = d" using d' assms(3) by simp
  ultimately show ?thesis by (metis keeps_trans)
qed

end

text \<open>C17: A start of the relay keeps what administrators decided: an address is blocked exactly when it was
  in the file, no kind denied there is accepted, nobody is newly banned, and a ban holds unless the
  configuration names the key. A ban of a configured agent, though, is gone after the next start.\<close>

theorem restart_keeps_decisions:
  assumes "store_impl B ok ord" and "file_ok B (PolicyDBPath cfg)" and "New X B ord share cfg = Inr s"
    and "bk_open B (PolicyDBPath cfg) = Inr d"
  shows "(IsIPBlocked B (sv_policy s) ip \<longleftrightarrow> opened B d bucketIPs ip \<noteq> None) \<and>
    (opened B d bucketKindsDenied (itoa n) \<noteq> None \<longrightarrow> \<not> KindAllowed B (sv_policy s) n) \<and>
    (IsBanned B (sv_policy s) k \<longrightarrow> opened B d bucketBanned k \<noteq> None) \<and>
    (opened B d bucketBanned k \<noteq> None \<and> k \<notin> configured_keys cfg \<longrightarrow> IsBanned B (sv_policy s) k) \<and>
    (k \<in> set (AgentPubkeys cfg) \<and> rx_valid_key X k \<and> k \<noteq> [] \<longrightarrow> \<not> IsBanned B (sv_policy s) k)"
proof -
  have db: "bolt_db B ok" using assms(1) by (simp add: store_impl_def)
  note k = store_impl.start_keeps [OF assms(1,3,2,4)]
  note p = store_policy [OF db conjunct1 [OF store_impl.final_admins [OF assms(1,3,2)]]]
  show ?thesis
    using k by (auto simp: p keeps_def policy_in_def spec_kind_allowed_def agent_keys_def) (metis option.distinct(1))+
qed

text \<open>A key that an operator allowed and that the configuration then lists as an agent has its entry taken
  over; when it is taken out of the configuration again, the operator's permission is gone with it.\<close>

theorem operator_entry_revoked:
  assumes "store_impl B ok ord" and "store_open B ok s" and "IsAllowed B s k"
    and "SyncAllowed B ord [k] r s = (None, s1)" and "SyncAllowed B ord [] r s1 = (None, s2)"
    and "k \<noteq> []"
  shows "\<not> IsAllowed B s2 k"
proof -
  have db: "bolt_db B ok" using assms(1) by (simp add: store_impl_def)
  have 1: "store_open B ok s1" "policy_of B s1 = spec_op (DoSyncAllowed [k] r) (policy_of B s)"
    using store_impl.op_done [OF assms(1,2), of "DoSyncAllowed [k] r" s1] assms(4) by simp_all
  have 2: "store_open B ok s2" "policy_of B s2 = spec_op (DoSyncAllowed [] r) (policy_of B s1)"
    using store_impl.op_done [OF assms(1) 1(1), of "DoSyncAllowed [] r" s2] assms(5) by simp_all
  show ?thesis using assms(6) by (simp add: store_policy [OF db 2(1)] 2(2) 1(2) wanted_set_def)
qed

subsection \<open>Authority on a managed relay\<close>

text \<open>Authority is traced to the configuration: take any set of keys of which the configuration makes
  none an administrator. On a relay that the process started and that anybody has been calling since, as
  long as nobody outside the set granted one of them the role, no event that one of these keys
  signed is accepted as a capability grant, a trust policy, an identity definition or, unless it is the
  server key, an execution event.\<close>

theorem authority_from_configuration:
  assumes "store_impl B ok ord" and "\<And>path. file_ok B path"
    and "control_main X B E ord share read_file unmarshal cfgPath e = Inr (s, host, port)"
    and "api_run B E order s cs t" and "A \<inter> configured_admins (sv_cfg s) = {}"
    and "\<forall>(a, c) \<in> set cs. a \<notin> A \<longrightarrow> (\<forall>k \<in> A. \<forall>ms. c \<noteq> ApiGrantAdmin k ms)"
    and "passes (RejectEvent X B t) authed ev" and "ev_pubkey ev \<in> A"
  shows "ev_kind ev \<notin> admin_kinds \<and>
    (ev_kind ev \<in> execution_kinds \<longrightarrow> ServerPubkey (sv_cfg s) \<noteq> [] \<and> ev_pubkey ev = ServerPubkey (sv_cfg s))"
proof -
  have db: "bolt_db B ok" using assms(1) by (simp add: store_impl_def)
  obtain cfg where n: "New X B ord share cfg = Inr s"
    using assms(3) by (auto simp: control_main_def Let_def split: prod.splits option.splits sum.splits)
  note f = store_impl.final_admins [OF assms(1) n assms(2)]
  have r: "store_open B ok (sv_policy t)" "sv_cfg t = sv_cfg s"
    using store_impl.run_view [OF assms(1,4)] f by simp_all
  have "A \<inter> p_admins (policy_of B (sv_policy t)) = {}"
    using run_gains_no_admin [OF assms(1) conjunct1 [OF f] assms(4) _ assms(6)] assms(5) f by simp
  then show ?thesis
    using accepted [OF db r(1), of X authed ev] assms(7,8) r(2) by (auto simp: author_ok_def)
qed

subsection \<open>Witnesses\<close>

lemma restart_keeps_decisions_witness:
  "\<not> IsIPBlocked olddb (sv_policy sample_server) ''10.0.0.1'' \<and> \<not> IsBanned olddb (sv_policy sample_server) ''bot''"
proof -
  have "opened olddb old_disk bucketIPs ''10.0.0.1'' = None" by (simp add: opened_def mem_bolt_def old_pairs)
  moreover have "''bot'' \<in> set (AgentPubkeys relay_config)" "rx_valid_key sample_relay_ext ''bot''"
    by (simp_all add: relay_config_defs sample_relay_ext_def)
  ultimately show ?thesis
    using restart_keeps_decisions [OF old_impl old_file sample_up old_open, of "''10.0.0.1''" 0 "''bot''"] by simp
qed

definition bot_note :: event where
  "bot_note = (sample_event 1 [] [])\<lparr>ev_pubkey := ''bot''\<rparr>"

lemma authority_from_configuration_witness:
  "passes (RejectEvent sample_relay_ext olddb sample_server) [] bot_note \<and> ev_kind bot_note \<notin> admin_kinds"
proof -
  have p: "passes (RejectEvent sample_relay_ext olddb sample_server) [] bot_note" by code_simp
  have "sv_cfg sample_server = relay_config"
    using store_impl.final_admins [OF old_impl sample_up old_file] by blast
  then have a: "{''bot''} \<inter> configured_admins (sv_cfg sample_server) = {}"
    by (simp add: relay_config_defs configured_admins_def)
  have k: "ev_pubkey bot_note \<in> {''bot''}" by (simp add: bot_note_def)
  have "\<forall>(u, c) \<in> set []. u \<notin> {''bot''} \<longrightarrow> (\<forall>k \<in> {''bot''}. \<forall>ms. c \<noteq> ApiGrantAdmin k ms)" by simp
  from authority_from_configuration [OF old_impl old_file sample_control api_run.start a this p k] p
  show ?thesis by blast
qed

end
