(* ===== verification/RelayRun.thy ===== *)
theory RelayRun
  imports Restart
begin

text \<open>
  The running relay: clients publish, administrators call, the pruner makes its rounds, in any order. The
  state is the server and its event store. What \<open>khatru\<close> does with an event that passed the write
  hooks is outside the repository; \<open>New\<close> gives it the store's operations as storage hooks, and the locale
  \<open>relay_framework\<close> states what \<open>EVENT-PROTOCOL.md\<close>, section 3, and the NIPs it announces say of its calls:
  it stores the event or nothing, an ephemeral kind never, it replaces only replaceable kinds (NIP-01), and
  it deletes on a deletion request of the author (NIP-09), where whether it asks the write hooks about the
  request is left open. An event with an expiration tag may be deleted at any time (NIP-40).
\<close>

subsection \<open>The storage hooks\<close>

datatype store_call = CallSave event | CallReplace event | CallDelete event

fun storage_hook :: "'e estore \<Rightarrow> store_call \<Rightarrow> 'e \<Rightarrow> bytes option \<times> 'e" where
  "storage_hook E (CallSave ev) e = es_save E e ev"
| "storage_hook E (CallReplace ev) e = es_replace E e ev"
| "storage_hook E (CallDelete ev) e = es_delete E e ev"

definition ephemeral_kind :: "int \<Rightarrow> bool" where
  "ephemeral_kind k \<longleftrightarrow> 20000 \<le> k \<and> k < 30000"

definition replaceable_kind :: "int \<Rightarrow> bool" where
  "replaceable_kind k \<longleftrightarrow> k = 0 \<or> k = 3 \<or> (10000 \<le> k \<and> k < 20000) \<or> (30000 \<le> k \<and> k < 40000)"

definition deletion_kind :: int where "deletion_kind = 5"

locale relay_framework =
  fixes calls :: "event \<Rightarrow> store_call \<Rightarrow> bool"
  assumes save_call: "calls ev (CallSave x) \<Longrightarrow> x = ev \<and> \<not> ephemeral_kind (ev_kind ev)"
    and replace_call: "calls ev (CallReplace x) \<Longrightarrow> x = ev \<and> replaceable_kind (ev_kind ev)"
    and delete_call: "calls ev (CallDelete x) \<Longrightarrow> ev_kind ev = deletion_kind \<and> ev_pubkey x = ev_pubkey ev"

text \<open>The calls as NIP-01 and NIP-09 have them.\<close>

fun nip_calls :: "event \<Rightarrow> store_call \<Rightarrow> bool" where
  "nip_calls ev (CallSave x) \<longleftrightarrow> x = ev \<and> \<not> ephemeral_kind (ev_kind ev) \<and> \<not> replaceable_kind (ev_kind ev)"
| "nip_calls ev (CallReplace x) \<longleftrightarrow> x = ev \<and> replaceable_kind (ev_kind ev)"
| "nip_calls ev (CallDelete x) \<longleftrightarrow>
     ev_kind ev = deletion_kind \<and> ev_pubkey x = ev_pubkey ev \<and> list_ex (\<lambda>t. take 2 t = [''e'', ev_id x]) (ev_tags ev)"

lemma nip_framework: "relay_framework nip_calls"
  by unfold_locales auto

interpretation nip: relay_framework nip_calls
  by (rule nip_framework)

subsection \<open>Runs of the relay\<close>

record ('d, 'e) node =
  nd_server :: "'d server"
  nd_events :: 'e

datatype relay_label =
    Publish bytes event           \<comment> \<open>the key the connection authenticated as, and the event\<close>
  | Manage bytes api_call
  | Prune "prune_call list"
  | Expire event

definition store_all :: "'e estore \<Rightarrow> store_call list \<Rightarrow> 'e \<Rightarrow> 'e" where
  "store_all E cs e = fold (\<lambda>c e. snd (storage_hook E c e)) cs e"

definition has_expiration :: "event \<Rightarrow> bool" where
  "has_expiration ev \<longleftrightarrow> list_ex (\<lambda>t. take 1 t = [''expiration'']) (ev_tags ev)"

inductive relay_step ::
  "relay_ext \<Rightarrow> 'd bolt \<Rightarrow> 'e estore \<Rightarrow> map_order \<Rightarrow> (event \<Rightarrow> store_call \<Rightarrow> bool)
     \<Rightarrow> ('d, 'e) node \<Rightarrow> relay_label \<Rightarrow> ('d, 'e) node \<Rightarrow> bool"
  for X B E order calls where
  publish: "passes (RejectEvent X B (nd_server n)) authed ev \<Longrightarrow> list_all (calls ev) cs \<Longrightarrow>
    relay_step X B E order calls n (Publish authed ev) (n\<lparr>nd_events := store_all E cs (nd_events n)\<rparr>)"
| request: "ev_kind ev = deletion_kind \<Longrightarrow> list_all (\<lambda>x. calls ev (CallDelete x)) xs \<Longrightarrow>
    relay_step X B E order calls n (Publish authed ev) (n\<lparr>nd_events := store_all E (map CallDelete xs) (nd_events n)\<rparr>)"
| refuse: "\<not> passes (RejectEvent X B (nd_server n)) authed ev \<Longrightarrow>
    relay_step X B E order calls n (Publish authed ev) n"
| manage: "manage B E order (nd_events n) authed c (nd_server n) = (r, s) \<Longrightarrow>
    relay_step X B E order calls n (Manage authed c) (n\<lparr>nd_server := s\<rparr>)"
| prune: "sv_pruners (nd_server n) \<noteq> Map.empty \<Longrightarrow> round_of (sv_pruners (nd_server n)) cs \<Longrightarrow>
    relay_step X B E order calls n (Prune cs) (n\<lparr>nd_events := prune_round E cs (nd_events n)\<rparr>)"
| expire: "has_expiration ev \<Longrightarrow>
    relay_step X B E order calls n (Expire ev) (n\<lparr>nd_events := snd (es_delete E (nd_events n) ev)\<rparr>)"

inductive relay_run ::
  "relay_ext \<Rightarrow> 'd bolt \<Rightarrow> 'e estore \<Rightarrow> map_order \<Rightarrow> (event \<Rightarrow> store_call \<Rightarrow> bool)
     \<Rightarrow> ('d, 'e) node \<Rightarrow> relay_label list \<Rightarrow> ('d, 'e) node \<Rightarrow> bool"
  for X B E order calls n where
  start: "relay_run X B E order calls n [] n"
| step: "relay_run X B E order calls n ls m \<Longrightarrow> relay_step X B E order calls m l k \<Longrightarrow>
    relay_run X B E order calls n (ls @ [l]) k"

text \<open>The event was let through by the write hooks at its place in the run.\<close>

definition accepted_in ::
  "relay_ext \<Rightarrow> 'd bolt \<Rightarrow> 'e estore \<Rightarrow> map_order \<Rightarrow> (event \<Rightarrow> store_call \<Rightarrow> bool)
     \<Rightarrow> ('d, 'e) node \<Rightarrow> relay_label list \<Rightarrow> event \<Rightarrow> bool" where
  "accepted_in X B E order calls n ls ev \<longleftrightarrow>
     (\<exists>pre authed post m. ls = pre @ Publish authed ev # post \<and> relay_run X B E order calls n pre m \<and>
        passes (RejectEvent X B (nd_server m)) authed ev)"

lemma accepted_in_mono: "accepted_in X B E order calls n ls ev \<Longrightarrow> accepted_in X B E order calls n (ls @ [l]) ev"
  unfolding accepted_in_def by (metis append.assoc append_Cons)

lemma accepted_here:
  "relay_run X B E order calls n ls m \<Longrightarrow> passes (RejectEvent X B (nd_server m)) authed ev \<Longrightarrow>
   accepted_in X B E order calls n (ls @ [Publish authed ev]) ev"
  unfolding accepted_in_def by blast

text \<open>The management calls of a run are a run of the management interface.\<close>

fun managed :: "relay_label list \<Rightarrow> (bytes \<times> api_call) list" where
  "managed [] = []"
| "managed (Manage a c # ls) = (a, c) # managed ls"
| "managed (_ # ls) = managed ls"

lemma managed_append [simp]: "managed (ls @ ms) = managed ls @ managed ms"
  by (induction ls rule: managed.induct) simp_all

lemma relay_api_run:
  "relay_run X B E order calls n ls m \<Longrightarrow> api_run B E order (nd_server n) (managed ls) (nd_server m)"
proof (induction rule: relay_run.induct)
  case start
  show ?case by (simp add: api_run.start)
next
  case (step ls m l k)
  from step.hyps(2) step.IH show ?case
    by cases (auto intro: api_run.step api_step.call)
qed

lemma manage_pruners: "sv_pruners (snd (manage B E order e authed c s)) = sv_pruners s"
  by (cases c) (simp_all add: manage_cases on_policy_def case_prod_beta' Let_def)

lemma relay_run_pruners: "relay_run X B E order calls n ls m \<Longrightarrow> sv_pruners (nd_server m) = sv_pruners (nd_server n)"
proof (induction rule: relay_run.induct)
  case (step ls m l k)
  from step.hyps(2) show ?case
  proof cases
    case (manage authed c r s)
    then show ?thesis using manage_pruners [of B E order "nd_events m" authed c "nd_server m"] step.IH by simp
  qed (simp_all add: step.IH)
qed simp

subsection \<open>What a step does to the stored events\<close>

text \<open>A published event may take another one with it.\<close>

definition deletes :: "event \<Rightarrow> event \<Rightarrow> bool" where
  "deletes ev x \<longleftrightarrow> ev_kind ev = deletion_kind \<and> ev_pubkey ev = ev_pubkey x"

definition replaces :: "event \<Rightarrow> event \<Rightarrow> bool" where
  "replaces ev x \<longleftrightarrow> replaceable_kind (ev_kind ev) \<and> ev_kind ev = ev_kind x \<and> ev_pubkey ev = ev_pubkey x"

definition removes :: "event \<Rightarrow> event \<Rightarrow> bool" where
  "removes ev x \<longleftrightarrow> deletes ev x \<or> replaces ev x"

locale relay_storage = event_store E stored + relay_framework calls
  for E :: "'e estore" and stored :: "'e \<Rightarrow> event set" and calls :: "event \<Rightarrow> store_call \<Rightarrow> bool"
begin

lemma hook_effect:
  assumes "calls ev c"
  shows "stored (snd (storage_hook E c e)) \<subseteq> (if ephemeral_kind (ev_kind ev) then stored e else insert ev (stored e)) \<and>
    (\<forall>x \<in> stored e - stored (snd (storage_hook E c e)). removes ev x)"
proof (cases c)
  case (CallSave x)
  obtain r e' where r: "es_save E e x = (r, e')" by (rule prod.exhaust)
  have x: "x = ev" "\<not> ephemeral_kind (ev_kind ev)" using save_call [of ev x] assms CallSave by auto
  have "stored e' = stored e \<or> stored e' = insert ev (stored e)"
    using save_law [of e x e'] save_error [of e x _ e'] r x(1) by (cases r) blast+
  then show ?thesis unfolding CallSave storage_hook.simps r snd_conv using x(2) by auto
next
  case (CallReplace x)
  have x: "x = ev" "replaceable_kind (ev_kind ev)" using replace_call [of ev x] assms CallReplace by auto
  obtain r e' where r: "es_replace E e ev = (r, e')" by (rule prod.exhaust)
  have "\<not> ephemeral_kind (ev_kind ev)" using x(2) by (auto simp: ephemeral_kind_def replaceable_kind_def)
  then show ?thesis using replace_law [OF r] x(2)
    unfolding CallReplace x(1) storage_hook.simps r snd_conv removes_def replaces_def by simp
next
  case (CallDelete x)
  have x: "ev_kind ev = deletion_kind" "ev_pubkey x = ev_pubkey ev" using delete_call [of ev x] assms CallDelete by auto
  have d: "stored (snd (es_delete E e x)) \<subseteq> stored e" "\<forall>y \<in> stored e - stored (snd (es_delete E e x)). y = x"
    using delete_reads [of e x] by blast+
  then have "\<forall>y \<in> stored e - stored (snd (es_delete E e x)). ev_pubkey ev = ev_pubkey y" using x(2) by metis
  then show ?thesis unfolding CallDelete storage_hook.simps removes_def deletes_def using d(1) x(1) by auto
qed

lemma store_all_effect:
  "list_all (calls ev) cs \<Longrightarrow>
   stored (store_all E cs e) \<subseteq> (if ephemeral_kind (ev_kind ev) then stored e else insert ev (stored e)) \<and>
   (\<forall>x \<in> stored e - stored (store_all E cs e). removes ev x)"
proof (induction cs arbitrary: e)
  case (Cons c cs)
  let ?e = "snd (storage_hook E c e)"
  have u: "store_all E (c # cs) e = store_all E cs ?e" by (simp add: store_all_def)
  have "calls ev c" and "list_all (calls ev) cs" using Cons.prems by simp_all
  then show ?case unfolding u using hook_effect [of ev c e] Cons.IH [of ?e] by (cases "ephemeral_kind (ev_kind ev)") auto
qed (simp add: store_all_def subset_insertI)

lemma delete_all_effect:
  "list_all (\<lambda>x. calls ev (CallDelete x)) xs \<Longrightarrow>
   stored (store_all E (map CallDelete xs) e) \<subseteq> stored e \<and>
   (\<forall>x \<in> stored e - stored (store_all E (map CallDelete xs) e). deletes ev x)"
proof (induction xs arbitrary: e)
  case (Cons x xs)
  let ?e = "snd (es_delete E e x)"
  have u: "store_all E (map CallDelete (x # xs)) e = store_all E (map CallDelete xs) ?e" by (simp add: store_all_def)
  have x: "deletes ev x" using Cons.prems delete_call [of ev x] by (simp add: deletes_def)
  have d: "stored ?e \<subseteq> stored e" "\<forall>y \<in> stored e - stored ?e. y = x" using delete_reads [of e x] by blast+
  have "list_all (\<lambda>x. calls ev (CallDelete x)) xs" using Cons.prems by simp
  note ih = Cons.IH [OF this, of ?e]
  have "deletes ev y" if "y \<in> stored e - stored (store_all E (map CallDelete xs) ?e)" for y
    using that ih x d(2) by (cases "y \<in> stored ?e") auto
  then show ?case unfolding u using ih d(1) by auto
qed (simp add: store_all_def)

lemma step_origin:
  assumes "relay_step X B E order calls m l k" "ev \<in> stored (nd_events k)" "ev \<notin> stored (nd_events m)"
  shows "\<not> ephemeral_kind (ev_kind ev) \<and> (\<exists>authed. l = Publish authed ev \<and> passes (RejectEvent X B (nd_server m)) authed ev)"
  using assms(1)
proof cases
  case (publish authed ev' cs)
  then show ?thesis using store_all_effect [of ev' cs "nd_events m"] assms(2,3) by (auto split: if_splits)
next
  case (request ev' xs authed)
  then show ?thesis using delete_all_effect [of ev' xs "nd_events m"] assms(2,3) by auto
next
  case (prune cs)
  then show ?thesis using prune_round_only [of cs "nd_events m"] assms(2,3) by auto
next
  case (expire x)
  then show ?thesis using delete_reads [of "nd_events m" x] assms(2,3) by auto
qed (use assms(2,3) in auto)

lemma run_origin:
  "relay_run X B E order calls n ls m \<Longrightarrow> ev \<in> stored (nd_events m) \<Longrightarrow> ev \<notin> stored (nd_events n) \<Longrightarrow>
   \<not> ephemeral_kind (ev_kind ev) \<and> accepted_in X B E order calls n ls ev"
proof (induction rule: relay_run.induct)
  case (step ls m l k)
  show ?case
  proof (cases "ev \<in> stored (nd_events m)")
    case True
    then show ?thesis using step.IH step.prems(2) accepted_in_mono by blast
  next
    case False
    then show ?thesis using step_origin [OF step.hyps(2) step.prems(1)] accepted_here [OF step.hyps(1)] by blast
  qed
qed simp

lemma step_loss:
  assumes "relay_step X B E order calls m l k" "ev \<in> stored (nd_events m)" "ev \<notin> stored (nd_events k)"
  shows "(\<exists>cs. l = Prune cs \<and> (\<exists>c \<in> set cs. sv_pruners (nd_server m) (ev_kind ev) = Some (pc_ttl c) \<and> expired c ev)) \<or>
    (\<exists>authed d. l = Publish authed d \<and>
       (deletes d ev \<or> passes (RejectEvent X B (nd_server m)) authed d \<and> replaces d ev)) \<or>
    (l = Expire ev \<and> has_expiration ev)"
  using assms(1)
proof cases
  case (publish authed d cs)
  then have "removes d ev" using store_all_effect [of d cs "nd_events m"] assms(2,3) by auto
  then show ?thesis using publish unfolding removes_def by blast
next
  case (request d xs authed)
  then show ?thesis using delete_all_effect [of d xs "nd_events m"] assms(2,3) by auto
next
  case (prune cs)
  then obtain c where c: "c \<in> set cs" "expired c ev" using prune_round_only [of cs "nd_events m"] assms(2,3) by auto
  then have "sv_pruners (nd_server m) (pc_kind c) = Some (pc_ttl c)"
    using round_call [OF prune(4)] by blast
  then show ?thesis using c prune(1) by (auto simp: expired_def)
next
  case (expire x)
  then show ?thesis using delete_reads [of "nd_events m" x] assms(2,3) by auto
qed (use assms(2,3) in auto)

end

interpretation rs: relay_storage "list_store 5000" set nip_calls
  by (intro relay_storage.intro list_event_store nip_framework)

lemma loss_mono:
  "(\<exists>cs c. Prune cs \<in> set ls \<and> c \<in> set cs \<and> pr (ev_kind ev) = Some (pc_ttl c) \<and> expired c ev) \<or>
   (\<exists>authed d. Publish authed d \<in> set ls \<and> deletes d ev) \<or>
   (\<exists>d. accepted_in X B E order calls n ls d \<and> replaces d ev) \<or> (Expire ev \<in> set ls \<and> has_expiration ev) \<Longrightarrow>
   (\<exists>cs c. Prune cs \<in> set (ls @ [l]) \<and> c \<in> set cs \<and> pr (ev_kind ev) = Some (pc_ttl c) \<and> expired c ev) \<or>
   (\<exists>authed d. Publish authed d \<in> set (ls @ [l]) \<and> deletes d ev) \<or>
   (\<exists>d. accepted_in X B E order calls n (ls @ [l]) d \<and> replaces d ev) \<or> (Expire ev \<in> set (ls @ [l]) \<and> has_expiration ev)"
  using accepted_in_mono [of X B E order calls n ls _ l] by auto

context relay_storage
begin

lemma run_loss:
  "relay_run X B E order calls n ls m \<Longrightarrow> ev \<in> stored (nd_events n) \<Longrightarrow> ev \<notin> stored (nd_events m) \<Longrightarrow>
   (\<exists>cs c. Prune cs \<in> set ls \<and> c \<in> set cs \<and> sv_pruners (nd_server n) (ev_kind ev) = Some (pc_ttl c) \<and> expired c ev) \<or>
   (\<exists>authed d. Publish authed d \<in> set ls \<and> deletes d ev) \<or>
   (\<exists>d. accepted_in X B E order calls n ls d \<and> replaces d ev) \<or> (Expire ev \<in> set ls \<and> has_expiration ev)"
proof (induction rule: relay_run.induct)
  case (step ls m l k)
  note here = accepted_here [OF step.hyps(1)] and table = relay_run_pruners [OF step.hyps(1)]
  show ?case
  proof (cases "ev \<in> stored (nd_events m)")
    case True
    from step_loss [OF step.hyps(2) True step.prems(2)] table show ?thesis by (auto dest: here)
  next
    case False
    show ?thesis
      by (rule loss_mono [where pr = "sv_pruners (nd_server n)", OF step.IH [OF step.prems(1) False]])
  qed
qed simp

end

section \<open>Properties\<close>

text \<open>C4: Authority over what is stored, from the configuration file to the database: take any set of keys
  of which the configuration makes none an administrator. However a relay that the process started is
  used since, as long as nobody outside the set granted one of them the role, no capability grant, trust policy or
  identity definition of theirs gets into the store, and no execution event except of the server key;
  and everything that does get in was accepted by the write hooks at its time and is well formed.\<close>

theorem stored_authority:
  assumes "store_impl B ok ord" and "\<And>path. file_ok B path"
    and "event_store E stored" and "relay_framework calls"
    and "control_main X B E ord share read_file unmarshal cfgPath e = Inr (s, host, port)"
    and "relay_run X B E order calls \<lparr>nd_server = s, nd_events = e0\<rparr> ls n"
    and "A \<inter> configured_admins (sv_cfg s) = {}"
    and "\<forall>(a, c) \<in> set (managed ls). a \<notin> A \<longrightarrow> (\<forall>k \<in> A. \<forall>ms. c \<noteq> ApiGrantAdmin k ms)"
    and "ev \<in> stored (nd_events n)" and "ev \<notin> stored e0"
  shows "accepted_in X B E order calls \<lparr>nd_server = s, nd_events = e0\<rparr> ls ev \<and> Validate (rx_ext X) ev = None \<and>
    (ev_pubkey ev \<in> A \<longrightarrow> ev_kind ev \<notin> admin_kinds \<and>
      (ev_kind ev \<in> execution_kinds \<longrightarrow> ServerPubkey (sv_cfg s) \<noteq> [] \<and> ev_pubkey ev = ServerPubkey (sv_cfg s)))"
proof -
  have st: "relay_storage E stored calls" using assms(3,4) by (rule relay_storage.intro)
  have o: "accepted_in X B E order calls \<lparr>nd_server = s, nd_events = e0\<rparr> ls ev"
    using relay_storage.run_origin [OF st assms(6,9)] assms(10) by simp
  then obtain pre authed post m where ls: "ls = pre @ Publish authed ev # post"
    and run: "relay_run X B E order calls \<lparr>nd_server = s, nd_events = e0\<rparr> pre m"
    and p: "passes (RejectEvent X B (nd_server m)) authed ev"
    unfolding accepted_in_def by blast
  have api: "api_run B E order s (managed pre) (nd_server m)" using relay_api_run [OF run] by simp
  have g: "\<forall>(a, c) \<in> set (managed pre). a \<notin> A \<longrightarrow> (\<forall>k \<in> A. \<forall>ms. c \<noteq> ApiGrantAdmin k ms)"
    using assms(8) by (auto simp: ls)
  have "Validate (rx_ext X) ev = None"
    using p by (auto simp: passes_def RejectEvent_def validateEventModelPolicy_def reject_def split: option.splits)
  then show ?thesis
    using o authority_from_configuration [OF assms(1,2,5) api assms(7) g p] by blast
qed

text \<open>C7: A stored event stays, whatever is published, called and pruned: it can only disappear because its
  kind has a retention period and a round found it older, because its author published a deletion
  request, because an event of the same author and the same, replaceable kind was accepted, or because its
  own expiration tag allows it. An event of the operation chain is never replaced.\<close>

theorem stored_events_persist:
  assumes "event_store E stored" and "relay_framework calls"
    and "relay_run X B E order calls n ls m"
    and "ev \<in> stored (nd_events n)" and "ev \<notin> stored (nd_events m)"
  shows "(\<exists>cs c. Prune cs \<in> set ls \<and> c \<in> set cs \<and> sv_pruners (nd_server n) (ev_kind ev) = Some (pc_ttl c) \<and> expired c ev) \<or>
    (\<exists>authed d. Publish authed d \<in> set ls \<and> ev_kind d = 5 \<and> ev_pubkey d = ev_pubkey ev) \<or>
    (\<exists>d. accepted_in X B E order calls n ls d \<and> ev_pubkey d = ev_pubkey ev \<and> ev_kind d = ev_kind ev \<and>
       replaceable_kind (ev_kind ev) \<and> ev_kind ev \<notin> set ChainKinds) \<or>
    (Expire ev \<in> set ls \<and> has_expiration ev)"
proof -
  have "relay_storage E stored calls" using assms(1,2) by (rule relay_storage.intro)
  note l = relay_storage.run_loss [OF this assms(3-5)]
  have "k \<notin> set ChainKinds" if "replaceable_kind k" for k
    using that by (auto simp: ChainKinds_def kind_defs replaceable_kind_def)
  then have chain: "ev_kind ev \<notin> set ChainKinds" if "replaces d ev" for d
    using that unfolding replaces_def by metis
  from l show ?thesis
  proof (elim disjE)
    assume "\<exists>d. accepted_in X B E order calls n ls d \<and> replaces d ev"
    then obtain d where "accepted_in X B E order calls n ls d" "replaces d ev" by blast
    then show ?thesis using chain [of d] unfolding replaces_def by metis
  qed (auto simp: deletes_def deletion_kind_def)
qed

text \<open>The audit trail is only as durable as that: on a relay that admits deletion requests, the key that
  signed an execution result can take it out of the store again.\<close>

definition op_result :: event where
  "op_result = (sample_event KindExecutionResult [[''e'', hex_key CHR ''9'']] [])\<lparr>ev_pubkey := ''op''\<rparr>"

definition deletion_request :: event where
  "deletion_request = (sample_event deletion_kind [[''e'', ev_id op_result]] [])\<lparr>ev_pubkey := ''op''\<rparr>"

definition deleting_server :: "mem server" where
  "deleting_server = snd (manage olddb stored_events id [] ''op'' (ApiAllowKind deletion_kind) plain_server)"

theorem audit_trail_deletable:
  "ev_kind op_result \<in> set ChainKinds \<and> passes (RejectEvent sample_relay_ext olddb deleting_server) ''op'' deletion_request \<and>
   relay_step sample_relay_ext olddb (list_store 5000) id nip_calls
     \<lparr>nd_server = deleting_server, nd_events = [op_result]\<rparr> (Publish ''op'' deletion_request)
     \<lparr>nd_server = deleting_server, nd_events = []\<rparr>"
proof -
  let ?n = "\<lparr>nd_server = deleting_server, nd_events = [op_result]\<rparr>"
  have p: "passes (RejectEvent sample_relay_ext olddb deleting_server) ''op'' deletion_request" by code_simp
  have c: "ev_kind op_result \<in> set ChainKinds" by (simp add: op_result_def ChainKinds_def)
  have "list_all (nip_calls deletion_request) [CallDelete op_result]"
    by (simp add: deletion_request_def op_result_def)
  moreover have "store_all (list_store 5000) [CallDelete op_result] [op_result] = []"
    by (simp add: store_all_def list_store_def)
  ultimately show ?thesis
    using relay_step.publish [where n = ?n and X = sample_relay_ext and B = olddb and E = "list_store 5000"
        and order = id and calls = nip_calls and ev = deletion_request and cs = "[CallDelete op_result]"
        and authed = "''op''"] p c by simp
qed

text \<open>C21: Delegations and their revocations are not retained: their class is said to be immutable, but
  their numbers are in the range of ephemeral kinds, so no run of the relay adds one to the store,
  whether it was accepted or not; the same holds of every event of the ephemeral range.\<close>

theorem delegations_not_retained:
  assumes "event_store E stored" and "relay_framework calls"
    and "relay_run X B E order calls n ls m"
    and "ev_kind ev \<in> {KindDelegation, KindDelegationRevocation} \<or> retention_class (ev_kind ev) = ClassEphemeral"
    and "ev \<in> stored (nd_events m)"
  shows "ev \<in> stored (nd_events n) \<and>
    retention_class KindDelegation = ClassImmutable \<and> retention_class KindDelegationRevocation = ClassImmutable"
proof -
  have "relay_storage E stored calls" using assms(1,2) by (rule relay_storage.intro)
  note o = relay_storage.run_origin [OF this assms(3,5)]
  have "ClassEphemeral \<notin> {ClassImmutable, ClassReplaceable}"
    by (simp add: ClassEphemeral_def ClassImmutable_def ClassReplaceable_def)
  then have "ephemeral_kind (ev_kind ev)"
    using assms(4) by (auto simp: ephemeral_kind_def retention_class_def kind_defs split: if_splits)
  then show ?thesis using o by (auto simp: retention_class_def)
qed

text \<open>C15: A denial of a kind is for ever: after an administrator has disallowed a kind, nothing that clients,
  administrators and the pruner do until the next start lets an event of the kind in again, an
  \<open>allowkind\<close> of every administrator included.\<close>

theorem kind_denial_permanent:
  assumes "store_impl B ok ord" and "store_open B ok (sv_policy s)"
    and "manage B E order e admin (ApiDisallowKind k) s = (Inr (Done None), s')"
    and "relay_run X B E order calls \<lparr>nd_server = s', nd_events = e\<rparr> ls n"
  shows "\<not> KindAllowed B (sv_policy (nd_server n)) k \<and>
    (\<forall>authed ev. ev_kind ev = k \<longrightarrow> \<not> passes (RejectEvent X B (nd_server n)) authed ev)"
proof -
  have db: "bolt_db B ok" using assms(1) by (simp add: store_impl_def)
  have d: "store_open B ok (sv_policy s')" "k \<in> p_kinds_denied (policy_of B (sv_policy s'))"
    using conjunct2 [OF store_impl.manage_done [OF assms(1-3) op_of_call.simps(4)]] by simp_all
  have api: "api_run B E order s' (managed ls) (nd_server n)" using relay_api_run [OF assms(4)] by simp
  have o: "store_open B ok (sv_policy (nd_server n))"
    using store_impl.run_view [OF assms(1) api d(1)] by simp
  have "k \<in> p_kinds_denied (policy_of B (sv_policy (nd_server n)))"
  proof (rule store_impl.run_invariant [OF assms(1) api d(1), where P = "\<lambda>p. k \<in> p_kinds_denied p"])
    show "k \<in> p_kinds_denied (spec_op op p)" if "k \<in> p_kinds_denied p" for p op
      using that by (cases op) auto
  qed (rule d(2))
  then have "\<not> spec_kind_allowed (policy_of B (sv_policy (nd_server n))) k"
    by (simp add: spec_kind_allowed_def)
  then show ?thesis
    using accepted [OF db o, of X] by (simp add: store_policy [OF db o])
qed

text \<open>On a relay without a list of kinds, the first kind that an administrator allows shuts out all others:
  the list of allowed kinds is open only as long as it is empty.\<close>

theorem allow_kind_locks_out:
  assumes "store_impl B ok ord" and "store_open B ok (sv_policy s)"
    and "p_kinds_allowed (policy_of B (sv_policy s)) = {}"
    and "manage B E order e admin (ApiAllowKind k) s = (Inr (Done None), s')"
  shows "KindAllowed B (sv_policy s') i \<longleftrightarrow> i = k \<and> KindAllowed B (sv_policy s) i"
proof -
  have db: "bolt_db B ok" using assms(1) by (simp add: store_impl_def)
  note d = store_impl.manage_done [OF assms(1,2,4), of "DoAllowKind k", simplified]
  show ?thesis
    using d assms(3) by (auto simp: store_policy [OF db] assms(2) spec_kind_allowed_def)
qed

text \<open>C16: The decisions of operators are a gate of their own: whether an approval or a rejection is let
  in depends on its kind, its form, its size, the framework's checks, its author
  not being banned and, where the configuration protects the kind, the connection being authenticated,
  but not on the allowlist or the administrators: a stranger's approval passes like an operator's.\<close>

theorem decision_gate:
  assumes "store_impl B ok ord" and "store_open B ok (sv_policy s)" and "ev_kind ev \<in> decision_kinds"
  shows "passes (RejectEvent X B s) authed ev \<longleftrightarrow>
    \<not> fst (rx_validate_kind X ev) \<and> \<not> fst (rx_no_future X ten_minutes ev) \<and>
    int (length (ev_content ev)) \<le> MaxContentLength (sv_cfg s) \<and> KindAllowed B (sv_policy s) (ev_kind ev) \<and>
    \<not> IsBanned B (sv_policy s) (ev_pubkey ev) \<and>
    (ev_kind ev \<in> set (protectedKinds s) \<longrightarrow> authed \<noteq> []) \<and> Validate (rx_ext X) ev = None"
proof -
  have db: "bolt_db B ok" using assms(1) by (simp add: store_impl_def)
  have "writer_ok (policy_of B (sv_policy s)) ev \<longleftrightarrow> \<not> IsBanned B (sv_policy s) (ev_pubkey ev)"
    using assms(3) by (auto simp: writer_ok_def store_policy [OF db assms(2)])
  moreover have "author_ok (policy_of B (sv_policy s)) (sv_cfg s) ev"
    using assms(3) by (auto simp: author_ok_def decision_kinds_def admin_kinds_def execution_kinds_def kind_defs)
  ultimately show ?thesis
    using accepted [OF db assms(2), of X authed ev] store_policy [OF db assms(2)] by auto
qed

subsection \<open>Witnesses\<close>

lemma stored_authority_witness: "Validate (rx_ext sample_relay_ext) bot_note = None"
proof -
  let ?n = "\<lparr>nd_server = sample_server, nd_events = []\<rparr>" and ?m = "\<lparr>nd_server = sample_server, nd_events = [bot_note]\<rparr>"
  have p: "passes (RejectEvent sample_relay_ext olddb (nd_server ?n)) [] bot_note" unfolding node.simps by code_simp
  have c: "list_all (nip_calls bot_note) [CallSave bot_note]" by code_simp
  have "store_all (list_store 5000) [CallSave bot_note] [] = [bot_note]" by (simp add: store_all_def list_store_def)
  with relay_step.publish [where X = sample_relay_ext and B = olddb and E = "list_store 5000" and order = id
      and calls = nip_calls and n = ?n and ev = bot_note and cs = "[CallSave bot_note]", OF p c]
  have "relay_step sample_relay_ext olddb (list_store 5000) id nip_calls ?n (Publish [] bot_note) ?m" by simp
  from relay_run.step [OF relay_run.start this]
  have r: "relay_run sample_relay_ext olddb (list_store 5000) id nip_calls ?n [Publish [] bot_note] ?m" by simp
  have "sv_cfg sample_server = relay_config"
    using store_impl.final_admins [OF old_impl sample_up old_file] by blast
  then have a: "{''bot''} \<inter> configured_admins (sv_cfg sample_server) = {}"
    by (simp add: relay_config_defs configured_admins_def)
  have g: "\<forall>(u, c) \<in> set (managed [Publish [] bot_note]). u \<notin> {''bot''} \<longrightarrow> (\<forall>k \<in> {''bot''}. \<forall>ms. c \<noteq> ApiGrantAdmin k ms)"
    by simp
  have i: "bot_note \<in> set (nd_events ?m)" "bot_note \<notin> set []" by simp_all
  from stored_authority [OF old_impl old_file list_event_store nip_framework sample_control r a g i]
  show ?thesis by blast
qed

lemma stored_events_persist_witness: "expired prune_at old_event"
proof -
  let ?s = "plain_server\<lparr>sv_pruners := [2200 \<mapsto> 3600000000000]\<rparr>"
  let ?n = "\<lparr>nd_server = ?s, nd_events = [old_event]\<rparr>" and ?m = "\<lparr>nd_server = ?s, nd_events = []\<rparr>"
  have "round_of (sv_pruners (nd_server ?n)) [prune_at]" by (simp add: round_of_def prune_at_def)
  moreover have "sv_pruners (nd_server ?n) \<noteq> Map.empty" by (simp add: fun_eq_iff)
  moreover have "prune_round (list_store 5000) [prune_at] [old_event] = []" by code_simp
  ultimately have "relay_step sample_relay_ext olddb (list_store 5000) id nip_calls ?n (Prune [prune_at]) ?m"
    using relay_step.prune [of ?n "[prune_at]" sample_relay_ext olddb "list_store 5000" id nip_calls] by simp
  from relay_run.step [OF relay_run.start this]
  have r: "relay_run sample_relay_ext olddb (list_store 5000) id nip_calls ?n [Prune [prune_at]] ?m" by simp
  have i: "old_event \<in> set (nd_events ?n)" "old_event \<notin> set (nd_events ?m)" by simp_all
  have "\<not> accepted_in sample_relay_ext olddb (list_store 5000) id nip_calls ?n [Prune [prune_at]] d" for d
    by (simp add: accepted_in_def Cons_eq_append_conv)
  with stored_events_persist [OF list_event_store nip_framework r i] show ?thesis by auto
qed

definition op_delegation :: event where
  "op_delegation = delegation_event\<lparr>ev_pubkey := ''op''\<rparr>"

definition delegating_server :: "mem server" where
  "delegating_server = snd (manage olddb stored_events id [] ''op'' (ApiAllowKind KindDelegation) plain_server)"

lemma delegations_not_retained_witness:
  "passes (RejectEvent sample_relay_ext olddb delegating_server) ''op'' op_delegation \<and>
   (\<exists>m. relay_run sample_relay_ext olddb (list_store 5000) id nip_calls \<lparr>nd_server = delegating_server, nd_events = []\<rparr>
      [Publish ''op'' op_delegation] m) \<and>
   (\<nexists>m. relay_run sample_relay_ext olddb (list_store 5000) id nip_calls \<lparr>nd_server = delegating_server, nd_events = []\<rparr>
      [Publish ''op'' op_delegation] m \<and> op_delegation \<in> set (nd_events m))"
proof -
  let ?n = "\<lparr>nd_server = delegating_server, nd_events = []\<rparr>"
  have p: "passes (RejectEvent sample_relay_ext olddb delegating_server) ''op'' op_delegation" by code_simp
  then have "passes (RejectEvent sample_relay_ext olddb (nd_server ?n)) ''op'' op_delegation" by simp
  from relay_run.step [OF relay_run.start relay_step.publish [OF this, of nip_calls "[]" "list_store 5000" id]]
  have r: "\<exists>m. relay_run sample_relay_ext olddb (list_store 5000) id nip_calls ?n [Publish ''op'' op_delegation] m"
    by (metis append_Nil list.pred_inject(1))
  have k: "ev_kind op_delegation \<in> {KindDelegation, KindDelegationRevocation} \<or>
      retention_class (ev_kind op_delegation) = ClassEphemeral"
    by (simp add: op_delegation_def delegation_event_def)
  show ?thesis
    using p r delegations_not_retained [OF list_event_store nip_framework _ k] by fastforce
qed

lemma kind_denial_permanent_witness:
  "\<exists>s. manage olddb stored_events id [] ''op'' (ApiDisallowKind 1) plain_server = (Inr (Done None), s) \<and>
     fst (manage olddb stored_events id [] ''op'' (ApiAllowKind 1) s) = Inr (Done None) \<and>
     \<not> KindAllowed olddb (sv_policy (snd (manage olddb stored_events id [] ''op'' (ApiAllowKind 1) s))) 1"
proof -
  let ?d = "manage olddb stored_events id [] ''op'' (ApiDisallowKind 1) plain_server"
  let ?a = "manage olddb stored_events id [] ''op'' (ApiAllowKind 1) (snd ?d)"
  let ?n = "\<lparr>nd_server = snd ?d, nd_events = []\<rparr>"
  have f: "fst ?d = Inr (Done None)" "fst ?a = Inr (Done None)" by code_simp+
  then have d: "?d = (Inr (Done None), snd ?d)" by (metis prod.collapse)
  have "manage olddb stored_events id (nd_events ?n) ''op'' (ApiAllowKind 1) (nd_server ?n) = (fst ?a, snd ?a)" by simp
  from relay_run.step [OF relay_run.start relay_step.manage [OF this]]
  have r: "relay_run sample_relay_ext olddb stored_events id nip_calls ?n [Manage ''op'' (ApiAllowKind 1)]
      (?n\<lparr>nd_server := snd ?a\<rparr>)" by simp
  from kind_denial_permanent [OF old_impl sample_open_policy d r] show ?thesis using d f(2) by auto
qed

definition deciding_server :: "mem server" where
  "deciding_server = snd (manage olddb stored_events id [] ''op'' (ApiAllowKind KindOperationApproval) plain_server)"

lemma decision_gate_witness:
  "AllowlistMode (sv_policy deciding_server) \<and> \<not> IsAllowed olddb (sv_policy deciding_server) (ev_pubkey approval_event) \<and>
   \<not> IsAdmin olddb (sv_policy deciding_server) (ev_pubkey approval_event) \<and>
   passes (RejectEvent sample_relay_ext olddb deciding_server) ''anyone'' approval_event"
proof -
  have "store_open olddb mem_ok (sv_policy deciding_server)"
    unfolding deciding_server_def
    by (rule conjunct1 [OF store_impl.manage_view [OF old_impl sample_open_policy prod.collapse [symmetric]]])
  moreover have "ev_kind approval_event \<in> decision_kinds" by (simp add: approval_event_def decision_kinds_def)
  moreover have "\<not> fst (rx_validate_kind sample_relay_ext approval_event) \<and>
      \<not> fst (rx_no_future sample_relay_ext ten_minutes approval_event)" by (simp add: sample_relay_ext_def)
  moreover have "int (length (ev_content approval_event)) \<le> MaxContentLength (sv_cfg deciding_server)"
    "KindAllowed olddb (sv_policy deciding_server) (ev_kind approval_event)"
    "\<not> IsBanned olddb (sv_policy deciding_server) (ev_pubkey approval_event)"
    "Validate (rx_ext sample_relay_ext) approval_event = None" by code_simp+
  moreover have "AllowlistMode (sv_policy deciding_server)"
    "\<not> IsAllowed olddb (sv_policy deciding_server) (ev_pubkey approval_event)"
    "\<not> IsAdmin olddb (sv_policy deciding_server) (ev_pubkey approval_event)" by code_simp+
  ultimately show ?thesis using decision_gate [OF old_impl, of deciding_server approval_event sample_relay_ext "''anyone''"] by blast
qed

end
