(* ===== verification/RelayRead.thy ===== *)
theory RelayRead
  imports RelayRun
begin

text \<open>
  What clients get to read from the running relay. khatru asks the read hooks about a filter and, when
  none rejects, hands it to the query hook (REQ) or the counting hook (COUNT), both installed by \<open>New\<close>
  in \<open>src/internal/relay/server.go\<close>; a rejection is answered with its message. Events pushed to an open
  subscription later are khatru's business and not modelled.
\<close>

definition query_hook :: "'e estore \<Rightarrow> 'e \<Rightarrow> nostr_filter \<Rightarrow> bytes + event list" where
  "query_hook E e f = es_query E e f"

definition answer_req ::
  "relay_ext \<Rightarrow> 'e estore \<Rightarrow> 'd server \<Rightarrow> 'e \<Rightarrow> bytes \<Rightarrow> nostr_filter \<Rightarrow> bytes + event list" where
  "answer_req X E s e authed f =
     (case first_rejection (RejectFilter X s) authed f of
        Some r \<Rightarrow> Inl (fst (snd r))
      | None \<Rightarrow> query_hook E e f)"

definition answer_count ::
  "relay_ext \<Rightarrow> 'e estore \<Rightarrow> 'd server \<Rightarrow> 'e \<Rightarrow> bytes \<Rightarrow> nostr_filter \<Rightarrow> bytes + int" where
  "answer_count X E s e authed f =
     (case first_rejection (RejectCountFilter X s) authed f of
        Some r \<Rightarrow> Inl (fst (snd r))
      | None \<Rightarrow> countEvents E e f)"

lemma first_rejection_None: "first_rejection hooks authed x = None \<longleftrightarrow> passes hooks authed x"
  by (auto simp: first_rejection_def passes_def find_None_iff list_all_iff)

lemma answered: "answer_req X E s e authed f = Inr evs \<longleftrightarrow> passes (RejectFilter X s) authed f \<and> es_query E e f = Inr evs"
  unfolding answer_req_def query_hook_def first_rejection_None [symmetric] by (simp split: option.splits)

lemma challenged:
  assumes "k \<in> set (f_kinds f)" "k \<in> set (protectedKinds s)"
  shows "requireAuthForRead s [] f = challenge"
proof -
  have "fst (requireAuthForRead s [] f)" using assms read_hook by blast
  then show ?thesis by (auto simp: requireAuthForRead_def hook_results split: option.splits)
qed

lemma unanswered:
  assumes "k \<in> set (f_kinds f)" "k \<in> set (protectedKinds s)"
  shows "answer_req X E s e [] f = Inl ''auth-required: authentication required''"
    and "answer_count X E s e [] f = Inl ''auth-required: authentication required''"
  by (simp_all add: answer_req_def answer_count_def first_rejection_def RejectFilter_def RejectCountFilter_def
      challenged [OF assms] challenge_def)

lemma relay_run_cfg: "relay_run X B E order calls n ls m \<Longrightarrow> sv_cfg (nd_server m) = sv_cfg (nd_server n)"
proof (induction rule: relay_run.induct)
  case (step ls m l k)
  from step.hyps(2) show ?case
  proof cases
    case (manage authed c r s)
    have "sv_cfg (snd (manage B E order (nd_events m) authed c (nd_server m))) = sv_cfg (nd_server m)"
      by (simp add: manage_cases handler_cfg)
    then show ?thesis using manage step.IH by simp
  qed (simp_all add: step.IH)
qed simp

section \<open>Properties\<close>


subsection \<open>Witnesses\<close>

text \<open>A server that protects the default kinds, with an old request in its store, read without authentication.\<close>

definition by_author :: nostr_filter where
  "by_author = \<lparr>f_ids = [], f_kinds = [], f_authors = [ev_pubkey old_event], f_since = None\<rparr>"


end
