(* ===== verification/NotifyConfig.thy ===== *)
theory NotifyConfig
  imports RelayConfig
begin

text \<open>
  \<open>src/internal/notify/config.go\<close>: the configuration of the notification service, its defaults and
  its validation. As for the relay, reading the file and \<open>toml.Unmarshal\<close> are arguments of the loader,
  and the error of \<open>time.ParseDuration\<close> is not looked into.
\<close>

record notify_config =
  nc_RelayURL :: bytes
  nc_NotifierPrivateKey :: bytes
  nc_RecipientsPath :: bytes
  nc_PolicyPath :: bytes
  nc_StatePath :: bytes
  nc_DigestInterval :: bytes
  nc_OutboundRelays :: "bytes list"

definition NotifyDefault :: notify_config where
  "NotifyDefault =
     \<lparr>nc_RelayURL = ''ws://127.0.0.1:4848'', nc_NotifierPrivateKey = [],
      nc_RecipientsPath = ''./state/notifications/recipients.toml'',
      nc_PolicyPath = ''./state/notifications/policy.toml'',
      nc_StatePath = ''./state/notifications/state.json'',
      nc_DigestInterval = ''1h'', nc_OutboundRelays = []\<rparr>"

definition notifyApplyDefaults :: "notify_config \<Rightarrow> notify_config" where
  "notifyApplyDefaults c =
     (let d = NotifyDefault in
      c\<lparr>nc_RelayURL := (if nc_RelayURL c = [] then nc_RelayURL d else nc_RelayURL c),
        nc_RecipientsPath := (if nc_RecipientsPath c = [] then nc_RecipientsPath d else nc_RecipientsPath c),
        nc_PolicyPath := (if nc_PolicyPath c = [] then nc_PolicyPath d else nc_PolicyPath c),
        nc_DigestInterval := (if nc_DigestInterval c = [] then nc_DigestInterval d else nc_DigestInterval c),
        nc_StatePath := (if nc_StatePath c = [] then nc_StatePath d else nc_StatePath c)\<rparr>)"

datatype notify_config_error =
    NotifyToml toml_error
  | KeyRequired
  | BadDigestInterval bytes

definition digestInterval :: "fraction_share \<Rightarrow> notify_config \<Rightarrow> int option" where
  "digestInterval share c = ParseDuration share (nc_DigestInterval c)"

definition notify_validate :: "fraction_share \<Rightarrow> notify_config \<Rightarrow> notify_config_error option" where
  "notify_validate share c =
     (if nc_NotifierPrivateKey c = [] then Some KeyRequired
      else case digestInterval share c of
        None \<Rightarrow> Some (BadDigestInterval (nc_DigestInterval c))
      | Some _ \<Rightarrow> None)"

definition LoadConfig ::
  "fraction_share \<Rightarrow> (bytes \<Rightarrow> bytes + bytes) \<Rightarrow> (bytes \<Rightarrow> bytes + notify_config) \<Rightarrow> bytes
     \<Rightarrow> notify_config \<times> notify_config_error option" where
  "LoadConfig share read_file unmarshal path =
     (case toml_load read_file unmarshal path ''notify: config'' of
        Inl e \<Rightarrow> (NotifyDefault, Some (NotifyToml e))
      | Inr cfg \<Rightarrow> let cfg = notifyApplyDefaults cfg in (cfg, notify_validate share cfg))"

section \<open>Properties\<close>

lemma apply_defaults_complete:
  "nc_RelayURL (notifyApplyDefaults c) \<noteq> []" "nc_RecipientsPath (notifyApplyDefaults c) \<noteq> []"
  "nc_PolicyPath (notifyApplyDefaults c) \<noteq> []" "nc_StatePath (notifyApplyDefaults c) \<noteq> []"
  "nc_DigestInterval (notifyApplyDefaults c) \<noteq> []"
  by (simp_all add: notifyApplyDefaults_def NotifyDefault_def Let_def)

lemma apply_defaults_keeps:
  "nc_NotifierPrivateKey (notifyApplyDefaults c) = nc_NotifierPrivateKey c"
  "nc_OutboundRelays (notifyApplyDefaults c) = nc_OutboundRelays c"
  "nc_StatePath c \<noteq> [] \<Longrightarrow> nc_StatePath (notifyApplyDefaults c) = nc_StatePath c"
  "nc_DigestInterval c \<noteq> [] \<Longrightarrow> nc_DigestInterval (notifyApplyDefaults c) = nc_DigestInterval c"
  by (simp_all add: notifyApplyDefaults_def Let_def)

lemma load_config_cases:
  "LoadConfig share read_file unmarshal path = (cfg, None) \<longleftrightarrow>
     (\<exists>raw c. read_file path = Inr raw \<and> unmarshal raw = Inr c \<and> cfg = notifyApplyDefaults c \<and>
        nc_NotifierPrivateKey cfg \<noteq> [] \<and> (\<exists>d. digestInterval share cfg = Some d))"
  by (auto simp: LoadConfig_def toml_load_def notify_validate_def Let_def split: sum.splits option.splits if_splits)

text \<open>A configuration of the notification service loads exactly when its file is read and decoded,
  names a key and gives a digest interval that parses, as a 64-bit number of nanoseconds. Then every path
  and the relay address are set, by the file or by the defaults, and the key and the outbound relays are
  those of the file.\<close>

theorem notify_config_loads:
  "LoadConfig share read_file unmarshal path = (cfg, None) \<longleftrightarrow>
     (\<exists>raw c d. read_file path = Inr raw \<and> unmarshal raw = Inr c \<and> cfg = notifyApplyDefaults c \<and>
        nc_NotifierPrivateKey c \<noteq> [] \<and>
        ParseDuration share (if nc_DigestInterval c = [] then ''1h'' else nc_DigestInterval c) = Some d \<and>
        int64_ok d \<and> nc_RelayURL cfg \<noteq> [] \<and> nc_RecipientsPath cfg \<noteq> [] \<and> nc_PolicyPath cfg \<noteq> [] \<and>
        nc_StatePath cfg \<noteq> [] \<and> nc_NotifierPrivateKey cfg = nc_NotifierPrivateKey c \<and>
        nc_OutboundRelays cfg = nc_OutboundRelays c)"
proof -
  have i: "digestInterval share (notifyApplyDefaults c)
      = ParseDuration share (if nc_DigestInterval c = [] then ''1h'' else nc_DigestInterval c)" for c
    by (simp add: digestInterval_def notifyApplyDefaults_def NotifyDefault_def Let_def)
  show ?thesis (is "_ \<longleftrightarrow> ?r")
  proof
    assume "LoadConfig share read_file unmarshal path = (cfg, None)"
    then obtain raw c d where c: "read_file path = Inr raw" "unmarshal raw = Inr c" "cfg = notifyApplyDefaults c"
      "nc_NotifierPrivateKey cfg \<noteq> []" "digestInterval share cfg = Some d"
      unfolding load_config_cases by blast
    from c(5) have "int64_ok d" unfolding digestInterval_def by (rule ParseDuration_range)
    then show ?r
      using c(4,5) unfolding c(3) i
      by (intro exI [of _ raw] exI [of _ c] exI [of _ d])
        (simp add: apply_defaults_complete apply_defaults_keeps(1,2) c(1,2))
  next
    assume ?r
    then obtain raw c d where c: "read_file path = Inr raw" "unmarshal raw = Inr c" "cfg = notifyApplyDefaults c"
      "nc_NotifierPrivateKey c \<noteq> []"
      "ParseDuration share (if nc_DigestInterval c = [] then ''1h'' else nc_DigestInterval c) = Some d"
      by (elim exE conjE) rule
    from c(5) have "digestInterval share cfg = Some d" unfolding c(3) i .
    then show "LoadConfig share read_file unmarshal path = (cfg, None)"
      unfolding load_config_cases using c(1-4) apply_defaults_keeps(1) by metis
  qed
qed

end
