(* ===== verification/NotifyPolicy.thy ===== *)
theory NotifyPolicy
  imports EventModel RelayConfig
begin

text \<open>
  \<open>src/internal/notify/policy.go\<close> and \<open>severity.go\<close>: recipients, rules and matching. The string
  types \<open>Delivery\<close> and \<open>Scope\<close> are byte strings with named values. \<open>nip19.Decode\<close> is code
  outside the repository, an argument: \<open>None\<close> for its error, else the prefix and the decoded value
  if that is a string. A result \<open>Inl\<close> is the error of the code.
\<close>

subsection \<open>Severities\<close>

definition severityRank :: "bytes \<Rightarrow> int" where
  "severityRank s = (if s = SeverityCritical then 2 else if s = SeverityWarning then 1 else 0)"

definition validSeverity :: "bytes \<Rightarrow> bool" where
  "validSeverity s \<longleftrightarrow> s \<in> set [SeverityInfo, SeverityWarning, SeverityCritical]"

subsection \<open>Recipients and rules\<close>

definition DeliveryImmediate :: bytes where "DeliveryImmediate = ''immediate''"
definition DeliverySummary :: bytes where "DeliverySummary = ''summary''"
definition ScopeLocalOnly :: bytes where "ScopeLocalOnly = ''local-only''"
definition ScopeExternal :: bytes where "ScopeExternal = ''external''"

record recipient =
  rc_Npub :: bytes
  rc_Role :: bytes
  rc_pubkey :: bytes

record notify_rule =
  rl_Recipient :: bytes
  rl_Classes :: "bytes list"
  rl_SeverityMin :: bytes
  rl_DeliveryMode :: bytes
  rl_Scope :: bytes

record notify_policy =
  np_Recipients :: "recipient list"
  np_Rules :: "notify_rule list"
  np_byNpub :: "bytes \<rightharpoonup> recipient"

definition empty_policy :: notify_policy where
  "empty_policy = \<lparr>np_Recipients = [], np_Rules = [], np_byNpub = Map.empty\<rparr>"

definition Pubkey :: "recipient \<Rightarrow> bytes" where
  "Pubkey r = rc_pubkey r"

datatype policy_error =
    FileError toml_error
  | NpubRequired int
  | InvalidNpub int bytes
  | DuplicateNpub bytes
  | UndeclaredRecipient int bytes
  | NoClasses int
  | BadSeverity int bytes
  | BadDelivery int bytes
  | BadScope int bytes

type_synonym npub_decoder = "bytes \<Rightarrow> (bytes \<times> bytes option) option"

text \<open>The first loop of \<open>validate\<close>: decode every npub, fill in the recipients and the index.\<close>

fun check_recipients ::
  "npub_decoder \<Rightarrow> int \<Rightarrow> recipient list \<Rightarrow> (bytes \<rightharpoonup> recipient)
     \<Rightarrow> policy_error + recipient list \<times> (bytes \<rightharpoonup> recipient)" where
  "check_recipients decode i [] idx = Inr ([], idx)"
| "check_recipients decode i (r # rs) idx =
     (if rc_Npub r = [] then Inl (NpubRequired i)
      else case decode (rc_Npub r) of
        None \<Rightarrow> Inl (InvalidNpub i (rc_Npub r))
      | Some (prefix, value) \<Rightarrow>
          if prefix \<noteq> ''npub'' then Inl (InvalidNpub i (rc_Npub r))
          else case value of
            None \<Rightarrow> Inl (InvalidNpub i (rc_Npub r))
          | Some pk \<Rightarrow>
              if pk = [] then Inl (InvalidNpub i (rc_Npub r))
              else if idx (rc_Npub r) \<noteq> None then Inl (DuplicateNpub (rc_Npub r))
              else let r' = r\<lparr>rc_pubkey := pk\<rparr> in
                (case check_recipients decode (i + 1) rs (idx(rc_Npub r \<mapsto> r')) of
                   Inl e \<Rightarrow> Inl e
                 | Inr (rs', idx') \<Rightarrow> Inr (r' # rs', idx')))"

fun check_rules :: "(bytes \<rightharpoonup> recipient) \<Rightarrow> int \<Rightarrow> notify_rule list \<Rightarrow> policy_error option" where
  "check_rules idx i [] = None"
| "check_rules idx i (r # rs) =
     (if idx (rl_Recipient r) = None then Some (UndeclaredRecipient i (rl_Recipient r))
      else if rl_Classes r = [] then Some (NoClasses i)
      else if \<not> validSeverity (rl_SeverityMin r) then Some (BadSeverity i (rl_SeverityMin r))
      else if rl_DeliveryMode r \<notin> set [DeliveryImmediate, DeliverySummary]
        then Some (BadDelivery i (rl_DeliveryMode r))
      else if rl_Scope r \<notin> set [ScopeLocalOnly, ScopeExternal] then Some (BadScope i (rl_Scope r))
      else check_rules idx (i + 1) rs)"

definition policy_validate :: "npub_decoder \<Rightarrow> notify_policy \<Rightarrow> policy_error + notify_policy" where
  "policy_validate decode p =
     (case check_recipients decode 0 (np_Recipients p) Map.empty of
        Inl e \<Rightarrow> Inl e
      | Inr (rs, idx) \<Rightarrow>
          (case check_rules idx 0 (np_Rules p) of
             Some e \<Rightarrow> Inl e
           | None \<Rightarrow> Inr (p\<lparr>np_Recipients := rs, np_byNpub := idx\<rparr>)))"

text \<open>The two files; each is a struct around one list.\<close>

record recipients_file =
  rf_Recipients :: "recipient list"

record policy_file =
  pf_Rules :: "notify_rule list"

definition readRecipients ::
  "(bytes \<Rightarrow> bytes + bytes) \<Rightarrow> (bytes \<Rightarrow> bytes + recipient list) \<Rightarrow> bytes \<Rightarrow> toml_error + recipients_file" where
  "readRecipients read_file unmarshal path =
     map_sum id (\<lambda>rs. \<lparr>rf_Recipients = rs\<rparr>) (toml_load read_file unmarshal path ''notify: recipients'')"

definition readPolicyRules ::
  "(bytes \<Rightarrow> bytes + bytes) \<Rightarrow> (bytes \<Rightarrow> bytes + notify_rule list) \<Rightarrow> bytes \<Rightarrow> toml_error + policy_file" where
  "readPolicyRules read_file unmarshal path =
     map_sum id (\<lambda>rs. \<lparr>pf_Rules = rs\<rparr>) (toml_load read_file unmarshal path ''notify: policy'')"

definition LoadPolicy ::
  "npub_decoder \<Rightarrow> (bytes \<Rightarrow> bytes + bytes) \<Rightarrow> (bytes \<Rightarrow> bytes + recipient list)
     \<Rightarrow> (bytes \<Rightarrow> bytes + notify_rule list) \<Rightarrow> bytes \<Rightarrow> bytes \<Rightarrow> policy_error + notify_policy" where
  "LoadPolicy decode read_file read_recipients read_rules recipientsPath policyPath =
     (case readRecipients read_file read_recipients recipientsPath of
        Inl e \<Rightarrow> Inl (FileError e)
      | Inr rf \<Rightarrow>
          (case readPolicyRules read_file read_rules policyPath of
             Inl e \<Rightarrow> Inl (FileError e)
           | Inr pf \<Rightarrow>
               policy_validate decode
                 \<lparr>np_Recipients = rf_Recipients rf, np_Rules = pf_Rules pf, np_byNpub = Map.empty\<rparr>))"

definition RecipientPubkey :: "notify_policy \<Rightarrow> bytes \<Rightarrow> bytes \<times> bool" where
  "RecipientPubkey p npub =
     (case np_byNpub p npub of None \<Rightarrow> ([], False) | Some r \<Rightarrow> (rc_pubkey r, True))"

subsection \<open>Matching\<close>

fun containsClass :: "bytes list \<Rightarrow> bytes \<Rightarrow> bool" where
  "containsClass [] class = False"
| "containsClass (c # cs) class = (if c = class then True else containsClass cs class)"

fun match_rules :: "notify_rule list \<Rightarrow> bytes \<Rightarrow> bytes \<Rightarrow> notify_rule list" where
  "match_rules [] class severity = []"
| "match_rules (r # rs) class severity =
     (if \<not> containsClass (rl_Classes r) class then match_rules rs class severity
      else if severityRank severity < severityRank (rl_SeverityMin r) then match_rules rs class severity
      else r # match_rules rs class severity)"

definition Match :: "notify_policy \<Rightarrow> bytes \<Rightarrow> bytes \<Rightarrow> notify_rule list" where
  "Match p class severity = match_rules (np_Rules p) class severity"

section \<open>Properties\<close>

lemma containsClass_iff [simp]: "containsClass cs c \<longleftrightarrow> c \<in> set cs"
  by (induction cs) auto

lemma match_rules_filter:
  "match_rules rs c s = filter (\<lambda>r. c \<in> set (rl_Classes r) \<and> severityRank (rl_SeverityMin r) \<le> severityRank s) rs"
  by (induction rs) auto

lemma check_recipients_ok:
  "check_recipients decode i rs idx = Inr (rs', idx') \<Longrightarrow>
   distinct (map rc_Npub rs) \<and> (\<forall>r \<in> set rs. idx (rc_Npub r) = None) \<and>
   map rc_Npub rs' = map rc_Npub rs \<and>
   (\<forall>n. idx' n = (if n \<in> rc_Npub ` set rs then map_of (map (\<lambda>r. (rc_Npub r, r)) rs') n else idx n)) \<and>
   (\<forall>r \<in> set rs'. rc_pubkey r \<noteq> [] \<and> decode (rc_Npub r) = Some (''npub'', Some (rc_pubkey r)))"
proof (induction decode i rs idx arbitrary: rs' idx' rule: check_recipients.induct)
  case (2 decode i r rs idx)
  then obtain pk where pk: "decode (rc_Npub r) = Some (''npub'', Some pk)" "pk \<noteq> []" "rc_Npub r \<noteq> []"
    "idx (rc_Npub r) = None"
    by (auto split: if_splits option.splits)
  let ?r = "r\<lparr>rc_pubkey := pk\<rparr>"
  obtain rs1 where c: "check_recipients decode (i + 1) rs (idx(rc_Npub r \<mapsto> ?r)) = Inr (rs1, idx')" "rs' = ?r # rs1"
    using 2(2) pk by (auto simp: Let_def split: sum.splits)
  have ih: "distinct (map rc_Npub rs) \<and> (\<forall>q \<in> set rs. (idx(rc_Npub r \<mapsto> ?r)) (rc_Npub q) = None) \<and>
     map rc_Npub rs1 = map rc_Npub rs \<and>
     (\<forall>n. idx' n = (if n \<in> rc_Npub ` set rs then map_of (map (\<lambda>r. (rc_Npub r, r)) rs1) n else (idx(rc_Npub r \<mapsto> ?r)) n)) \<and>
     (\<forall>q \<in> set rs1. rc_pubkey q \<noteq> [] \<and> decode (rc_Npub q) = Some (''npub'', Some (rc_pubkey q)))"
    by (rule "2.IH" [OF pk(3) pk(1) refl _ refl pk(2) _ refl c(1)]) (use pk in simp_all)
  have "\<forall>q \<in> set rs. rc_Npub q \<noteq> rc_Npub r" using ih by (auto split: if_splits)
  then show ?case using ih pk c(2) by (auto split: if_splits)
qed simp

lemma check_rules_ok:
  "check_rules idx i rs = None \<longleftrightarrow>
     (\<forall>r \<in> set rs. idx (rl_Recipient r) \<noteq> None \<and> rl_Classes r \<noteq> [] \<and> validSeverity (rl_SeverityMin r) \<and>
        rl_DeliveryMode r \<in> {DeliveryImmediate, DeliverySummary} \<and> rl_Scope r \<in> {ScopeLocalOnly, ScopeExternal})"
  by (induction idx i rs rule: check_rules.induct) auto

definition well_formed :: "notify_policy \<Rightarrow> bool" where
  "well_formed p \<longleftrightarrow>
     distinct (map rc_Npub (np_Recipients p)) \<and> (\<forall>r \<in> set (np_Recipients p). rc_pubkey r \<noteq> []) \<and>
     np_byNpub p = map_of (map (\<lambda>r. (rc_Npub r, r)) (np_Recipients p)) \<and>
     (\<forall>r \<in> set (np_Rules p). np_byNpub p (rl_Recipient r) \<noteq> None \<and> rl_Classes r \<noteq> [] \<and>
        validSeverity (rl_SeverityMin r) \<and> rl_DeliveryMode r \<in> {DeliveryImmediate, DeliverySummary} \<and>
        rl_Scope r \<in> {ScopeLocalOnly, ScopeExternal})"

lemma validate_well_formed:
  assumes "policy_validate decode p = Inr q"
  shows "well_formed q \<and> np_Rules q = np_Rules p \<and>
    (\<forall>r \<in> set (np_Recipients q). decode (rc_Npub r) = Some (''npub'', Some (rc_pubkey r)))"
proof -
  obtain rs idx where c: "check_recipients decode 0 (np_Recipients p) Map.empty = Inr (rs, idx)"
    and r: "check_rules idx 0 (np_Rules p) = None" and q: "q = p\<lparr>np_Recipients := rs, np_byNpub := idx\<rparr>"
    using assms by (auto simp: policy_validate_def split: sum.splits option.splits prod.splits)
  note ok = check_recipients_ok [OF c]
  have "rc_Npub ` set (np_Recipients p) = rc_Npub ` set rs" using ok by (metis list.set_map)
  moreover have "n \<notin> rc_Npub ` set rs \<Longrightarrow> map_of (map (\<lambda>r. (rc_Npub r, r)) rs) n = None" for n
    by (simp add: map_of_eq_None_iff image_image)
  ultimately have "idx n = map_of (map (\<lambda>r. (rc_Npub r, r)) rs) n" for n
    using ok by (cases "n \<in> rc_Npub ` set rs") simp_all
  then have "idx = map_of (map (\<lambda>r. (rc_Npub r, r)) rs)" by (simp add: fun_eq_iff)
  then show ?thesis using ok r q by (simp add: well_formed_def check_rules_ok)
qed

text \<open>C27: A policy that \<open>LoadPolicy\<close> returns is well formed: every rule names a declared recipient
  whose npub decodes to a non-empty key, has a class, a known severity, delivery mode and scope, no npub
  is declared twice, and the index used for delivery is exactly the recipient list.\<close>

theorem loaded_policy_well_formed:
  assumes "LoadPolicy decode read_file rr rp recipientsPath policyPath = Inr p"
  shows "well_formed p \<and>
    (\<forall>r \<in> set (np_Rules p). \<exists>pk. RecipientPubkey p (rl_Recipient r) = (pk, True) \<and> pk \<noteq> [] \<and>
       decode (rl_Recipient r) = Some (''npub'', Some pk))"
proof -
  obtain p0 where v: "policy_validate decode p0 = Inr p"
    using assms by (auto simp: LoadPolicy_def split: sum.splits)
  note w = validate_well_formed [OF v]
  have "\<exists>pk. RecipientPubkey p (rl_Recipient r) = (pk, True) \<and> pk \<noteq> [] \<and> decode (rl_Recipient r) = Some (''npub'', Some pk)"
    if "r \<in> set (np_Rules p)" for r
  proof -
    have "np_byNpub p (rl_Recipient r) \<noteq> None" using w that unfolding well_formed_def by blast
    then obtain rc where "np_byNpub p (rl_Recipient r) = Some rc" by blast
    moreover from this have "(rl_Recipient r, rc) \<in> set (map (\<lambda>r. (rc_Npub r, r)) (np_Recipients p))"
      using w by (intro map_of_SomeD) (simp add: well_formed_def)
    then have "rc \<in> set (np_Recipients p)" "rc_Npub rc = rl_Recipient r" by auto
    ultimately show ?thesis using w by (auto simp: RecipientPubkey_def well_formed_def)
  qed
  then show ?thesis using w by blast
qed

text \<open>Severities as they are meant: an ordered type of three levels, onto which every string is read.\<close>

datatype severity = Info | Warning | Critical

fun level :: "severity \<Rightarrow> nat" where
  "level Info = 0"
| "level Warning = 1"
| "level Critical = 2"

lemma level_inject: "level a = level b \<longleftrightarrow> a = b"
  by (cases a; cases b) simp_all

instantiation severity :: linorder
begin

definition less_eq_severity :: "severity \<Rightarrow> severity \<Rightarrow> bool" where
  "a \<le> b \<longleftrightarrow> level a \<le> level b"

definition less_severity :: "severity \<Rightarrow> severity \<Rightarrow> bool" where
  "a < b \<longleftrightarrow> level a < level b"

instance
  by standard (auto simp: less_eq_severity_def less_severity_def level_inject)

end

definition severity_of :: "bytes \<Rightarrow> severity" where
  "severity_of s = (if s = SeverityCritical then Critical else if s = SeverityWarning then Warning else Info)"

lemma rank_severity: "severityRank s \<le> severityRank t \<longleftrightarrow> severity_of s \<le> severity_of t"
  by (simp add: severityRank_def severity_of_def less_eq_severity_def)

text \<open>\<open>Match\<close> returns, in the order of the policy and each as often as it is listed, exactly the
  rules that list the class and whose threshold the severity reaches in that order; a more severe notice
  of the same class reaches at least the rules of a less severe one, and a severity the service does not
  know counts as the lowest.\<close>

theorem match_exact:
  "Match p class severity =
     filter (\<lambda>r. class \<in> set (rl_Classes r) \<and> severity_of (rl_SeverityMin r) \<le> severity_of severity) (np_Rules p) \<and>
   (severity_of severity \<le> severity_of severity' \<longrightarrow>
      set (Match p class severity) \<subseteq> set (Match p class severity')) \<and>
   (severity \<notin> {SeverityWarning, SeverityCritical} \<longrightarrow> (\<forall>s. severity_of severity \<le> s))"
proof -
  have "severity_of severity \<le> s" if "severity \<notin> {SeverityWarning, SeverityCritical}" for s
    using that by (simp add: severity_of_def less_eq_severity_def)
  then show ?thesis by (auto simp: Match_def match_rules_filter rank_severity)
qed

subsection \<open>Witnesses\<close>

definition sample_decoder :: npub_decoder where
  "sample_decoder n = (if has_prefix n ''npub1'' then Some (''npub'', Some (drop 5 n)) else None)"

definition ops_recipient :: recipient where
  "ops_recipient = \<lparr>rc_Npub = ''npub1ops'', rc_Role = ''operator'', rc_pubkey = []\<rparr>"

definition backup_rule :: notify_rule where
  "backup_rule = \<lparr>rl_Recipient = ''npub1ops'', rl_Classes = [''backup'', ''security''],
     rl_SeverityMin = SeverityWarning, rl_DeliveryMode = DeliveryImmediate, rl_Scope = ScopeLocalOnly\<rparr>"

definition digest_rule :: notify_rule where
  "digest_rule = \<lparr>rl_Recipient = ''npub1ops'', rl_Classes = [''backup'', ''operation''],
     rl_SeverityMin = SeverityInfo, rl_DeliveryMode = DeliverySummary, rl_Scope = ScopeExternal\<rparr>"

definition sample_policy :: notify_policy where
  "sample_policy =
     (case LoadPolicy sample_decoder (\<lambda>_. Inr []) (\<lambda>_. Inr [ops_recipient]) (\<lambda>_. Inr [backup_rule, digest_rule])
         ''recipients.toml'' ''policy.toml'' of
        Inr p \<Rightarrow> p | Inl _ \<Rightarrow> empty_policy)"

lemma sample_loads:
  "LoadPolicy sample_decoder (\<lambda>_. Inr []) (\<lambda>_. Inr [ops_recipient]) (\<lambda>_. Inr [backup_rule, digest_rule])
     ''recipients.toml'' ''policy.toml'' = Inr sample_policy"
proof -
  let ?l = "LoadPolicy sample_decoder (\<lambda>_. Inr []) (\<lambda>_. Inr [ops_recipient]) (\<lambda>_. Inr [backup_rule, digest_rule])
     ''recipients.toml'' ''policy.toml''"
  have "\<not> isl ?l" by code_simp
  then show ?thesis by (cases ?l) (simp_all add: sample_policy_def)
qed

lemma loaded_policy_well_formed_witness: "well_formed sample_policy"
  using loaded_policy_well_formed [OF sample_loads] by blast

lemma match_exact_witness:
  "Match sample_policy ''backup'' SeverityCritical = [backup_rule, digest_rule] \<and>
   set (Match sample_policy ''backup'' SeverityInfo) \<subseteq> set (Match sample_policy ''backup'' SeverityCritical)"
proof
  show "Match sample_policy ''backup'' SeverityCritical = [backup_rule, digest_rule]" by code_simp
  have "severity_of SeverityInfo \<le> severity_of SeverityCritical" by code_simp
  then show "set (Match sample_policy ''backup'' SeverityInfo) \<subseteq> set (Match sample_policy ''backup'' SeverityCritical)"
    using match_exact [of sample_policy "''backup''" SeverityInfo SeverityCritical] by blast
qed

end
