(* ===== verification/Classify.thy ===== *)
theory Classify
  imports NotifyPolicy EventModelProps
begin

text \<open>
  \<open>src/internal/notify/classify.go\<close> and the kinds of \<open>service.go\<close>: reducing an event to the item
  that is matched against the policy. \<open>Classify\<close> returns \<open>None\<close> where the code returns
  \<open>ok = false\<close>.
\<close>

record item =
  it_Class :: bytes
  it_Severity :: bytes
  it_Summary :: bytes
  it_EventID :: bytes
  it_Kind :: int

definition SubscribedKinds :: "int list" where
  "SubscribedKinds =
     [KindOperationRequest, KindExecutionResult, KindSystemEvent, KindServiceEvent, KindBackupEvent,
      KindSecurityEvent]"

definition classifyNotice :: "event \<Rightarrow> bytes \<Rightarrow> bytes \<Rightarrow> item" where
  "classifyNotice ev defaultClass defaultSeverity =
     (let (cl, sev, summ, ok) = Notice ev
      in \<lparr>it_Class = (if \<not> ok \<or> cl = [] then defaultClass else cl),
          it_Severity = (if \<not> ok \<or> sev = [] then defaultSeverity else sev),
          it_Summary = (if \<not> ok \<or> summ = [] then defaultClass @ '' event'' else summ),
          it_EventID = ev_id ev, it_Kind = ev_kind ev\<rparr>)"

definition classifyOperationRequest :: "event \<Rightarrow> item" where
  "classifyOperationRequest ev =
     (let tool = fst (unmarshal_tool (ev_content ev))
      in \<lparr>it_Class = ''operation'', it_Severity = SeverityInfo,
          it_Summary = (if tool \<noteq> [] then ''operation requested: '' @ tool else ''operation requested''),
          it_EventID = ev_id ev, it_Kind = ev_kind ev\<rparr>)"

text \<open>The anonymous struct with the pointer field \<open>OK\<close>.\<close>

definition ok_member :: "bytes \<times> json \<Rightarrow> bool option \<times> bool \<Rightarrow> bool option \<times> bool" where
  "ok_member m t = (if field_matches ''ok'' (fst m) then decode_bool_ptr (snd m) t else t)"

definition unmarshal_ok :: "bytes \<Rightarrow> bool option \<times> bool" where
  "unmarshal_ok s = unmarshal_struct ok_member None s"

definition classifyExecutionResult :: "event \<Rightarrow> item" where
  "classifyExecutionResult ev =
     (let (severity, summary) =
        (case fst (unmarshal_ok (ev_content ev)) of
           None \<Rightarrow> (SeverityInfo, ''operation result'')
         | Some True \<Rightarrow> (SeverityInfo, ''operation succeeded'')
         | Some False \<Rightarrow> (SeverityWarning, ''operation failed''))
      in \<lparr>it_Class = ''operation'', it_Severity = severity, it_Summary = summary,
          it_EventID = ev_id ev, it_Kind = ev_kind ev\<rparr>)"

definition Classify :: "event \<Rightarrow> item option" where
  "Classify ev =
     (if ev_kind ev = KindOperationRequest then Some (classifyOperationRequest ev)
      else if ev_kind ev = KindExecutionResult then Some (classifyExecutionResult ev)
      else if ev_kind ev = KindBackupEvent then Some (classifyNotice ev ''backup'' SeverityInfo)
      else if ev_kind ev = KindSecurityEvent then Some (classifyNotice ev ''security'' SeverityWarning)
      else if ev_kind ev = KindSystemEvent then Some (classifyNotice ev ''system'' SeverityInfo)
      else if ev_kind ev = KindServiceEvent then Some (classifyNotice ev ''service'' SeverityInfo)
      else None)"

section \<open>Properties\<close>

definition default_class :: "int \<Rightarrow> bytes" where
  "default_class k =
     (if k = KindBackupEvent then ''backup'' else if k = KindSecurityEvent then ''security''
      else if k = KindSystemEvent then ''system'' else if k = KindServiceEvent then ''service''
      else ''operation'')"

lemma severities_known:
  "validSeverity SeverityInfo" "validSeverity SeverityWarning" "validSeverity SeverityCritical"
  by (simp_all add: validSeverity_def)

lemma classifyNotice_severity:
  assumes "ev_kind ev \<in> set NoticeKinds" "Validate X ev = None" "validSeverity d"
  shows "validSeverity (it_Severity (classifyNotice ev c d))"
proof -
  obtain cl sev summ ok where n: "Notice ev = (cl, sev, summ, ok)" by (metis prod_cases4)
  then have "ok \<Longrightarrow> sev \<in> {[], SeverityInfo, SeverityWarning, SeverityCritical}"
    using accepted_severity [OF assms(1,2)] by auto
  then show ?thesis using assms(3) n by (auto simp: classifyNotice_def validSeverity_def)
qed

definition carries :: "event \<Rightarrow> item \<Rightarrow> bool" where
  "carries ev it \<longleftrightarrow> it_EventID it = ev_id ev \<and> it_Kind it = ev_kind ev \<and> it_Class it \<noteq> [] \<and> it_Summary it \<noteq> []"

lemma notice_carries: "c \<noteq> [] \<Longrightarrow> carries ev (classifyNotice ev c d)"
  by (simp add: carries_def classifyNotice_def split: prod.split)

lemma operation_carries: "carries ev (classifyOperationRequest ev)" "carries ev (classifyExecutionResult ev)"
  by (simp_all add: carries_def classifyOperationRequest_def classifyExecutionResult_def Let_def
      split: option.split bool.split)

lemma classify_carries: "Classify ev = Some it \<Longrightarrow> carries ev it"
  by (simp only: Classify_def split: if_splits) (simp_all only: option.inject option.distinct, (auto intro!: notice_carries operation_carries)+)

lemma classify_fields:
  assumes "Classify ev = Some it"
  shows "it_EventID it = ev_id ev \<and> it_Kind it = ev_kind ev \<and> it_Class it \<noteq> [] \<and> it_Summary it \<noteq> []"
  using classify_carries [OF assms] unfolding carries_def .

lemma classify_severity:
  assumes "Classify ev = Some it" "Validate X ev = None"
  shows "validSeverity (it_Severity it)"
proof (cases "ev_kind ev \<in> set NoticeKinds")
  case True
  then show ?thesis
    using assms(1) classifyNotice_severity [OF True assms(2)] severities_known
    by (auto simp: Classify_def NoticeKinds_def kind_defs)
next
  case False
  then show ?thesis
    using assms(1) severities_known
    by (auto simp: Classify_def NoticeKinds_def classifyOperationRequest_def classifyExecutionResult_def
        Let_def split: if_splits option.splits bool.splits)
qed

lemma classify_kinds: "Classify ev \<noteq> None \<longleftrightarrow> ev_kind ev \<in> set SubscribedKinds"
  by (auto simp: Classify_def SubscribedKinds_def)

text \<open>C37: The notification service acts on exactly the kinds it subscribes to. The item keeps the id
  and the kind of the event and always has a class and a summary, and for every event that the relay's
  event model accepts its severity is one that rules can threshold on.\<close>

theorem classify_total:
  "(Classify ev \<noteq> None \<longleftrightarrow> ev_kind ev \<in> set SubscribedKinds) \<and>
   (\<forall>it. Classify ev = Some it \<longrightarrow>
      it_EventID it = ev_id ev \<and> it_Kind it = ev_kind ev \<and> it_Class it \<noteq> [] \<and> it_Summary it \<noteq> [] \<and>
      (Validate X ev = None \<longrightarrow> validSeverity (it_Severity it)))"
  using classify_kinds classify_fields classify_severity by blast

lemma classify_total_witness:
  "(\<exists>it. Classify notice_event = Some it \<and> validSeverity (it_Severity it))"
proof -
  have "ev_kind notice_event \<in> set SubscribedKinds" by code_simp
  then obtain it where "Classify notice_event = Some it"
    using classify_total [of notice_event sample_ext] by blast
  moreover have "Validate sample_ext notice_event = None" by code_simp
  ultimately show ?thesis using classify_total [of notice_event sample_ext] by blast
qed

lemma ok_members:
  "fold ok_member ms t = fold ok_member (filter (\<lambda>m. field_matches ''ok'' (fst m)) ms) t"
  by (induction ms arbitrary: t) (auto simp: ok_member_def)

definition result_line :: "json \<Rightarrow> bytes \<times> bytes" where
  "result_line v =
     (case v of
        JNull \<Rightarrow> (SeverityInfo, ''operation result'')
      | JBool True \<Rightarrow> (SeverityInfo, ''operation succeeded'')
      | _ \<Rightarrow> (SeverityWarning, ''operation failed''))"

text \<open>An execution result whose content is an object with one \<open>ok\<close> member is reported as succeeded
  when that member is true and as failed, with a warning, when it is false. A value that is neither a
  boolean nor null, the string "true" or the number 1 for example, is reported as a failure too,
  because decoding allocates the pointer before it finds the wrong type.\<close>

theorem execution_result_reported:
  assumes "ev_kind ev = KindExecutionResult" and "json_parse (ev_content ev) = Some (JObj ms)"
    and "filter (\<lambda>m. field_matches ''ok'' (fst m)) ms = [(k, v)]"
  shows "\<exists>it. Classify ev = Some it \<and> (it_Severity it, it_Summary it) = result_line v"
proof -
  have "field_matches ''ok'' k" using assms(3) by (metis (mono_tags) filter_eq_ConsD fst_conv)
  then have "fst (unmarshal_ok (ev_content ev)) = fst (decode_bool_ptr v (None, False))"
    using assms(2) by (simp add: unmarshal_ok_def unmarshal_struct_def decode_struct_def ok_members [of ms]
        assms(3) ok_member_def)
  then show ?thesis using assms(1)
    by (auto simp: Classify_def kind_defs classifyExecutionResult_def result_line_def decode_bool_ptr_def
        Let_def split: json.splits bool.splits)
qed

definition result_event :: event where
  "result_event = sample_event KindExecutionResult [[''e'', hex_key CHR ''a'']] (json_text ''{`ok`:`true`}'')"

lemma execution_result_reported_witness:
  "\<exists>it. Classify result_event = Some it \<and> (it_Severity it, it_Summary it) = (SeverityWarning, ''operation failed'')"
proof -
  have "ev_kind result_event = KindExecutionResult" by code_simp
  moreover have "json_parse (ev_content result_event) = Some (JObj [(''ok'', JStr ''true'')])" by code_simp
  moreover have "filter (\<lambda>m. field_matches ''ok'' (fst m)) [(''ok'', JStr ''true'')] = [(''ok'', JStr ''true'')]"
    by code_simp
  ultimately have "\<exists>it. Classify result_event = Some it \<and> (it_Severity it, it_Summary it) = result_line (JStr ''true'')"
    by (rule execution_result_reported)
  then show ?thesis by (simp add: result_line_def)
qed

end
