(* ===== verification/Digest.thy ===== *)
theory Digest
  imports Classify
begin

text \<open>
  \<open>src/internal/notify/digest.go\<close>: the queue of items per recipient, flushing it, and the text of
  the messages. The queue is an association list without repeated recipients. A sender is a function
  from the recipient, the text and the state of the world to Go's error and the state after it. Ranging
  over the map of a batch visits it in an arrangement \<open>ord\<close>. The mutex makes \<open>Add\<close> and the swap of the
  queue in \<open>Flush\<close> single steps; the sends of a flush happen outside it, which the step relation
  \<open>digest_step\<close> at the end reflects.
\<close>

type_synonym queue = "(bytes \<times> item list) list"

record digest =
  dg_Interval :: int
  dg_pending :: queue

type_synonym 'w digest_sender = "bytes \<Rightarrow> bytes \<Rightarrow> 'w \<Rightarrow> bytes option \<times> 'w"

definition NewDigest :: "int \<Rightarrow> digest" where
  "NewDigest interval = \<lparr>dg_Interval = interval, dg_pending = []\<rparr>"

fun enqueue :: "bytes \<Rightarrow> item \<Rightarrow> queue \<Rightarrow> queue" where
  "enqueue n it [] = [(n, [it])]"
| "enqueue n it ((m, its) # q) = (if m = n then (m, its @ [it]) # q else (m, its) # enqueue n it q)"

definition Add :: "bytes \<Rightarrow> item \<Rightarrow> digest \<Rightarrow> digest" where
  "Add npub it d = d\<lparr>dg_pending := enqueue npub it (dg_pending d)\<rparr>"

subsection \<open>Messages\<close>

text \<open>\<open>sortBySeverityDesc\<close>: the inner loop moves the element at \<open>j\<close> to the left while it is more
  severe than its neighbour.\<close>

fun sift :: "item list \<Rightarrow> nat \<Rightarrow> item list" where
  "sift xs 0 = xs"
| "sift xs (Suc j) =
     (if severityRank (it_Severity (xs ! Suc j)) > severityRank (it_Severity (xs ! j))
      then sift (xs[Suc j := xs ! j, j := xs ! Suc j]) j
      else xs)"

definition sortBySeverityDesc :: "item list \<Rightarrow> item list" where
  "sortBySeverityDesc xs = fold (\<lambda>i xs. sift xs i) [1..<length xs] xs"

definition newline :: bytes where "newline = [CHR 0x0A]"

definition bracket :: "item \<Rightarrow> bytes" where
  "bracket it = ''['' @ it_Class it @ ''/'' @ it_Severity it @ ''] '' @ it_Summary it"

definition FormatDigest :: "item list \<Rightarrow> bytes" where
  "FormatDigest items =
     (let sorted = sortBySeverityDesc items
      in itoa (int (length sorted)) @ '' notice(s):'' @ newline
         @ concat (map (\<lambda>it. ''- '' @ bracket it @ newline) sorted))"

definition FormatImmediate :: "item \<Rightarrow> bytes" where
  "FormatImmediate it = bracket it"

subsection \<open>Flushing\<close>

text \<open>The loop over the batch; the error is that of the first failed send.\<close>

fun send_batch ::
  "'w digest_sender \<Rightarrow> queue \<Rightarrow> bytes option \<Rightarrow> 'w \<Rightarrow> bytes option \<times> 'w" where
  "send_batch send [] firstErr w = (firstErr, w)"
| "send_batch send ((npub, items) # b) firstErr w =
     (if items = [] then send_batch send b firstErr w
      else case send npub (FormatDigest items) w of
        (None, w') \<Rightarrow> send_batch send b firstErr w'
      | (Some e, w') \<Rightarrow>
          send_batch send b
            (if firstErr = None then Some (''notify: digest send to '' @ npub @ '': '' @ e) else firstErr) w')"

definition take_batch :: "digest \<Rightarrow> queue \<times> digest" where
  "take_batch d = (dg_pending d, d\<lparr>dg_pending := []\<rparr>)"

definition Flush ::
  "'w digest_sender \<Rightarrow> (queue \<Rightarrow> queue) \<Rightarrow> digest \<Rightarrow> 'w \<Rightarrow> bytes option \<times> digest \<times> 'w" where
  "Flush send ord d w =
     (let (batch, d') = take_batch d; (e, w') = send_batch send (ord batch) None w in (e, d', w'))"

text \<open>\<open>Run\<close>: \<open>time.NewTicker\<close> panics on an interval that is not positive (\<open>None\<close>); otherwise a
  flush on each tick and a last one when the service stops. The argument counts the ticks before the
  stop.\<close>

fun run_ticks :: "'w digest_sender \<Rightarrow> (queue \<Rightarrow> queue) \<Rightarrow> nat \<Rightarrow> digest \<times> 'w \<Rightarrow> digest \<times> 'w" where
  "run_ticks send ord 0 s = snd (Flush send ord (fst s) (snd s))"
| "run_ticks send ord (Suc n) s = run_ticks send ord n (snd (Flush send ord (fst s) (snd s)))"

definition Run :: "'w digest_sender \<Rightarrow> (queue \<Rightarrow> queue) \<Rightarrow> nat \<Rightarrow> digest \<times> 'w \<Rightarrow> (digest \<times> 'w) option" where
  "Run send ord ticks s = (if dg_Interval (fst s) \<le> 0 then None else Some (run_ticks send ord ticks s))"

subsection \<open>Sorting\<close>

abbreviation rank :: "item \<Rightarrow> int" where "rank it \<equiv> severityRank (it_Severity it)"

text \<open>What one pass of the inner loop does to a list whose first part is already in order.\<close>

definition settle :: "item list \<Rightarrow> item \<Rightarrow> item list" where
  "settle pre x = takeWhile (\<lambda>y. rank x \<le> rank y) pre @ x # dropWhile (\<lambda>y. rank x \<le> rank y) pre"

definition descending :: "item list \<Rightarrow> bool" where
  "descending xs \<longleftrightarrow> sorted_wrt (\<lambda>a b. rank b \<le> rank a) xs"

lemma descending_snoc: "descending (xs @ [y]) \<longleftrightarrow> descending xs \<and> (\<forall>a \<in> set xs. rank y \<le> rank a)"
  by (simp add: descending_def sorted_wrt_append)

lemma settle_snoc_less:
  assumes "descending (pre @ [y])" "rank y < rank x"
  shows "settle (pre @ [y]) x = settle pre x @ [y]"
proof (cases "\<forall>a \<in> set pre. rank x \<le> rank a")
  case True
  then have t: "takeWhile (\<lambda>y. rank x \<le> rank y) pre = pre" and d: "dropWhile (\<lambda>y. rank x \<le> rank y) pre = []"
    by (simp_all add: takeWhile_eq_all_conv)
  show ?thesis using True assms(2) by (simp add: settle_def takeWhile_append dropWhile_append t d)
next
  case False
  then show ?thesis by (auto simp: settle_def takeWhile_append dropWhile_append)
qed

lemma settle_stays:
  assumes "descending (pre @ [y])" "rank x \<le> rank y"
  shows "settle (pre @ [y]) x = pre @ [y, x]"
proof -
  have "\<forall>a \<in> set (pre @ [y]). rank x \<le> rank a" using assms by (auto simp: descending_snoc)
  then show ?thesis by (simp add: settle_def takeWhile_eq_all_conv [THEN iffD2] dropWhile_eq_Nil_conv [THEN iffD2]
      del: takeWhile_append)
qed

lemma sift_settle: "descending pre \<Longrightarrow> sift (pre @ x # post) (length pre) = settle pre x @ post"
proof (induction pre arbitrary: post rule: rev_induct)
  case Nil
  then show ?case by (simp add: settle_def)
next
  case (snoc y pre)
  have at: "(pre @ y # x # post) ! length pre = y" "(pre @ y # x # post) ! Suc (length pre) = x"
    by (simp_all add: nth_append)
  have upd: "(pre @ y # x # post)[Suc (length pre) := y, length pre := x] = pre @ x # y # post"
    by (simp add: list_update_append)
  show ?case
  proof (cases "rank y < rank x")
    case True
    have "sift ((pre @ [y]) @ x # post) (length (pre @ [y])) = sift (pre @ x # y # post) (length pre)"
      using True at upd by simp
    also have "\<dots> = settle pre x @ y # post" using snoc by (simp add: descending_snoc)
    finally show ?thesis using settle_snoc_less [OF snoc.prems True] by simp
  next
    case False
    then show ?thesis using at settle_stays [OF snoc.prems] by simp
  qed
qed

lemma settle_descending: "descending pre \<Longrightarrow> descending (settle pre x)"
proof (induction pre)
  case (Cons y pre)
  then have ih: "descending (settle pre x)" and y: "\<forall>a \<in> set pre. rank a \<le> rank y"
    by (simp_all add: descending_def)
  show ?case
  proof (cases "rank x \<le> rank y")
    case True
    have "set (settle pre x) \<subseteq> insert x (set pre)"
      by (auto simp: settle_def dest: set_takeWhileD set_dropWhileD)
    then have "\<forall>a \<in> set (settle pre x). rank a \<le> rank y" using True y by auto
    moreover have "settle (y # pre) x = y # settle pre x" using True by (simp add: settle_def)
    ultimately show ?thesis using ih by (simp add: descending_def)
  next
    case False
    then have "settle (y # pre) x = x # y # pre" by (simp add: settle_def)
    then show ?thesis using Cons.prems False y by (auto simp: descending_def)
  qed
qed (simp add: settle_def descending_def)

lemma settle_mset: "mset (settle pre x) = add_mset x (mset pre)"
proof -
  have "mset (takeWhile (\<lambda>y. rank x \<le> rank y) pre) + mset (dropWhile (\<lambda>y. rank x \<le> rank y) pre) = mset pre"
    by (metis mset_append takeWhile_dropWhile_id)
  then show ?thesis by (simp add: settle_def)
qed

lemma settle_filter:
  assumes "descending pre"
  shows "filter (\<lambda>y. rank y = r) (settle pre x) = filter (\<lambda>y. rank y = r) (pre @ [x])"
  using assms
proof (induction pre)
  case (Cons y pre)
  show ?case
  proof (cases "rank x \<le> rank y")
    case True
    then have "settle (y # pre) x = y # settle pre x" by (simp add: settle_def)
    then show ?thesis using Cons by (simp add: descending_def)
  next
    case False
    then have s: "settle (y # pre) x = x # y # pre" by (simp add: settle_def)
    have "\<forall>a \<in> set (y # pre). rank a < rank x" using Cons.prems False by (auto simp: descending_def)
    then have "rank x = r \<Longrightarrow> filter (\<lambda>y. rank y = r) (y # pre) = []" by (auto simp: filter_empty_conv)
    then show ?thesis using s by auto
  qed
qed (simp add: settle_def)

lemma sort_prefix:
  "i \<le> length xs \<Longrightarrow> 1 \<le> i \<Longrightarrow>
   \<exists>pre. fold (\<lambda>i xs. sift xs i) [1..<i] xs = pre @ drop i xs \<and> length pre = i \<and> descending pre \<and>
     mset pre = mset (take i xs) \<and> (\<forall>r. filter (\<lambda>y. rank y = r) pre = filter (\<lambda>y. rank y = r) (take i xs))"
proof (induction i)
  case (Suc i)
  show ?case
  proof (cases "i = 0")
    case True
    then show ?thesis using Suc.prems by (intro exI [of _ "take 1 xs"]) (cases xs; simp add: descending_def)
  next
    case False
    then obtain pre where p: "fold (\<lambda>i xs. sift xs i) [1..<i] xs = pre @ drop i xs" "length pre = i"
      "descending pre" "mset pre = mset (take i xs)"
      "\<forall>r. filter (\<lambda>y. rank y = r) pre = filter (\<lambda>y. rank y = r) (take i xs)"
      using Suc by auto
    have d: "drop i xs = xs ! i # drop (Suc i) xs" "take (Suc i) xs = take i xs @ [xs ! i]"
      using Suc.prems by (simp_all add: Cons_nth_drop_Suc take_Suc_conv_app_nth)
    have "fold (\<lambda>i xs. sift xs i) [1..<Suc i] xs = sift (pre @ drop i xs) i"
      using False p(1) by simp
    also have "\<dots> = settle pre (xs ! i) @ drop (Suc i) xs"
      using sift_settle [OF p(3), of "xs ! i" "drop (Suc i) xs"] p(2) d(1) by simp
    finally show ?thesis
      using settle_descending [OF p(3)] settle_mset [of pre "xs ! i"] settle_filter [OF p(3)] p d(2)
      by (intro exI [of _ "settle pre (xs ! i)"]) (auto simp: size_mset [symmetric] simp del: size_mset)
  qed
qed simp

lemma sort_stable: "sortBySeverityDesc xs = sort_key (\<lambda>it. - rank it) xs"
proof (cases "xs = []")
  case False
  then obtain ys where y: "sortBySeverityDesc xs = ys" "descending ys" "mset ys = mset xs"
    "\<forall>r. filter (\<lambda>y. rank y = r) ys = filter (\<lambda>y. rank y = r) xs"
    using sort_prefix [of "length xs" xs] by (auto simp: sortBySeverityDesc_def Suc_le_eq)
  have "sort_key (\<lambda>it. - rank it) xs = ys"
  proof (rule properties_for_sort_key)
    show "mset ys = mset xs" by (rule y(3))
    show "sorted (map (\<lambda>it. - rank it) ys)"
      using y(2) by (simp add: descending_def sorted_map)
    show "filter (\<lambda>x. - rank k = - rank x) ys = filter (\<lambda>x. - rank k = - rank x) xs" for k
      using y(4) [rule_format, of "rank k"] by (simp add: eq_commute)
  qed
  then show ?thesis using y(1) by simp
qed (simp add: sortBySeverityDesc_def)

lemma severityRank_values: "severityRank s = 2 \<or> severityRank s = 1 \<or> severityRank s = 0"
  by (simp add: severityRank_def)

lemma group_sorted: "sorted (map (\<lambda>it. - rank it) (filter (\<lambda>it. rank it = r) xs))"
  by (induction xs) auto

lemma group_filter:
  "filter (\<lambda>it. rank it = r) (filter (\<lambda>it. rank it = s) xs) = (if r = s then filter (\<lambda>it. rank it = r) xs else [])"
  by (induction xs) auto

text \<open>The sorted batch by rank: the critical items, the warnings, the rest, each in arrival order.\<close>

lemma sort_groups:
  "sortBySeverityDesc xs =
     filter (\<lambda>it. rank it = 2) xs @ filter (\<lambda>it. rank it = 1) xs @ filter (\<lambda>it. rank it = 0) xs"
    (is "_ = ?g xs")
proof -
  have "sort_key (\<lambda>it. - rank it) xs = ?g xs"
  proof (rule properties_for_sort_key)
    show "mset (?g xs) = mset xs"
    proof (induction xs)
      case (Cons x xs)
      then show ?case using severityRank_values [of "it_Severity x"] by auto
    qed simp
    show "sorted (map (\<lambda>it. - rank it) (?g xs))"
      by (auto simp: sorted_append group_sorted)
    show "filter (\<lambda>x. - rank k = - rank x) (?g xs) = filter (\<lambda>x. - rank k = - rank x) xs" for k
    proof -
      have "(\<lambda>x. - rank k = - rank x) = (\<lambda>x. rank x = rank k)" by auto
      then show ?thesis using severityRank_values [of "it_Severity k"]
        by (elim disjE) (simp_all add: group_filter del: filter_filter)
    qed
  qed
  then show ?thesis by (simp add: sort_stable)
qed

subsection \<open>The queue\<close>

text \<open>The items added for a recipient, in order, and what a queue holds for it.\<close>

definition added :: "bytes \<Rightarrow> (bytes \<times> item) list \<Rightarrow> item list" where
  "added n adds = map snd (filter (\<lambda>p. fst p = n) adds)"

definition held :: "bytes \<Rightarrow> queue \<Rightarrow> item list" where
  "held n q = concat (map snd (filter (\<lambda>p. fst p = n) q))"

definition queue_ok :: "queue \<Rightarrow> bool" where
  "queue_ok q \<longleftrightarrow> distinct (map fst q) \<and> (\<forall>p \<in> set q. snd p \<noteq> [])"

lemma added_simps [simp]:
  "added n [] = []" "added n (xs @ [(m, it)]) = added n xs @ (if m = n then [it] else [])"
  by (simp_all add: added_def)

lemma held_simps [simp]:
  "held n [] = []" "held n ((m, its) # q) = (if m = n then its @ held n q else held n q)"
  "held n (q @ r) = held n q @ held n r"
  by (simp_all add: held_def)

lemma held_none [simp]: "n \<notin> fst ` set q \<Longrightarrow> held n q = []"
  by (induction q) auto

lemma held_in: "queue_ok q \<Longrightarrow> (n, its) \<in> set q \<Longrightarrow> held n q = its"
  by (induction q) (auto simp: queue_ok_def rev_image_eqI)

lemma held_perm:
  assumes "queue_ok q" "mset r = mset q"
  shows "held n r = held n q" and "queue_ok r"
proof -
  have s: "set r = set q" using assms(2) by (metis set_mset_mset)
  have "mset (map fst r) = mset (map fst q)" using assms(2) by (metis mset_map)
  then have "distinct (map fst r)" using assms(1) unfolding queue_ok_def by (metis mset_eq_imp_distinct_iff)
  then show ok: "queue_ok r" using assms(1) s by (simp add: queue_ok_def)
  show "held n r = held n q"
  proof (cases "n \<in> fst ` set q")
    case True
    then obtain its where "(n, its) \<in> set q" by auto
    then show ?thesis using held_in [OF assms(1)] held_in [OF ok] s by metis
  qed (use s in simp)
qed

lemma enqueue_recipients: "fst ` set (enqueue n it q) = insert n (fst ` set q)"
  by (induction n it q rule: enqueue.induct) (simp_all add: insert_commute)

lemma held_enqueue:
  "queue_ok q \<Longrightarrow> held m (enqueue n it q) = held m q @ (if m = n then [it] else [])"
  by (induction n it q rule: enqueue.induct) (auto simp: queue_ok_def)

lemma enqueue_ok: "queue_ok q \<Longrightarrow> queue_ok (enqueue n it q)"
proof (induction n it q rule: enqueue.induct)
  case (2 n it m its q)
  then show ?case
    using enqueue_recipients [of n it q] by (auto simp: queue_ok_def)
qed (simp add: queue_ok_def)

definition add_all :: "(bytes \<times> item) list \<Rightarrow> digest \<Rightarrow> digest" where
  "add_all adds d = fold (\<lambda>p. Add (fst p) (snd p)) adds d"

lemma add_all_queue:
  "queue_ok (dg_pending (add_all adds (NewDigest i))) \<and>
   fst ` set (dg_pending (add_all adds (NewDigest i))) = fst ` set adds \<and>
   (\<forall>n. held n (dg_pending (add_all adds (NewDigest i))) = added n adds) \<and>
   dg_Interval (add_all adds (NewDigest i)) = i"
proof (induction adds rule: rev_induct)
  case Nil
  then show ?case by (simp add: add_all_def NewDigest_def queue_ok_def)
next
  case (snoc p adds)
  obtain n it where p: "p = (n, it)" by force
  have "add_all (adds @ [p]) (NewDigest i) = Add n it (add_all adds (NewDigest i))"
    by (simp add: add_all_def p)
  then show ?case using snoc by (simp add: Add_def enqueue_ok held_enqueue enqueue_recipients p)
qed

subsection \<open>What a flush sends\<close>

text \<open>The sends of a batch, one after the other: recipient, text and the sender's answer.\<close>

fun sends :: "'w digest_sender \<Rightarrow> queue \<Rightarrow> 'w \<Rightarrow> (bytes \<times> bytes \<times> bytes option) list" where
  "sends send [] w = []"
| "sends send ((n, its) # b) w =
     (let (e, w') = send n (FormatDigest its) w in (n, FormatDigest its, e) # sends send b w')"

lemma sends_texts: "map (\<lambda>s. (fst s, fst (snd s))) (sends send b w) = map (\<lambda>p. (fst p, FormatDigest (snd p))) b"
  by (induction send b w rule: sends.induct) (auto split: prod.splits)

lemma send_batch_error:
  "\<forall>p \<in> set b. snd p \<noteq> [] \<Longrightarrow>
   fst (send_batch send b err w) =
     (if err \<noteq> None then err
      else map_option (\<lambda>s. ''notify: digest send to '' @ fst s @ '': '' @ the (snd (snd s)))
             (find (\<lambda>s. snd (snd s) \<noteq> None) (sends send b w)))"
  by (induction send b err w rule: send_batch.induct) (auto split: prod.splits option.splits)

lemma send_batch_world:
  "\<forall>p \<in> set b. snd p \<noteq> [] \<Longrightarrow>
   snd (send_batch send b err w) =
     fold (\<lambda>m w. snd (send (fst m) (snd m) w)) (map (\<lambda>s. (fst s, fst (snd s))) (sends send b w)) w"
  by (induction send b err w rule: send_batch.induct) (auto split: prod.splits option.splits)

text \<open>C10: A flush empties the queue and sends one message to every recipient that items were added
  for since the last one, to no one else and to no one twice, in whatever order the map is visited and
  whatever sends fail; each message is the digest of exactly that recipient's items in the order they
  were added, and the error returned is that of the first failed send.\<close>

theorem flush_reaches_everyone:
  assumes "\<And>q. mset (ord q) = mset q"
    and "Flush send ord (add_all adds (NewDigest i)) w = (e, d, w')"
  shows "d = NewDigest i \<and>
    (let log = sends send (ord (dg_pending (add_all adds (NewDigest i)))) w in
       distinct (map fst log) \<and>
       set (map (\<lambda>s. (fst s, fst (snd s))) log) = (\<lambda>n. (n, FormatDigest (added n adds))) ` fst ` set adds \<and>
       w' = fold (\<lambda>m w. snd (send (fst m) (snd m) w)) (map (\<lambda>s. (fst s, fst (snd s))) log) w \<and>
       e = map_option (\<lambda>s. ''notify: digest send to '' @ fst s @ '': '' @ the (snd (snd s)))
             (find (\<lambda>s. snd (snd s) \<noteq> None) log))"
proof -
  let ?d = "add_all adds (NewDigest i)"
  let ?q = "dg_pending ?d"
  let ?b = "ord ?q"
  note aq = add_all_queue [of adds i]
  have ok: "queue_ok ?b" and h: "held n ?b = added n adds" for n
    using held_perm [of ?q ?b] aq assms(1) by metis+
  have s: "set ?b = set ?q" using assms(1) by (metis set_mset_mset)
  have f: "d = ?d\<lparr>dg_pending := []\<rparr>" "e = fst (send_batch send ?b None w)" "w' = snd (send_batch send ?b None w)"
    using assms(2) by (auto simp: Flush_def take_batch_def split: prod.splits)
  have "d = NewDigest i" using f(1) aq by (simp add: NewDigest_def)
  moreover have "map fst (sends send ?b w) = map fst ?b"
    using arg_cong [OF sends_texts [of send ?b w], of "map fst"] by (simp add: comp_def)
  moreover have "(\<lambda>p. (fst p, FormatDigest (snd p))) ` set ?b
      = (\<lambda>n. (n, FormatDigest (added n adds))) ` fst ` set ?b"
    using held_in [OF ok] h by (auto simp: image_image intro!: image_cong)
  moreover have "set (map (\<lambda>s. (fst s, fst (snd s))) (sends send ?b w)) = (\<lambda>p. (fst p, FormatDigest (snd p))) ` set ?b"
    using arg_cong [OF sends_texts [of send ?b w], of set] by simp
  ultimately show ?thesis
    using ok s aq send_batch_error [of ?b send None w] send_batch_world [of ?b send None w] f(2,3)
    by (simp add: queue_ok_def Let_def)
qed

text \<open>C26: The digest text counts the items and lists every item on a line of its own, all critical ones
  first, then the warnings, then the rest, and within a severity in the order of arrival: the insertion
  sort is a stable sort by descending rank, and the sort leaves the queued items unchanged in number.\<close>

theorem digest_text_exact:
  "FormatDigest items =
     itoa (int (length items)) @ '' notice(s):'' @ [CHR 0x0A] @
     concat (map (\<lambda>it. ''- ['' @ it_Class it @ ''/'' @ it_Severity it @ ''] '' @ it_Summary it @ [CHR 0x0A])
       (filter (\<lambda>it. it_Severity it = SeverityCritical) items @
        filter (\<lambda>it. it_Severity it = SeverityWarning) items @
        filter (\<lambda>it. it_Severity it \<notin> {SeverityCritical, SeverityWarning}) items)) \<and>
   sortBySeverityDesc items = sort_key (\<lambda>it. - severityRank (it_Severity it)) items"
proof -
  have r: "(\<lambda>it. rank it = 2) = (\<lambda>it. it_Severity it = SeverityCritical)"
    "(\<lambda>it. rank it = 1) = (\<lambda>it. it_Severity it = SeverityWarning)"
    "(\<lambda>it. rank it = 0) = (\<lambda>it. it_Severity it \<notin> {SeverityCritical, SeverityWarning})"
    by (auto simp: severityRank_def fun_eq_iff SeverityCritical_def SeverityWarning_def)
  have "length (sortBySeverityDesc items) = length items" by (simp add: sort_stable)
  moreover have "''- '' @ bracket it @ newline
      = ''- ['' @ it_Class it @ ''/'' @ it_Severity it @ ''] '' @ it_Summary it @ [CHR 0x0A]" for it
    by (simp add: bracket_def newline_def)
  ultimately show ?thesis
    using sort_stable [of items] sort_groups [of items] by (simp add: FormatDigest_def Let_def newline_def r)
qed

subsection \<open>Adding and flushing at the same time\<close>

text \<open>The subscription adds while a flush is sending. A state holds the queue, the rest of the batch of
  the flush in progress and what was handed to the sender so far; the first argument of \<open>digest_run\<close>
  is what was added, in order. \<open>Run\<close> is the only caller of \<open>Flush\<close>, so one flush runs at a time.\<close>

record flow =
  fl_digest :: digest
  fl_batch :: "queue option"
  fl_sent :: queue

inductive digest_run :: "(bytes \<times> item) list \<Rightarrow> flow \<Rightarrow> bool" where
  new: "digest_run [] \<lparr>fl_digest = NewDigest i, fl_batch = None, fl_sent = []\<rparr>"
| add: "digest_run h s \<Longrightarrow> digest_run (h @ [(n, it)]) (s\<lparr>fl_digest := Add n it (fl_digest s)\<rparr>)"
| swap: "digest_run h s \<Longrightarrow> fl_batch s = None \<Longrightarrow> take_batch (fl_digest s) = (q, d) \<Longrightarrow> mset b = mset q \<Longrightarrow>
    digest_run h (s\<lparr>fl_digest := d, fl_batch := Some b\<rparr>)"
| send: "digest_run h s \<Longrightarrow> fl_batch s = Some ((n, its) # b) \<Longrightarrow>
    digest_run h (s\<lparr>fl_batch := Some b, fl_sent := fl_sent s @ (if its = [] then [] else [(n, its)])\<rparr>)"
| finish: "digest_run h s \<Longrightarrow> fl_batch s = Some [] \<Longrightarrow> digest_run h (s\<lparr>fl_batch := None\<rparr>)"

definition in_flight :: "flow \<Rightarrow> queue" where
  "in_flight s = (case fl_batch s of None \<Rightarrow> [] | Some b \<Rightarrow> b)"

lemma in_flight_simps [simp]:
  "in_flight (s\<lparr>fl_digest := d\<rparr>) = in_flight s" "in_flight (s\<lparr>fl_batch := Some b\<rparr>) = b"
  "in_flight (s\<lparr>fl_batch := None\<rparr>) = []" "in_flight (s\<lparr>fl_sent := l\<rparr>) = in_flight s"
  by (simp_all add: in_flight_def)

lemma digest_run_queues: "digest_run h s \<Longrightarrow> queue_ok (dg_pending (fl_digest s)) \<and> queue_ok (in_flight s)"
proof (induction rule: digest_run.induct)
  case (send h s n its b)
  then show ?case by (simp add: in_flight_def queue_ok_def)
next
  case (swap h s q d b)
  then show ?case using held_perm(2) [of q b] by (auto simp: take_batch_def queue_ok_def)
next
  case (add h s n it)
  then show ?case by (simp add: Add_def enqueue_ok)
qed (simp_all add: NewDigest_def queue_ok_def in_flight_def)

text \<open>No item is lost, duplicated or reordered between \<open>Add\<close> and the sender, however adding
  interleaves with the sends of a flush: at every moment, for every recipient, what was handed to the
  sender followed by what the running flush still holds and what is queued is exactly what was added, in
  order.\<close>

lemma digest_conserves:
  assumes "digest_run h s"
  shows "held n (fl_sent s) @ held n (in_flight s) @ held n (dg_pending (fl_digest s)) = added n h"
  using assms
proof (induction rule: digest_run.induct)
  case (add h s m it)
  then show ?case using digest_run_queues [OF add.hyps] by (simp add: Add_def held_enqueue)
next
  case (swap h s q d b)
  then show ?case using digest_run_queues [OF swap.hyps(1)] held_perm(1) [of q b n]
    by (auto simp: take_batch_def in_flight_def)
next
  case (send h s m its b)
  then show ?case by (auto simp: in_flight_def)
next
  case (finish h s)
  then show ?case by (simp add: in_flight_def)
qed (simp add: NewDigest_def in_flight_def)

lemma digest_run_adds: "digest_run h s \<Longrightarrow> digest_run (h @ adds) (s\<lparr>fl_digest := add_all adds (fl_digest s)\<rparr>)"
proof (induction adds arbitrary: h s)
  case (Cons p adds)
  from Cons.IH [OF digest_run.add [OF Cons.prems, of "fst p" "snd p"]] show ?case by (simp add: add_all_def)
qed (simp add: add_all_def)

text \<open>\<open>Flush\<close> is a sequence of these steps.\<close>

lemma batch_steps:
  "digest_run h s \<Longrightarrow> fl_batch s = Some b \<Longrightarrow>
   digest_run h (s\<lparr>fl_batch := None, fl_sent := fl_sent s @ filter (\<lambda>p. snd p \<noteq> []) b\<rparr>)"
proof (induction b arbitrary: s)
  case (Cons p b)
  obtain n its where p: "p = (n, its)" by force
  show ?case using Cons.IH [OF digest_run.send [OF Cons.prems(1) Cons.prems(2) [unfolded p]]]
    by (cases "its = []") (simp_all add: p)
next
  case Nil
  show ?case using digest_run.finish [OF Nil] by simp
qed

lemma flush_steps:
  assumes "digest_run h s" "fl_batch s = None" "\<And>q. mset (ord q) = mset q"
    and "Flush send ord (fl_digest s) w = (e, d, w')"
  shows "digest_run h (s\<lparr>fl_digest := d, fl_sent := fl_sent s @ ord (dg_pending (fl_digest s))\<rparr>)"
proof -
  let ?q = "dg_pending (fl_digest s)"
  have t: "take_batch (fl_digest s) = (?q, d)"
    using assms(4) by (auto simp: Flush_def take_batch_def split: prod.splits)
  have "filter (\<lambda>p. snd p \<noteq> []) (ord ?q) = ord ?q"
    using held_perm(2) [of ?q "ord ?q"] digest_run_queues [OF assms(1)] assms(3)
    by (simp add: queue_ok_def filter_id_conv)
  then show ?thesis using batch_steps [OF digest_run.swap [OF assms(1,2) t assms(3)], of "ord ?q"] assms(2)
    by (cases s) simp
qed

subsection \<open>Witnesses\<close>

definition backup_item :: item where
  "backup_item = \<lparr>it_Class = ''backup'', it_Severity = SeverityInfo, it_Summary = ''done'', it_EventID = ''1'', it_Kind = 2212\<rparr>"

definition alarm_item :: item where
  "alarm_item = \<lparr>it_Class = ''security'', it_Severity = SeverityCritical, it_Summary = ''break-in'', it_EventID = ''2'', it_Kind = 2213\<rparr>"

definition sample_adds :: "(bytes \<times> item) list" where
  "sample_adds = [(''npub1a'', backup_item), (''npub1b'', backup_item), (''npub1a'', alarm_item)]"

text \<open>A sender that fails for one recipient and counts its calls.\<close>

definition flaky_send :: "nat digest_sender" where
  "flaky_send n body k = (if n = ''npub1a'' then Some ''refused'' else None, k + 1)"

lemma flush_reaches_everyone_witness:
  "fst ` set (sends flaky_send (rev (dg_pending (add_all sample_adds (NewDigest 60)))) 0) = {''npub1a'', ''npub1b''} \<and>
   Flush flaky_send rev (add_all sample_adds (NewDigest 60)) 0
     = (Some ''notify: digest send to npub1a: refused'', NewDigest 60, 2)"
proof -
  have f: "Flush flaky_send rev (add_all sample_adds (NewDigest 60)) 0
     = (Some ''notify: digest send to npub1a: refused'', NewDigest 60, 2)" by code_simp
  have "set (map (\<lambda>s. (fst s, fst (snd s))) (sends flaky_send (rev (dg_pending (add_all sample_adds (NewDigest 60)))) 0))
      = (\<lambda>n. (n, FormatDigest (added n sample_adds))) ` fst ` set sample_adds"
    using flush_reaches_everyone [OF _ f] by (simp add: Let_def)
  then have "fst ` set (map (\<lambda>s. (fst s, fst (snd s))) (sends flaky_send (rev (dg_pending (add_all sample_adds (NewDigest 60)))) 0))
      = fst ` (\<lambda>n. (n, FormatDigest (added n sample_adds))) ` fst ` set sample_adds" by simp
  then have "fst ` set (sends flaky_send (rev (dg_pending (add_all sample_adds (NewDigest 60)))) 0) = fst ` set sample_adds"
    by (simp add: image_image)
  then show ?thesis using f by (simp add: sample_adds_def insert_commute)
qed

end
