(* ===== verification/NotifyService.thy ===== *)
theory NotifyService
  imports NotifyConfig Digest
begin

text \<open>
  \<open>src/internal/notify/sender.go\<close> and \<open>service.go\<close>: delivering a text to a recipient, and the service
  that matches an event against the policy, sends what is immediate and queues the rest. A sender is a
  function of the recipient's key, the text, the scope and the state of the world, as is each function of
  \<open>nip17\<close> that \<open>NIP17Sender\<close> calls: \<open>GetDMRelays\<close>, which asks the network for the recipient's relays,
  and \<open>PublishMessage\<close>, which gets the relays for the sender's copy and those for the recipient.
  \<open>HandleEvent\<close> logs the errors of the sender; the log is not modelled.
\<close>

type_synonym 'w sender = "bytes \<Rightarrow> bytes \<Rightarrow> bytes \<Rightarrow> 'w \<Rightarrow> bytes option \<times> 'w"

subsection \<open>The NIP-17 sender\<close>

record 'w nip17 =
  GetDMRelays :: "bytes \<Rightarrow> bytes list \<Rightarrow> 'w \<Rightarrow> bytes list \<times> 'w"
  PublishMessage :: "bytes \<Rightarrow> bytes list \<Rightarrow> bytes list \<Rightarrow> bytes \<Rightarrow> 'w \<Rightarrow> bytes option \<times> 'w"

record nip17_sender =
  ns_localRelays :: "bytes list"

definition NewNIP17Sender :: "notify_config \<Rightarrow> bytes + nip17_sender" where
  "NewNIP17Sender cfg =
     (if nc_OutboundRelays cfg = []
      then Inl ''notify: outbound_relays must name at least one relay for notification delivery''
      else Inr \<lparr>ns_localRelays = nc_OutboundRelays cfg\<rparr>)"

definition Send :: "'w nip17 \<Rightarrow> nip17_sender \<Rightarrow> 'w sender" where
  "Send N s pk body scope w =
     (let (theirs, w') =
        (if scope = ScopeExternal
         then (let (dm, w1) = GetDMRelays N pk (ns_localRelays s) w
               in (if dm \<noteq> [] then dm else ns_localRelays s, w1))
         else (ns_localRelays s, w))
      in PublishMessage N body (ns_localRelays s) theirs pk w')"

subsection \<open>The service\<close>

record service =
  sc_Policy :: notify_policy
  sc_Digest :: digest

definition NewService :: "notify_policy \<Rightarrow> service" where
  "NewService p = \<lparr>sc_Policy = p, sc_Digest = NewDigest 0\<rparr>"

text \<open>The loop over the matching rules.\<close>

fun deliver_all :: "'w sender \<Rightarrow> item \<Rightarrow> notify_rule list \<Rightarrow> service \<times> 'w \<Rightarrow> service \<times> 'w" where
  "deliver_all send it [] s = s"
| "deliver_all send it (r # rs) (svc, w) =
     (if rl_DeliveryMode r = DeliveryImmediate then
        (case RecipientPubkey (sc_Policy svc) (rl_Recipient r) of
           (pk, ok) \<Rightarrow>
             if \<not> ok then deliver_all send it rs (svc, w)
             else (let (err, w') = send pk (FormatImmediate it) (rl_Scope r) w
                   in deliver_all send it rs (svc, w')))
      else if rl_DeliveryMode r = DeliverySummary then
        deliver_all send it rs (svc\<lparr>sc_Digest := Add (rl_Recipient r) it (sc_Digest svc)\<rparr>, w)
      else deliver_all send it rs (svc, w))"

definition HandleEvent :: "'w sender \<Rightarrow> event \<Rightarrow> service \<times> 'w \<Rightarrow> service \<times> 'w" where
  "HandleEvent send ev s =
     (case Classify ev of
        None \<Rightarrow> s
      | Some it \<Rightarrow> deliver_all send it (Match (sc_Policy (fst s)) (it_Class it) (it_Severity it)) s)"

definition sendDigest :: "'w sender \<Rightarrow> notify_policy \<Rightarrow> 'w digest_sender" where
  "sendDigest send p npub body w =
     (case RecipientPubkey p npub of
        (pk, ok) \<Rightarrow> if \<not> ok then (None, w) else send pk body ScopeLocalOnly w)"

definition Filter :: nostr_filter where
  "Filter = \<lparr>f_ids = [], f_kinds = SubscribedKinds, f_authors = [], f_since = None\<rparr>"

section \<open>Properties\<close>

definition immediate :: "notify_rule list \<Rightarrow> notify_rule list" where
  "immediate rs = filter (\<lambda>r. rl_DeliveryMode r = DeliveryImmediate) rs"

definition summaries :: "notify_rule list \<Rightarrow> notify_rule list" where
  "summaries rs = filter (\<lambda>r. rl_DeliveryMode r = DeliverySummary) rs"

text \<open>Sending one item for one rule after the other.\<close>

definition sends_of :: "'w sender \<Rightarrow> notify_policy \<Rightarrow> item \<Rightarrow> notify_rule list \<Rightarrow> 'w \<Rightarrow> 'w" where
  "sends_of send p it rs =
     fold (\<lambda>r w. snd (send (fst (RecipientPubkey p (rl_Recipient r))) (FormatImmediate it) (rl_Scope r) w)) rs"

lemma mode_exclusive: "DeliveryImmediate \<noteq> DeliverySummary"
  by (simp add: DeliveryImmediate_def DeliverySummary_def)

text \<open>A sender that records what it is asked to send and answers whatever \<open>err\<close> says.\<close>

definition noting :: "(bytes \<Rightarrow> bytes \<Rightarrow> bytes \<Rightarrow> bytes option) \<Rightarrow> (bytes \<times> bytes \<times> bytes) list sender" where
  "noting err pk body scope w = (err pk body scope, w @ [(pk, body, scope)])"

lemma noted_sends:
  "sends_of (noting err) p it rs w
     = w @ map (\<lambda>r. (fst (RecipientPubkey p (rl_Recipient r)), FormatImmediate it, rl_Scope r)) rs"
  by (induction rs arbitrary: w) (simp_all add: sends_of_def noting_def)

lemma deliver_all_splits:
  "\<forall>r \<in> set rs. snd (RecipientPubkey (sc_Policy svc) (rl_Recipient r)) \<Longrightarrow>
   deliver_all send it rs (svc, w) =
     (svc\<lparr>sc_Digest := add_all (map (\<lambda>r. (rl_Recipient r, it)) (summaries rs)) (sc_Digest svc)\<rparr>,
      sends_of send (sc_Policy svc) it (immediate rs) w)"
proof (induction send it rs "(svc, w)" arbitrary: svc w rule: deliver_all.induct)
  case (2 send it r rs svc w)
  then show ?case using mode_exclusive
    by (cases "RecipientPubkey (sc_Policy svc) (rl_Recipient r)")
      (simp add: immediate_def summaries_def sends_of_def add_all_def split: prod.split)
qed (simp add: immediate_def summaries_def sends_of_def add_all_def)

lemma match_subset: "set (Match p c s) \<subseteq> set (np_Rules p)"
  by (auto simp: Match_def match_rules_filter)

lemma well_formed_recipients:
  "well_formed p \<Longrightarrow> r \<in> set (np_Rules p) \<Longrightarrow> snd (RecipientPubkey p (rl_Recipient r))"
  by (auto simp: well_formed_def RecipientPubkey_def)

lemma handle_event_cases:
  assumes "well_formed (sc_Policy svc)"
  shows "HandleEvent send ev (svc, w) =
     (case Classify ev of
        None \<Rightarrow> (svc, w)
      | Some it \<Rightarrow>
          (let rs = Match (sc_Policy svc) (it_Class it) (it_Severity it) in
            (svc\<lparr>sc_Digest := add_all (map (\<lambda>r. (rl_Recipient r, it)) (summaries rs)) (sc_Digest svc)\<rparr>,
             sends_of send (sc_Policy svc) it (immediate rs) w)))"
proof (cases "Classify ev")
  case (Some it)
  have "\<forall>r \<in> set (Match (sc_Policy svc) (it_Class it) (it_Severity it)).
      snd (RecipientPubkey (sc_Policy svc) (rl_Recipient r))"
    using match_subset well_formed_recipients [OF assms] by blast
  then show ?thesis using Some by (simp add: HandleEvent_def Let_def deliver_all_splits)
qed (simp add: HandleEvent_def)

lemma handle_event_policy: "sc_Policy (fst (HandleEvent send ev s)) = sc_Policy (fst s)"
proof -
  have "sc_Policy (fst (deliver_all send it rs s)) = sc_Policy (fst s)" for it rs
    by (induction send it rs s rule: deliver_all.induct) (auto split: prod.splits)
  then show ?thesis by (simp add: HandleEvent_def split: option.split)
qed

text \<open>The key behind an npub, as the decoder gives it.\<close>

definition key_of :: "npub_decoder \<Rightarrow> bytes \<Rightarrow> bytes" where
  "key_of decode n = (case decode n of Some (_, Some pk) \<Rightarrow> pk | _ \<Rightarrow> [])"

lemma loaded_keys:
  assumes "LoadPolicy decode rf rr rp recipientsPath policyPath = Inr p"
  shows "well_formed p" and "r \<in> set (np_Rules p) \<Longrightarrow> fst (RecipientPubkey p (rl_Recipient r)) = key_of decode (rl_Recipient r)"
proof -
  obtain p0 where "policy_validate decode p0 = Inr p"
    using assms by (auto simp: LoadPolicy_def split: sum.splits)
  note v = validate_well_formed [OF this]
  then show w: "well_formed p" by blast
  assume r: "r \<in> set (np_Rules p)"
  then have "np_byNpub p (rl_Recipient r) \<noteq> None" using w unfolding well_formed_def by blast
  then obtain rc where rc: "np_byNpub p (rl_Recipient r) = Some rc" by blast
  then have "(rl_Recipient r, rc) \<in> set (map (\<lambda>r. (rc_Npub r, r)) (np_Recipients p))"
    using w by (intro map_of_SomeD) (simp add: well_formed_def)
  then have "rc \<in> set (np_Recipients p)" "rc_Npub rc = rl_Recipient r" by auto
  then show "fst (RecipientPubkey p (rl_Recipient r)) = key_of decode (rl_Recipient r)"
    using v rc by (auto simp: RecipientPubkey_def key_of_def)
qed

text \<open>C12: Under a policy that loads, an event of another kind has no effect. An event of a subscribed
  kind leads to one send for every matching immediate rule, in the order of the policy, with the rule's
  scope, to the key the rule's npub decodes to, and each is made whatever the sends before it
  answered; for every matching summary rule the item is queued once for the rule's recipient. Nothing
  else is sent or queued.\<close>

theorem handle_event_delivers:
  assumes "LoadPolicy decode rf rr rp recipientsPath policyPath = Inr (sc_Policy svc)"
    and "HandleEvent send ev (svc, w) = (svc', w')"
  shows "(ev_kind ev \<notin> set SubscribedKinds \<longrightarrow> svc' = svc \<and> w' = w) \<and>
    (\<forall>it. Classify ev = Some it \<longrightarrow>
       (let rs = filter (\<lambda>r. it_Class it \<in> set (rl_Classes r) \<and>
                           severityRank (rl_SeverityMin r) \<le> severityRank (it_Severity it)) (np_Rules (sc_Policy svc))
        in w' = fold (\<lambda>r w. snd (send (key_of decode (rl_Recipient r)) (FormatImmediate it) (rl_Scope r) w))
                  (filter (\<lambda>r. rl_DeliveryMode r = DeliveryImmediate) rs) w \<and>
           svc' = svc\<lparr>sc_Digest := fold (\<lambda>r. Add (rl_Recipient r) it)
                  (filter (\<lambda>r. rl_DeliveryMode r = DeliverySummary) rs) (sc_Digest svc)\<rparr>))"
proof -
  let ?p = "sc_Policy svc"
  let ?rs = "\<lambda>it. Match ?p (it_Class it) (it_Severity it)"
  have s: "sends_of send ?p it (immediate (?rs it)) w
      = fold (\<lambda>r w. snd (send (key_of decode (rl_Recipient r)) (FormatImmediate it) (rl_Scope r) w)) (immediate (?rs it)) w" for it
    unfolding sends_of_def using match_subset [of ?p "it_Class it" "it_Severity it"]
    by (intro fold_cong refl) (auto simp: immediate_def loaded_keys(2) [OF assms(1)])
  have a: "add_all (map (\<lambda>r. (rl_Recipient r, it)) rs) d = fold (\<lambda>r. Add (rl_Recipient r) it) rs d" for it rs d
    by (simp add: add_all_def fold_map comp_def)
  have e: "(svc', w') =
     (case Classify ev of
        None \<Rightarrow> (svc, w)
      | Some it \<Rightarrow>
          (svc\<lparr>sc_Digest := fold (\<lambda>r. Add (rl_Recipient r) it) (summaries (?rs it)) (sc_Digest svc)\<rparr>,
           fold (\<lambda>r w. snd (send (key_of decode (rl_Recipient r)) (FormatImmediate it) (rl_Scope r) w)) (immediate (?rs it)) w))"
    unfolding assms(2) [symmetric] handle_event_cases [OF loaded_keys(1) [OF assms(1)]]
    by (simp add: Let_def s a split: option.split)
  have "Classify ev = None" if "ev_kind ev \<notin> set SubscribedKinds"
    using that classify_kinds by blast
  with e show ?thesis
    unfolding Match_def match_rules_filter immediate_def summaries_def Let_def by auto
qed

subsection \<open>Where messages go\<close>

lemma Send_local:
  "scope \<noteq> ScopeExternal \<Longrightarrow>
   Send N s pk body scope w = PublishMessage N body (ns_localRelays s) (ns_localRelays s) pk w"
  by (simp add: Send_def)

lemma send_batch_cong: "(\<And>n t w. send n t w = send' n t w) \<Longrightarrow> send_batch send b e w = send_batch send' b e w"
proof -
  assume "\<And>n t w. send n t w = send' n t w"
  then have "send = send'" by (simp add: fun_eq_iff)
  then show ?thesis by simp
qed

lemma sends_of_cong:
  "(\<And>r pk w. r \<in> set rs \<Longrightarrow> send pk (FormatImmediate it) (rl_Scope r) w = send' pk (FormatImmediate it) (rl_Scope r) w) \<Longrightarrow>
   sends_of send p it rs w = sends_of send' p it rs w"
  unfolding sends_of_def by (intro fold_cong refl) auto

text \<open>C34: Messages that are not to leave the configured relays do not: a digest, whatever scopes the
  recipient's rules have, and the immediate messages of a policy without an external immediate rule
  behave the same in two worlds that agree on publishing to the outbound relays only, however the
  two differ in the relays a recipient announces and in publishing anywhere else.\<close>

theorem local_delivery_contained:
  assumes "\<And>body pk w. PublishMessage N body (ns_localRelays s) (ns_localRelays s) pk w
      = PublishMessage N' body (ns_localRelays s) (ns_localRelays s) pk w"
    and "well_formed (sc_Policy svc)"
    and "\<And>r. r \<in> set (np_Rules (sc_Policy svc)) \<Longrightarrow> rl_Scope r = ScopeExternal \<Longrightarrow> rl_DeliveryMode r = DeliverySummary"
  shows "Flush (sendDigest (Send N s) p) ord d w = Flush (sendDigest (Send N' s) p) ord d w \<and>
    HandleEvent (Send N s) ev (svc, w) = HandleEvent (Send N' s) ev (svc, w)"
proof
  have "ScopeLocalOnly \<noteq> ScopeExternal" by (simp add: ScopeLocalOnly_def ScopeExternal_def)
  then have "sendDigest (Send N s) p n t w = sendDigest (Send N' s) p n t w" for n t w
    by (simp add: sendDigest_def Send_local assms(1) split: prod.split)
  then show "Flush (sendDigest (Send N s) p) ord d w = Flush (sendDigest (Send N' s) p) ord d w"
    by (simp add: Flush_def send_batch_cong [of "sendDigest (Send N s) p" "sendDigest (Send N' s) p"])
next
  have "rl_Scope r \<noteq> ScopeExternal" if "r \<in> set (immediate (Match (sc_Policy svc) c v))" for r c v
    using that match_subset [of "sc_Policy svc" c v] assms(3) mode_exclusive by (auto simp: immediate_def)
  then have "sends_of (Send N s) (sc_Policy svc) it (immediate (Match (sc_Policy svc) c v)) w
      = sends_of (Send N' s) (sc_Policy svc) it (immediate (Match (sc_Policy svc) c v)) w" for it c v
    by (intro sends_of_cong) (simp add: Send_local assms(1))
  then show "HandleEvent (Send N s) ev (svc, w) = HandleEvent (Send N' s) ev (svc, w)"
    by (simp add: handle_event_cases [OF assms(2)] Let_def split: option.split)
qed

subsection \<open>Witnesses\<close>

text \<open>A world that records the publications, two networks that differ in the relays of recipients.\<close>

definition recorder :: "(bytes list \<times> bytes) list nip17" where
  "recorder = \<lparr>GetDMRelays = (\<lambda>pk rs w. ([], w)),
     PublishMessage = (\<lambda>body ours theirs pk w. (Some ''offline'', w @ [(theirs, pk)]))\<rparr>"

definition announcing :: "(bytes list \<times> bytes) list nip17" where
  "announcing = recorder\<lparr>GetDMRelays := (\<lambda>pk rs w. ([''wss://elsewhere''], w))\<rparr>"

definition local_sender :: nip17_sender where
  "local_sender = \<lparr>ns_localRelays = [''wss://own'']\<rparr>"

definition backup_failed :: event where
  "backup_failed = sample_event KindBackupEvent [] (json_text ''{`severity`:`critical`}'')"

lemma sample_well_formed: "well_formed sample_policy"
  by (rule loaded_keys(1) [OF sample_loads])

definition critical_item :: item where
  "critical_item = \<lparr>it_Class = ''backup'', it_Severity = ''critical'', it_Summary = ''backup event'',
     it_EventID = ev_id backup_failed, it_Kind = 2212\<rparr>"

lemma handle_event_delivers_witness:
  "\<exists>svc' w'. HandleEvent (Send recorder local_sender) backup_failed (NewService sample_policy, []) = (svc', w') \<and>
     w' = [([''wss://own''], ''ops'')] \<and>
     sc_Digest svc' = Add ''npub1ops'' critical_item (NewDigest 0)"
proof -
  obtain svc' w' where h: "HandleEvent (Send recorder local_sender) backup_failed (NewService sample_policy, []) = (svc', w')"
    by (rule prod.exhaust)
  have c: "Classify backup_failed = Some critical_item" by code_simp
  have rs: "filter (\<lambda>r. it_Class critical_item \<in> set (rl_Classes r) \<and>
      severityRank (rl_SeverityMin r) \<le> severityRank (it_Severity critical_item)) (np_Rules sample_policy) = [backup_rule, digest_rule]"
    by code_simp
  have m: "filter (\<lambda>r. rl_DeliveryMode r = DeliveryImmediate) [backup_rule, digest_rule] = [backup_rule]"
    "filter (\<lambda>r. rl_DeliveryMode r = DeliverySummary) [backup_rule, digest_rule] = [digest_rule]"
    by code_simp+
  have k: "snd (Send recorder local_sender (key_of sample_decoder (rl_Recipient backup_rule)) (FormatImmediate critical_item) (rl_Scope backup_rule) [])
      = [([''wss://own''], ''ops'')]" "rl_Recipient digest_rule = ''npub1ops''"
    by code_simp+
  have p: "sc_Policy (NewService sample_policy) = sample_policy" "sc_Digest (NewService sample_policy) = NewDigest 0"
    by (simp_all add: NewService_def)
  have l: "LoadPolicy sample_decoder (\<lambda>_. Inr []) (\<lambda>_. Inr [ops_recipient]) (\<lambda>_. Inr [backup_rule, digest_rule])
     ''recipients.toml'' ''policy.toml'' = Inr (sc_Policy (NewService sample_policy))"
    unfolding p by (rule sample_loads)
  have "w' = fold (\<lambda>r w. snd (Send recorder local_sender (key_of sample_decoder (rl_Recipient r)) (FormatImmediate critical_item) (rl_Scope r) w))
        [backup_rule] [] \<and>
      svc' = NewService sample_policy\<lparr>sc_Digest := fold (\<lambda>r. Add (rl_Recipient r) critical_item) [digest_rule] (NewDigest 0)\<rparr>"
    using handle_event_delivers [OF l h, THEN conjunct2, rule_format, OF c]
    unfolding p Let_def rs m .
  then show ?thesis by (simp only: h fold_simps k)  simp
qed

lemma local_delivery_contained_witness:
  "HandleEvent (Send recorder local_sender) backup_failed (NewService sample_policy, [])
     = HandleEvent (Send announcing local_sender) backup_failed (NewService sample_policy, []) \<and>
   Send recorder local_sender ''ops'' ''hi'' ScopeExternal []
     \<noteq> Send announcing local_sender ''ops'' ''hi'' ScopeExternal []"
proof
  have p: "sc_Policy (NewService sample_policy) = sample_policy" by (simp add: NewService_def)
  have r: "np_Rules sample_policy = [backup_rule, digest_rule]" by code_simp
  have "ScopeLocalOnly \<noteq> ScopeExternal" by code_simp
  then have "\<And>r. r \<in> set (np_Rules sample_policy) \<Longrightarrow> rl_Scope r = ScopeExternal \<Longrightarrow> rl_DeliveryMode r = DeliverySummary"
    by (auto simp: r backup_rule_def digest_rule_def)
  then show "HandleEvent (Send recorder local_sender) backup_failed (NewService sample_policy, [])
     = HandleEvent (Send announcing local_sender) backup_failed (NewService sample_policy, [])"
    using local_delivery_contained [of recorder local_sender announcing "NewService sample_policy"] sample_well_formed
    unfolding p by (simp add: announcing_def)
  show "Send recorder local_sender ''ops'' ''hi'' ScopeExternal []
     \<noteq> Send announcing local_sender ''ops'' ''hi'' ScopeExternal []"
    by code_simp
qed

end
