(* ===== verification/Notifier.thy ===== *)
theory Notifier
  imports NotifyService JsonPrint EventStore
begin

text \<open>
  \<open>src/cmd/nostrhost-notify/main.go\<close>: the cursor of the last event seen, starting the service, and the
  loop over the subscription. Files are reached through the record \<open>files\<close> of \<open>os.ReadFile\<close> and
  \<open>os.WriteFile\<close>, over an unspecified type of disks; the locale \<open>file_store\<close> states what is relied on:
  a write that succeeds is read back and no write touches another file. What a failed write leaves
  behind is open. The events a subscription yields are a list. Logging, signals and the permission bits
  of the file are not modelled.
\<close>

datatype read_result = Missing bytes | Unreadable bytes | Content bytes

record 'd files =
  fs_read :: "'d \<Rightarrow> bytes \<Rightarrow> read_result"
  fs_write :: "'d \<Rightarrow> bytes \<Rightarrow> bytes \<Rightarrow> bytes option \<times> 'd"

locale file_store =
  fixes F :: "'d files"
  assumes write_read: "fs_write F d p c = (None, d') \<Longrightarrow> fs_read F d' p = Content c"
    and write_other: "q \<noteq> p \<Longrightarrow> fs_read F (snd (fs_write F d p c)) q = fs_read F d q"

text \<open>A disk in memory, where writing some paths fails.\<close>

definition map_files :: "bytes list \<Rightarrow> (bytes \<rightharpoonup> bytes) files" where
  "map_files bad =
     \<lparr>fs_read = (\<lambda>d p. case d p of None \<Rightarrow> Missing (''open '' @ p @ '': no such file or directory'') | Some c \<Rightarrow> Content c),
      fs_write = (\<lambda>d p c. if p \<in> set bad then (Some ''read-only file system'', d) else (None, d(p \<mapsto> c)))\<rparr>"

lemma map_file_store: "file_store (map_files bad)"
  by unfold_locales (auto simp: map_files_def split: if_splits)

interpretation mf: file_store "map_files []"
  by (rule map_file_store)

definition fs_load :: "'d files \<Rightarrow> 'd \<Rightarrow> bytes \<Rightarrow> bytes + bytes" where
  "fs_load F d path =
     (case fs_read F d path of Missing e \<Rightarrow> Inl e | Unreadable e \<Rightarrow> Inl e | Content c \<Rightarrow> Inr c)"

subsection \<open>The cursor\<close>

record cursor =
  cu_LastSeen :: int
  cu_path :: bytes

datatype cursor_error = CursorRead bytes | CursorJson

definition cursor_member :: "bytes \<times> json \<Rightarrow> int \<times> bool \<Rightarrow> int \<times> bool" where
  "cursor_member m t = (if field_matches ''last_seen'' (fst m) then decode_int (snd m) t else t)"

definition loadCursor :: "'d files \<Rightarrow> bytes \<Rightarrow> 'd \<Rightarrow> cursor_error + cursor \<times> bool" where
  "loadCursor F path d =
     (case fs_read F d path of
        Missing e \<Rightarrow> Inr (\<lparr>cu_LastSeen = 0, cu_path = path\<rparr>, False)
      | Unreadable e \<Rightarrow> Inl (CursorRead e)
      | Content raw \<Rightarrow>
          (let (n, bad) = unmarshal_struct cursor_member 0 raw
           in if bad then Inl CursorJson else Inr (\<lparr>cu_LastSeen = n, cu_path = path\<rparr>, True)))"

definition cursor_json :: "cursor \<Rightarrow> bytes" where
  "cursor_json c = json_print (JObj [(''last_seen'', JNum (itoa (cu_LastSeen c)))])"

definition save :: "'d files \<Rightarrow> cursor \<Rightarrow> 'd \<Rightarrow> bytes option \<times> 'd" where
  "save F c d = fs_write F d (cu_path c) (cursor_json c)"

subsection \<open>Starting\<close>

text \<open>What \<open>main\<close> gets from outside the repository: the decoders of the three files and of npubs, and
  the error of \<open>keyer.NewPlainKeySigner\<close>.\<close>

record notify_env =
  ne_share :: fraction_share
  ne_config :: "bytes \<Rightarrow> bytes + notify_config"
  ne_recipients :: "bytes \<Rightarrow> bytes + recipient list"
  ne_rules :: "bytes \<Rightarrow> bytes + notify_rule list"
  ne_decode :: npub_decoder
  ne_key :: "bytes \<Rightarrow> bytes option"

datatype start_error =
    ConfigFailed notify_config_error
  | PolicyFailed policy_error
  | CursorFailed cursor_error
  | KeyFailed bytes
  | SenderFailed bytes
  | IntervalFailed

record notifier =
  nf_cursor :: cursor
  nf_sender :: nip17_sender
  nf_service :: service

text \<open>A fresh install starts at the present; the error of saving that is only logged.\<close>

definition initial_cursor :: "'d files \<Rightarrow> int \<Rightarrow> cursor \<times> bool \<Rightarrow> 'd \<Rightarrow> cursor \<times> 'd" where
  "initial_cursor F now ch d =
     (if snd ch then (fst ch, d)
      else let cur = (fst ch)\<lparr>cu_LastSeen := now\<rparr> in (cur, snd (save F cur d)))"

definition with_interval :: "service \<Rightarrow> int \<Rightarrow> service" where
  "with_interval svc iv = svc\<lparr>sc_Digest := (sc_Digest svc)\<lparr>dg_Interval := iv\<rparr>\<rparr>"

definition notify_start ::
  "notify_env \<Rightarrow> 'd files \<Rightarrow> int \<Rightarrow> bytes \<Rightarrow> 'd \<Rightarrow> (start_error + notifier) \<times> 'd" where
  "notify_start env F now cfgPath d =
     (case LoadConfig (ne_share env) (fs_load F d) (ne_config env) cfgPath of
        (cfg, Some err) \<Rightarrow> (Inl (ConfigFailed err), d)
      | (cfg, None) \<Rightarrow>
     (case LoadPolicy (ne_decode env) (fs_load F d) (ne_recipients env) (ne_rules env)
             (nc_RecipientsPath cfg) (nc_PolicyPath cfg) of
        Inl err \<Rightarrow> (Inl (PolicyFailed err), d)
      | Inr policy \<Rightarrow>
     (case loadCursor F (nc_StatePath cfg) d of
        Inl err \<Rightarrow> (Inl (CursorFailed err), d)
      | Inr ch \<Rightarrow>
     (let (cur, d1) = initial_cursor F now ch d in
      case ne_key env (nc_NotifierPrivateKey cfg) of
        Some err \<Rightarrow> (Inl (KeyFailed err), d1)
      | None \<Rightarrow>
     (case NewNIP17Sender cfg of
        Inl err \<Rightarrow> (Inl (SenderFailed err), d1)
      | Inr sender \<Rightarrow>
     (case ParseDuration (ne_share env) (nc_DigestInterval cfg) of
        None \<Rightarrow> (Inl IntervalFailed, d1)
      | Some iv \<Rightarrow>
          (Inr \<lparr>nf_cursor = cur, nf_sender = sender, nf_service = with_interval (NewService policy) iv\<rparr>, d1)))))))"

definition subscription :: "notifier \<Rightarrow> nostr_filter" where
  "subscription n = Filter\<lparr>f_since := Some (cu_LastSeen (nf_cursor n))\<rparr>"

subsection \<open>The loop\<close>

definition advance :: "'d files \<Rightarrow> event \<Rightarrow> cursor \<times> 'd \<Rightarrow> cursor \<times> 'd" where
  "advance F ev s =
     (if ev_created_at ev > cu_LastSeen (fst s)
      then let cur = (fst s)\<lparr>cu_LastSeen := ev_created_at ev\<rparr> in (cur, snd (save F cur (snd s)))
      else s)"

fun on_event :: "'d files \<Rightarrow> 'w sender \<Rightarrow> event \<Rightarrow> notifier \<times> 'd \<times> 'w \<Rightarrow> notifier \<times> 'd \<times> 'w" where
  "on_event F send ev (n, d, w) =
     (let (cur, d') = advance F ev (nf_cursor n, d);
          (svc, w') = HandleEvent send ev (nf_service n, w)
      in (n\<lparr>nf_cursor := cur, nf_service := svc\<rparr>, d', w'))"

fun main_loop :: "'d files \<Rightarrow> 'w sender \<Rightarrow> event list \<Rightarrow> notifier \<times> 'd \<times> 'w \<Rightarrow> notifier \<times> 'd \<times> 'w" where
  "main_loop F send [] s = s"
| "main_loop F send (ev # evs) s = main_loop F send evs (on_event F send ev s)"

section \<open>Properties\<close>

lemma cursor_parse: "json_parse (cursor_json c) = Some (JObj [(''last_seen'', JNum (itoa (cu_LastSeen c)))])"
proof -
  have "plain ''last_seen''" by code_simp
  then show ?thesis unfolding cursor_json_def
    by (intro json_parse_print) (simp_all add: itoa_literal max_depth_def)
qed

lemma cursor_decode:
  "int64_ok (cu_LastSeen c) \<Longrightarrow> unmarshal_struct cursor_member 0 (cursor_json c) = (cu_LastSeen c, False)"
  by (simp add: unmarshal_struct_def cursor_parse decode_struct_def cursor_member_def decode_int_def
      field_matches_def parse_int_itoa)

lemma save_load:
  assumes "file_store F" "save F c d = (None, d')" "int64_ok (cu_LastSeen c)"
  shows "loadCursor F (cu_path c) d' = Inr (c, True)"
proof -
  have "fs_read F d' (cu_path c) = Content (cursor_json c)"
    using file_store.write_read [OF assms(1)] assms(2) unfolding save_def by blast
  then show ?thesis by (simp add: loadCursor_def cursor_decode [OF assms(3)])
qed

lemma save_other: "file_store F \<Longrightarrow> q \<noteq> cu_path c \<Longrightarrow> fs_read F (snd (save F c d)) q = fs_read F d q"
  unfolding save_def by (rule file_store.write_other)

text \<open>C36: A cursor that was saved is the cursor that is loaded, for every 64-bit time, and saving it
  changes no other file.\<close>

theorem cursor_roundtrip:
  assumes "file_store F" and "save F c d = (None, d')" and "int64_ok (cu_LastSeen c)"
  shows "loadCursor F (cu_path c) d' = Inr (c, True) \<and> (\<forall>q. q = cu_path c \<or> fs_read F d' q = fs_read F d q)"
  using save_load [OF assms] save_other [OF assms(1), of _ c d] assms(2) by auto

subsection \<open>The loop and a restart\<close>

abbreviation writes_succeed :: "'d files \<Rightarrow> bool" where
  "writes_succeed F \<equiv> (\<forall>d p c. fst (fs_write F d p c) = None)"

text \<open>The file holds the cursor, and the files other than it are those of \<open>d0\<close>.\<close>

definition synced :: "'d files \<Rightarrow> 'd \<Rightarrow> cursor \<Rightarrow> 'd \<Rightarrow> bool" where
  "synced F d0 c d \<longleftrightarrow>
     loadCursor F (cu_path c) d = Inr (c, True) \<and> (\<forall>q. q \<noteq> cu_path c \<longrightarrow> fs_read F d q = fs_read F d0 q)"

lemma save_synced:
  assumes "file_store F" "writes_succeed F" "int64_ok (cu_LastSeen c)"
    and "\<forall>q. q \<noteq> cu_path c \<longrightarrow> fs_read F d q = fs_read F d0 q"
  shows "synced F d0 c (snd (save F c d))"
proof -
  have "save F c d = (None, snd (save F c d))" using assms(2) unfolding save_def by (simp add: prod_eq_iff)
  from save_load [OF assms(1) this assms(3)] show ?thesis
    using save_other [OF assms(1)] assms(4) by (simp add: synced_def)
qed

lemma advance_props:
  "cu_LastSeen (fst (advance F ev (c, d))) = max (ev_created_at ev) (cu_LastSeen c)"
  "cu_path (fst (advance F ev (c, d))) = cu_path c"
  by (simp_all add: advance_def Let_def)

lemma advance_synced:
  assumes "file_store F" "writes_succeed F" "int64_ok (ev_created_at ev)" "synced F d0 c d"
  shows "synced F d0 (fst (advance F ev (c, d))) (snd (advance F ev (c, d)))"
  using assms(4) save_synced [OF assms(1,2), of "c\<lparr>cu_LastSeen := ev_created_at ev\<rparr>" d d0] assms(3)
  by (simp add: advance_def synced_def Let_def)

lemma on_event_parts:
  "on_event F send ev (n, d, w) = (n', d', w') \<longleftrightarrow>
     n' = n\<lparr>nf_cursor := fst (advance F ev (nf_cursor n, d)), nf_service := fst (HandleEvent send ev (nf_service n, w))\<rparr> \<and>
     d' = snd (advance F ev (nf_cursor n, d)) \<and> w' = snd (HandleEvent send ev (nf_service n, w))"
  by (auto split: prod.splits)

lemma main_loop_props:
  "main_loop F send evs (n, d, w) = (n', d', w') \<Longrightarrow>
   (nf_service n', w') = fold (HandleEvent send) evs (nf_service n, w) \<and>
   cu_LastSeen (nf_cursor n') = fold (\<lambda>ev. max (ev_created_at ev)) evs (cu_LastSeen (nf_cursor n)) \<and>
   cu_path (nf_cursor n') = cu_path (nf_cursor n)"
proof (induction evs arbitrary: n d w)
  case (Cons ev evs)
  obtain n1 d1 w1 where s: "on_event F send ev (n, d, w) = (n1, d1, w1)" by (rule prod_cases3)
  note p = s [unfolded on_event_parts]
  have "main_loop F send evs (n1, d1, w1) = (n', d', w')"
    using Cons.prems by (simp only: main_loop.simps s)
  from Cons.IH [OF this] show ?case
    using p advance_props [of F ev "nf_cursor n" d] by (simp add: prod_eq_iff)
qed simp

lemma main_loop_synced:
  assumes "file_store F" "writes_succeed F"
  shows "\<forall>ev \<in> set evs. int64_ok (ev_created_at ev) \<Longrightarrow> synced F d0 (nf_cursor n) d \<Longrightarrow>
    main_loop F send evs (n, d, w) = (n', d', w') \<Longrightarrow> synced F d0 (nf_cursor n') d'"
proof (induction evs arbitrary: n d w)
  case (Cons ev evs)
  obtain n1 d1 w1 where s: "on_event F send ev (n, d, w) = (n1, d1, w1)" by (rule prod_cases3)
  have "synced F d0 (nf_cursor n1) d1"
    using s [unfolded on_event_parts] advance_synced [OF assms, of ev d0 "nf_cursor n" d] Cons.prems by simp
  moreover have "main_loop F send evs (n1, d1, w1) = (n', d', w')"
    using Cons.prems(3) by (simp only: main_loop.simps s)
  ultimately show ?case using Cons.IH Cons.prems(1) by simp
qed simp

lemma fold_max_le:
  "fold (\<lambda>ev. max (ev_created_at ev)) evs m \<le> t \<longleftrightarrow> m \<le> t \<and> (\<forall>ev \<in> set evs. ev_created_at ev \<le> (t :: int))"
  by (induction evs arbitrary: m) auto

lemma fold_max_Max:
  "fold (\<lambda>ev. max (ev_created_at ev)) evs (m :: int) = Max (insert m (ev_created_at ` set evs))"
proof (induction evs arbitrary: m)
  case (Cons ev evs)
  have "Max (insert (max t m) A) = Max (insert m (insert t A))" if "finite A" for t and A :: "int set"
    using that by (cases "A = {}") (simp_all add: max.left_commute max.commute)
  then show ?case using Cons.IH by simp
qed simp

lemma loaded_path: "loadCursor F path d = Inr (c, b) \<Longrightarrow> cu_path c = path"
  by (auto simp: loadCursor_def split: read_result.splits if_splits prod.splits)

lemma notify_start_cases:
  assumes "notify_start env F now cfgPath d = (Inr n, d')"
  obtains cfg policy ch iv where
    "LoadConfig (ne_share env) (fs_load F d) (ne_config env) cfgPath = (cfg, None)"
    "LoadPolicy (ne_decode env) (fs_load F d) (ne_recipients env) (ne_rules env)
       (nc_RecipientsPath cfg) (nc_PolicyPath cfg) = Inr policy"
    "loadCursor F (nc_StatePath cfg) d = Inr ch" "initial_cursor F now ch d = (nf_cursor n, d')"
    "ne_key env (nc_NotifierPrivateKey cfg) = None" "NewNIP17Sender cfg = Inr (nf_sender n)"
    "ParseDuration (ne_share env) (nc_DigestInterval cfg) = Some iv"
    "nf_service n = with_interval (NewService policy) iv"
proof -
  obtain cfg where 1: "LoadConfig (ne_share env) (fs_load F d) (ne_config env) cfgPath = (cfg, None)"
    using assms by (auto simp: notify_start_def split: prod.splits option.splits)
  note s = assms [unfolded notify_start_def 1 prod.case option.case]
  obtain policy where 2: "LoadPolicy (ne_decode env) (fs_load F d) (ne_recipients env) (ne_rules env)
       (nc_RecipientsPath cfg) (nc_PolicyPath cfg) = Inr policy"
    using s by (auto split: sum.splits)
  note s = s [unfolded 2 sum.case]
  obtain ch where 3: "loadCursor F (nc_StatePath cfg) d = Inr ch"
    using s by (auto split: sum.splits)
  note s = s [unfolded 3 sum.case]
  obtain cur d1 where 4: "initial_cursor F now ch d = (cur, d1)" by (rule prod.exhaust)
  note s = s [unfolded 4 Let_def prod.case]
  obtain sender iv where 5: "ne_key env (nc_NotifierPrivateKey cfg) = None" "NewNIP17Sender cfg = Inr sender"
    "ParseDuration (ne_share env) (nc_DigestInterval cfg) = Some iv" "d' = d1"
    "n = \<lparr>nf_cursor = cur, nf_sender = sender, nf_service = with_interval (NewService policy) iv\<rparr>"
    using s by (auto split: option.splits sum.splits)
  show ?thesis by (rule that [OF 1 2 3 _ 5(1) _ 5(3)]) (simp_all add: 4 5)
qed

lemma start_synced:
  assumes "file_store F" "writes_succeed F" "int64_ok now"
    and "notify_start env F now cfgPath d = (Inr n, d')"
  shows "synced F d (nf_cursor n) d'"
  using assms(4)
proof (cases rule: notify_start_cases)
  case (1 cfg policy ch iv)
  obtain c b where ch: "ch = (c, b)" by (rule prod.exhaust)
  show ?thesis
  proof (cases b)
    case True
    then show ?thesis using 1(3,4) loaded_path [OF 1(3) [unfolded ch]] ch by (auto simp: initial_cursor_def synced_def)
  next
    case False
    then have "nf_cursor n = c\<lparr>cu_LastSeen := now\<rparr>" "d' = snd (save F (c\<lparr>cu_LastSeen := now\<rparr>) d)"
      using 1(4) ch by (auto simp: initial_cursor_def Let_def)
    then show ?thesis using save_synced [OF assms(1,2), of "c\<lparr>cu_LastSeen := now\<rparr>" d d] assms(3) by simp
  qed
qed

lemma initial_path: "cu_path (fst (initial_cursor F now ch d)) = cu_path (fst ch)"
  by (simp add: initial_cursor_def Let_def)

text \<open>The next start reads the configuration from an unchanged file, and the cursor.\<close>

lemma restart_cursor:
  assumes "synced F d (nf_cursor n) d1" "cu_path (nf_cursor n) \<noteq> cfgPath"
    and "notify_start env F now cfgPath d = (Inr n0, d0)" "cu_path (nf_cursor n0) = cu_path (nf_cursor n)"
    and "notify_start env F now2 cfgPath d1 = (Inr n2, d2)"
  shows "nf_cursor n2 = nf_cursor n \<and> d2 = d1"
proof -
  have r: "fs_read F d1 cfgPath = fs_read F d cfgPath"
    using assms(1) [unfolded synced_def, THEN conjunct2, rule_format, of cfgPath] assms(2) by simp
  have l: "LoadConfig (ne_share env) (fs_load F d1) (ne_config env) cfgPath
      = LoadConfig (ne_share env) (fs_load F d) (ne_config env) cfgPath"
    by (simp add: LoadConfig_def toml_load_def fs_load_def r)
  obtain cfg ch where 1: "LoadConfig (ne_share env) (fs_load F d) (ne_config env) cfgPath = (cfg, None)"
    "loadCursor F (nc_StatePath cfg) d = Inr ch" "initial_cursor F now ch d = (nf_cursor n0, d0)"
    using assms(3) by (rule notify_start_cases) (rule that)
  have "cu_path (fst ch) = nc_StatePath cfg"
    by (rule loaded_path [of F _ d _ "snd ch"]) (simp add: 1(2))
  moreover have "cu_path (nf_cursor n0) = cu_path (fst ch)"
    using initial_path [of F now ch d] 1(3) by simp
  ultimately have p: "nc_StatePath cfg = cu_path (nf_cursor n)" using assms(4) by simp
  obtain cfg2 ch2 where 2: "LoadConfig (ne_share env) (fs_load F d1) (ne_config env) cfgPath = (cfg2, None)"
    "loadCursor F (nc_StatePath cfg2) d1 = Inr ch2" "initial_cursor F now2 ch2 d1 = (nf_cursor n2, d2)"
    using assms(5) by (rule notify_start_cases) (rule that)
  have "cfg2 = cfg" using 2(1) unfolding l 1(1) by simp
  moreover have "loadCursor F (cu_path (nf_cursor n)) d1 = Inr (nf_cursor n, True)"
    using assms(1) unfolding synced_def by blast
  ultimately have "ch2 = (nf_cursor n, True)" using 2(2) unfolding p [symmetric] by simp
  then show ?thesis using 2(3) by (simp add: initial_cursor_def)
qed

text \<open>C11: After a stop between two events, a restart that finds its files asks the relay for exactly the
  subscribed events that are not older than the first start's cursor and than any event seen before the
  stop. So of a stream in ascending order nothing is lost; the newest event seen is asked for, and
  delivered, once more; and of a backlog that arrives newest first, as relays send stored events,
  everything behind the event at which the service stopped is never asked for again.\<close>

theorem restart_requests:
  assumes "file_store F" and "writes_succeed F" and "int64_ok now"
    and "notify_start env F now cfgPath d = (Inr n, d0)" and "cu_path (nf_cursor n) \<noteq> cfgPath"
    and "\<forall>ev \<in> set seen. int64_ok (ev_created_at ev)"
    and "main_loop F send seen (n, d0, w) = (n1, d1, w1)"
    and "notify_start env F now2 cfgPath d1 = (Inr n2, d2)"
  shows "matches (subscription n2) ev \<longleftrightarrow>
    ev_kind ev \<in> set SubscribedKinds \<and> cu_LastSeen (nf_cursor n) \<le> ev_created_at ev \<and>
    (\<forall>s \<in> set seen. ev_created_at s \<le> ev_created_at ev)"
proof -
  have s1: "synced F d (nf_cursor n1) d1"
    by (rule main_loop_synced [OF assms(1,2,6) start_synced [OF assms(1-4)] assms(7)])
  note p = main_loop_props [OF assms(7)]
  have path: "cu_path (nf_cursor n1) = cu_path (nf_cursor n)" using p by blast
  have "nf_cursor n2 = nf_cursor n1"
    using restart_cursor [OF s1 _ assms(4) _ assms(8)] assms(5) path by metis
  then have "cu_LastSeen (nf_cursor n2) = fold (\<lambda>ev. max (ev_created_at ev)) seen (cu_LastSeen (nf_cursor n))"
    using p by metis
  moreover have "SubscribedKinds \<noteq> []" by (simp add: SubscribedKinds_def)
  ultimately show ?thesis by (simp add: matches_def subscription_def Filter_def fold_max_le)
qed

text \<open>Once started, the service handles every event of the subscription exactly once and in order,
  whether or not the cursor can be saved, under the policy it started with, and its cursor is the newest
  time seen, which never goes back.\<close>

theorem loop_handles_every_event:
  assumes "main_loop F send evs (n, d, w) = (n', d', w')"
  shows "(nf_service n', w') = fold (HandleEvent send) evs (nf_service n, w) \<and>
    sc_Policy (nf_service n') = sc_Policy (nf_service n) \<and>
    cu_LastSeen (nf_cursor n') = Max (insert (cu_LastSeen (nf_cursor n)) (ev_created_at ` set evs))"
proof -
  note p = main_loop_props [OF assms]
  have "sc_Policy (fst (fold (HandleEvent send) evs s)) = sc_Policy (fst s)" for s
    by (induction evs arbitrary: s) (simp_all add: handle_event_policy)
  from this [of "(nf_service n, w)"] have "sc_Policy (nf_service n') = sc_Policy (nf_service n)"
    using p by (metis fst_conv)
  then show ?thesis using p by (simp only: fold_max_Max)
qed

text \<open>C35: A service that starts has the configured outbound relays, at least one of them, a well-formed
  policy and an empty queue; without a cursor file it starts at the present, so that no history is
  delivered. Its digest goroutine panics exactly when the configured interval is not positive, which
  the configuration may be: no check on the way refuses it.\<close>

theorem started_service:
  assumes "notify_start env F now cfgPath d = (Inr n, d')"
  shows "\<exists>cfg iv. LoadConfig (ne_share env) (fs_load F d) (ne_config env) cfgPath = (cfg, None) \<and>
    ns_localRelays (nf_sender n) = nc_OutboundRelays cfg \<and> nc_OutboundRelays cfg \<noteq> [] \<and>
    well_formed (sc_Policy (nf_service n)) \<and> dg_pending (sc_Digest (nf_service n)) = [] \<and>
    cu_path (nf_cursor n) = nc_StatePath cfg \<and>
    ((\<exists>e. fs_read F d (nc_StatePath cfg) = Missing e) \<longrightarrow> cu_LastSeen (nf_cursor n) = now) \<and>
    ParseDuration (ne_share env) (nc_DigestInterval cfg) = Some iv \<and>
    (Run send ord ticks (sc_Digest (nf_service n), w) = None \<longleftrightarrow> iv \<le> 0)"
  using assms
proof (cases rule: notify_start_cases)
  case (1 cfg policy ch iv)
  have "cu_path (fst ch) = nc_StatePath cfg"
    by (rule loaded_path [of F _ d _ "snd ch"]) (simp add: 1(3))
  then have "cu_path (nf_cursor n) = nc_StatePath cfg" using initial_path [of F now ch d] 1(4) by simp
  moreover have "cu_LastSeen (nf_cursor n) = now" if "fs_read F d (nc_StatePath cfg) = Missing e" for e
  proof -
    have "\<not> snd ch" using 1(3) that by (auto simp: loadCursor_def)
    then have "cu_LastSeen (fst (initial_cursor F now ch d)) = now" by (simp add: initial_cursor_def Let_def)
    then show ?thesis using 1(4) by simp
  qed
  moreover have "nf_sender n = \<lparr>ns_localRelays = nc_OutboundRelays cfg\<rparr> \<and> nc_OutboundRelays cfg \<noteq> []"
    using 1(6) by (auto simp: NewNIP17Sender_def split: if_splits)
  moreover have "well_formed (sc_Policy (nf_service n))" "dg_pending (sc_Digest (nf_service n)) = []"
    "dg_Interval (sc_Digest (nf_service n)) = iv"
    using loaded_keys(1) [OF 1(2)] by (simp_all add: 1(8) with_interval_def NewService_def NewDigest_def)
  ultimately show ?thesis using 1(1,7)
    by (intro exI [of _ cfg] exI [of _ iv]) (simp add: Run_def, blast)
qed

subsection \<open>Witnesses\<close>

definition sample_env :: "bytes \<Rightarrow> notify_env" where
  "sample_env interval =
     \<lparr>ne_share = exact_share,
      ne_config = (\<lambda>_. Inr (NotifyDefault\<lparr>nc_NotifierPrivateKey := ''key'', nc_StatePath := ''cursor'',
        nc_DigestInterval := interval, nc_OutboundRelays := [''wss://own'']\<rparr>)),
      ne_recipients = (\<lambda>_. Inr [ops_recipient]), ne_rules = (\<lambda>_. Inr [backup_rule, digest_rule]),
      ne_decode = sample_decoder, ne_key = (\<lambda>_. None)\<rparr>"

definition sample_disk :: "bytes \<rightharpoonup> bytes" where
  "sample_disk = [''notify.toml'' \<mapsto> [], ''./state/notifications/recipients.toml'' \<mapsto> [],
     ''./state/notifications/policy.toml'' \<mapsto> []]"

definition at_time :: "int \<Rightarrow> event" where
  "at_time t = (sample_event KindBackupEvent [] (json_text ''{}''))\<lparr>ev_created_at := t\<rparr>"

definition first_start :: "(start_error + notifier) \<times> (bytes \<rightharpoonup> bytes)" where
  "first_start = notify_start (sample_env ''0s'') (map_files []) 1000 ''notify.toml'' sample_disk"

definition stopped :: "notifier \<times> (bytes \<rightharpoonup> bytes) \<times> (bytes list \<times> bytes) list" where
  "stopped = main_loop (map_files []) (Send recorder local_sender) [at_time 2000, at_time 1500]
     (projr (fst first_start), snd first_start, [])"

definition second_start :: "(start_error + notifier) \<times> (bytes \<rightharpoonup> bytes)" where
  "second_start = notify_start (sample_env ''0s'') (map_files []) 5000 ''notify.toml'' (fst (snd stopped))"

lemma starts_at:
  "\<not> isl (fst first_start)" "\<not> isl (fst second_start)"
  "nf_cursor (projr (fst first_start)) = \<lparr>cu_LastSeen = 1000, cu_path = ''cursor''\<rparr>"
  by code_simp+

lemma starts:
  "notify_start (sample_env ''0s'') (map_files []) 1000 ''notify.toml'' sample_disk
     = (Inr (projr (fst first_start)), snd first_start)"
  "main_loop (map_files []) (Send recorder local_sender) [at_time 2000, at_time 1500]
     (projr (fst first_start), snd first_start, []) = (fst stopped, fst (snd stopped), snd (snd stopped))"
  "notify_start (sample_env ''0s'') (map_files []) 5000 ''notify.toml'' (fst (snd stopped))
     = (Inr (projr (fst second_start)), snd second_start)"
proof -
  show "notify_start (sample_env ''0s'') (map_files []) 1000 ''notify.toml'' sample_disk
     = (Inr (projr (fst first_start)), snd first_start)"
    unfolding first_start_def [symmetric] using starts_at(1) by (simp add: prod_eq_iff)
  show "main_loop (map_files []) (Send recorder local_sender) [at_time 2000, at_time 1500]
     (projr (fst first_start), snd first_start, []) = (fst stopped, fst (snd stopped), snd (snd stopped))"
    unfolding stopped_def [symmetric] by simp
  show "notify_start (sample_env ''0s'') (map_files []) 5000 ''notify.toml'' (fst (snd stopped))
     = (Inr (projr (fst second_start)), snd second_start)"
    unfolding second_start_def [symmetric] using starts_at(2) by (simp add: prod_eq_iff)
qed

lemma writes_ok: "writes_succeed (map_files [])"
  by (simp add: map_files_def)

text \<open>The older of two events that were waiting is never asked for again.\<close>

lemma restart_requests_witness:
  "matches (subscription (projr (fst second_start))) (at_time 2000) \<and>
   \<not> matches (subscription (projr (fst second_start))) (at_time 1800)"
proof -
  have m: "matches (subscription (projr (fst second_start))) ev \<longleftrightarrow>
      ev_kind ev \<in> set SubscribedKinds \<and> 1000 \<le> ev_created_at ev \<and>
      (\<forall>s \<in> set [at_time 2000, at_time 1500]. ev_created_at s \<le> ev_created_at ev)" for ev
  proof -
    have t: "\<forall>ev \<in> set [at_time 2000, at_time 1500]. int64_ok (ev_created_at ev)" by (simp add: at_time_def int64_ok_def)
    have p: "cu_path (nf_cursor (projr (fst first_start))) \<noteq> ''notify.toml''" by (simp add: starts_at(3))
    have "int64_ok 1000" by (simp add: int64_ok_def)
    from restart_requests [OF map_file_store writes_ok this starts(1) p t starts(2) starts(3), of ev]
    show ?thesis by (simp only: starts_at(3) cursor.simps)
  qed
  have "KindBackupEvent \<in> set SubscribedKinds" by (simp add: SubscribedKinds_def)
  then show ?thesis by (simp add: m) (simp add: at_time_def sample_event_def)
qed

lemma started_service_witness:
  "ParseDuration exact_share ''0s'' = Some 0 \<and>
   Run flaky_send rev 3 (sc_Digest (nf_service (projr (fst first_start))), 0) = None"
proof -
  let ?l = "LoadConfig (ne_share (sample_env ''0s'')) (fs_load (map_files []) sample_disk) (ne_config (sample_env ''0s'')) ''notify.toml''"
  have p: "ParseDuration exact_share ''0s'' = Some 0" by code_simp
  obtain cfg iv where l: "?l = (cfg, None)"
    and i: "ParseDuration (ne_share (sample_env ''0s'')) (nc_DigestInterval cfg) = Some iv"
    and r: "Run flaky_send rev 3 (sc_Digest (nf_service (projr (fst first_start))), 0) = None \<longleftrightarrow> iv \<le> 0"
    using started_service [OF starts(1), of flaky_send rev 3 0] by (elim exE conjE) (rule that)
  have "nc_DigestInterval (fst ?l) = ''0s''" by code_simp
  then have "nc_DigestInterval cfg = ''0s''" by (simp only: l fst_conv)
  then have "iv = 0" using i p by (simp add: sample_env_def)
  then show ?thesis using p r by simp
qed

lemma cursor_roundtrip_witness:
  "loadCursor (map_files []) ''cursor'' (sample_disk(''cursor'' \<mapsto> ''{`last_seen`:-5}'')) \<noteq> Inr (\<lparr>cu_LastSeen = -5, cu_path = ''cursor''\<rparr>, True) \<and>
   loadCursor (map_files []) ''cursor'' (snd (save (map_files []) \<lparr>cu_LastSeen = -5, cu_path = ''cursor''\<rparr> sample_disk))
     = Inr (\<lparr>cu_LastSeen = -5, cu_path = ''cursor''\<rparr>, True)"
proof
  show "loadCursor (map_files []) ''cursor'' (sample_disk(''cursor'' \<mapsto> ''{`last_seen`:-5}'')) \<noteq> Inr (\<lparr>cu_LastSeen = -5, cu_path = ''cursor''\<rparr>, True)"
    by code_simp
  let ?c = "\<lparr>cu_LastSeen = -5, cu_path = ''cursor''\<rparr>"
  have "save (map_files []) ?c sample_disk = (None, snd (save (map_files []) ?c sample_disk))"
    using writes_ok unfolding save_def by (simp add: prod_eq_iff)
  then show "loadCursor (map_files []) ''cursor'' (snd (save (map_files []) ?c sample_disk)) = Inr (?c, True)"
    using cursor_roundtrip [OF map_file_store, of "[]" ?c] by (simp add: int64_ok_def)
qed

lemma loop_handles_every_event_witness:
  "cu_LastSeen (nf_cursor (fst stopped)) = 2000"
  using loop_handles_every_event [OF starts(2)] by (simp add: starts_at(3)) (simp add: at_time_def)

end
