(* ===== verification/NotifierRun.thy ===== *)
theory NotifierRun
  imports Notifier
begin

text \<open>
  The notifier as a process with two goroutines, \<open>src/cmd/nostrhost-notify/main.go\<close>: \<open>main\<close> takes an event
  from the subscription, moves the cursor and goes through the rules of \<open>HandleEvent\<close>, while
  \<open>Digest.Run\<close> flushes on ticks. Between any two rules and any two sends of a flush the other goroutine
  may run; \<open>proc_step\<close> has one rule for each. When the subscription ends, the deferred
  \<open>close(stopDigest)\<close> asks \<open>Run\<close> for a last flush, and \<open>main\<close> returns, which ends the process: nothing
  waits for the flush. The answers of the sender are \<open>err\<close>, and what it is asked to send is recorded.
\<close>

datatype phase = Serving | Closing | Exited

datatype runner = Waiting | Flushing | LastFlush | Returned

record 'd process =
  pr_disk :: 'd
  pr_cursor :: cursor
  pr_todo :: "(item \<times> notify_rule list) option"  \<comment> \<open>the event in \<open>HandleEvent\<close> and the rules left\<close>
  pr_log :: "(bytes \<times> bytes \<times> bytes) list"      \<comment> \<open>immediate messages\<close>
  pr_flow :: flow
  pr_runner :: runner
  pr_phase :: phase

definition process_of :: "notifier \<Rightarrow> 'd \<Rightarrow> 'd process" where
  "process_of n d =
     \<lparr>pr_disk = d, pr_cursor = nf_cursor n, pr_todo = None, pr_log = [],
      pr_flow = \<lparr>fl_digest = sc_Digest (nf_service n), fl_batch = None, fl_sent = []\<rparr>,
      pr_runner = Waiting, pr_phase = Serving\<rparr>"

definition todo_of :: "notify_policy \<Rightarrow> event \<Rightarrow> (item \<times> notify_rule list) option" where
  "todo_of p ev = map_option (\<lambda>it. (it, Match p (it_Class it) (it_Severity it))) (Classify ev)"

text \<open>One turn of the loop over the matching rules.\<close>

definition deliver_one ::
  "(bytes \<Rightarrow> bytes \<Rightarrow> bytes \<Rightarrow> bytes option) \<Rightarrow> notify_policy \<Rightarrow> item \<Rightarrow> notify_rule \<Rightarrow> 'd process \<Rightarrow> 'd process" where
  "deliver_one err p it r s =
     (let (svc, log) = deliver_all (noting err) it [r] (\<lparr>sc_Policy = p, sc_Digest = fl_digest (pr_flow s)\<rparr>, pr_log s)
      in s\<lparr>pr_flow := (pr_flow s)\<lparr>fl_digest := sc_Digest svc\<rparr>, pr_log := log\<rparr>)"

definition begin_flush :: "queue \<Rightarrow> digest \<Rightarrow> runner \<Rightarrow> 'd process \<Rightarrow> 'd process" where
  "begin_flush b d m s = s\<lparr>pr_flow := (pr_flow s)\<lparr>fl_digest := d, fl_batch := Some b\<rparr>, pr_runner := m\<rparr>"

inductive proc_step ::
  "'d files \<Rightarrow> (bytes \<Rightarrow> bytes \<Rightarrow> bytes \<Rightarrow> bytes option) \<Rightarrow> notify_policy
     \<Rightarrow> 'd process \<Rightarrow> event list \<Rightarrow> 'd process \<Rightarrow> bool"
  for F err p where
  receive: "pr_phase s = Serving \<Longrightarrow> pr_todo s = None \<Longrightarrow> advance F ev (pr_cursor s, pr_disk s) = (c, d) \<Longrightarrow>
    proc_step F err p s [ev] (s\<lparr>pr_cursor := c, pr_disk := d, pr_todo := todo_of p ev\<rparr>)"
| deliver: "pr_phase s \<noteq> Exited \<Longrightarrow> pr_todo s = Some (it, r # rs) \<Longrightarrow>
    proc_step F err p s [] (deliver_one err p it r (s\<lparr>pr_todo := Some (it, rs)\<rparr>))"
| handled: "pr_phase s \<noteq> Exited \<Longrightarrow> pr_todo s = Some (it, []) \<Longrightarrow> proc_step F err p s [] (s\<lparr>pr_todo := None\<rparr>)"
| tick: "pr_phase s \<noteq> Exited \<Longrightarrow> pr_runner s = Waiting \<Longrightarrow> 0 < dg_Interval (fl_digest (pr_flow s)) \<Longrightarrow>
    take_batch (fl_digest (pr_flow s)) = (q, d) \<Longrightarrow> mset b = mset q \<Longrightarrow>
    proc_step F err p s [] (begin_flush b d Flushing s)"
| stop: "pr_phase s = Closing \<Longrightarrow> pr_runner s = Waiting \<Longrightarrow> 0 < dg_Interval (fl_digest (pr_flow s)) \<Longrightarrow>
    take_batch (fl_digest (pr_flow s)) = (q, d) \<Longrightarrow> mset b = mset q \<Longrightarrow>
    proc_step F err p s [] (begin_flush b d LastFlush s)"
| panic: "pr_phase s \<noteq> Exited \<Longrightarrow> pr_runner s = Waiting \<Longrightarrow> dg_Interval (fl_digest (pr_flow s)) \<le> 0 \<Longrightarrow>
    proc_step F err p s [] (s\<lparr>pr_phase := Exited\<rparr>)"
| send: "pr_phase s \<noteq> Exited \<Longrightarrow> fl_batch (pr_flow s) = Some ((n, its) # b) \<Longrightarrow>
    proc_step F err p s [] (s\<lparr>pr_flow := (pr_flow s)
      \<lparr>fl_batch := Some b, fl_sent := fl_sent (pr_flow s) @ (if its = [] then [] else [(n, its)])\<rparr>\<rparr>)"
| flushed: "pr_phase s \<noteq> Exited \<Longrightarrow> fl_batch (pr_flow s) = Some [] \<Longrightarrow>
    proc_step F err p s [] (s\<lparr>pr_flow := (pr_flow s)\<lparr>fl_batch := None\<rparr>,
      pr_runner := (if pr_runner s = LastFlush then Returned else Waiting)\<rparr>)"
| close: "pr_phase s = Serving \<Longrightarrow> pr_todo s = None \<Longrightarrow> proc_step F err p s [] (s\<lparr>pr_phase := Closing\<rparr>)"
| leave: "pr_phase s = Closing \<Longrightarrow> proc_step F err p s [] (s\<lparr>pr_phase := Exited\<rparr>)"

text \<open>The list of a run are the events it has received.\<close>

inductive proc_run ::
  "'d files \<Rightarrow> (bytes \<Rightarrow> bytes \<Rightarrow> bytes \<Rightarrow> bytes option) \<Rightarrow> notify_policy
     \<Rightarrow> 'd process \<Rightarrow> event list \<Rightarrow> 'd process \<Rightarrow> bool"
  for F err p s where
  start: "proc_run F err p s [] s"
| step: "proc_run F err p s evs t \<Longrightarrow> proc_step F err p t l u \<Longrightarrow> proc_run F err p s (evs @ l) u"

lemma silent_step: "proc_run F err p s evs t \<Longrightarrow> proc_step F err p t [] u \<Longrightarrow> proc_run F err p s evs u"
  using proc_run.step by fastforce

lemma no_step_exited: "pr_phase s = Exited \<Longrightarrow> \<not> proc_step F err p s l t"
  by (auto elim: proc_step.cases)

subsection \<open>What an event asks for\<close>

definition rule_adds :: "item \<Rightarrow> notify_rule list \<Rightarrow> (bytes \<times> item) list" where
  "rule_adds it rs = map (\<lambda>r. (rl_Recipient r, it)) (summaries rs)"

definition rule_sends :: "notify_policy \<Rightarrow> item \<Rightarrow> notify_rule list \<Rightarrow> (bytes \<times> bytes \<times> bytes) list" where
  "rule_sends p it rs =
     map (\<lambda>r. (fst (RecipientPubkey p (rl_Recipient r)), FormatImmediate it, rl_Scope r)) (immediate rs)"

definition todo_adds :: "(item \<times> notify_rule list) option \<Rightarrow> (bytes \<times> item) list" where
  "todo_adds t = (case t of None \<Rightarrow> [] | Some (it, rs) \<Rightarrow> rule_adds it rs)"

definition todo_sends :: "notify_policy \<Rightarrow> (item \<times> notify_rule list) option \<Rightarrow> (bytes \<times> bytes \<times> bytes) list" where
  "todo_sends p t = (case t of None \<Rightarrow> [] | Some (it, rs) \<Rightarrow> rule_sends p it rs)"

definition queued_by :: "notify_policy \<Rightarrow> event list \<Rightarrow> (bytes \<times> item) list" where
  "queued_by p evs = concat (map (\<lambda>ev. todo_adds (todo_of p ev)) evs)"

definition sent_by :: "notify_policy \<Rightarrow> event list \<Rightarrow> (bytes \<times> bytes \<times> bytes) list" where
  "sent_by p evs = concat (map (\<lambda>ev. todo_sends p (todo_of p ev)) evs)"

lemma rule_lists_cons:
  "rule_adds it (r # rs) = rule_adds it [r] @ rule_adds it rs"
  "rule_sends p it (r # rs) = rule_sends p it [r] @ rule_sends p it rs"
  by (simp_all add: rule_adds_def rule_sends_def summaries_def immediate_def)

lemma todo_simps [simp]:
  "todo_adds None = []" "todo_adds (Some (it, rs)) = rule_adds it rs" "rule_adds it [] = []"
  "todo_sends p None = []" "todo_sends p (Some (it, rs)) = rule_sends p it rs" "rule_sends p it [] = []"
  by (simp_all add: todo_adds_def todo_sends_def rule_adds_def rule_sends_def summaries_def immediate_def)

lemma by_snoc [simp]:
  "queued_by p [] = []" "queued_by p (evs @ [ev]) = queued_by p evs @ todo_adds (todo_of p ev)"
  "sent_by p [] = []" "sent_by p (evs @ [ev]) = sent_by p evs @ todo_sends p (todo_of p ev)"
  by (simp_all add: queued_by_def sent_by_def)

lemma todo_rules: "todo_of p ev = Some (it, rs) \<Longrightarrow> set rs \<subseteq> set (np_Rules p)"
  using match_subset by (auto simp: todo_of_def)

lemma deliver_one_effect:
  assumes "well_formed p" "r \<in> set (np_Rules p)"
  shows "deliver_one err p it r s =
    s\<lparr>pr_flow := (pr_flow s)\<lparr>fl_digest := add_all (rule_adds it [r]) (fl_digest (pr_flow s))\<rparr>,
      pr_log := pr_log s @ rule_sends p it [r]\<rparr>"
proof -
  have "\<forall>r \<in> set [r]. snd (RecipientPubkey (sc_Policy \<lparr>sc_Policy = p, sc_Digest = fl_digest (pr_flow s)\<rparr>) (rl_Recipient r))"
    using well_formed_recipients [OF assms] by simp
  from deliver_all_splits [OF this, of "noting err" it "pr_log s"] show ?thesis
    by (simp add: deliver_one_def Let_def noted_sends rule_adds_def rule_sends_def del: deliver_all.simps)
qed

text \<open>Going through the rules one by one is \<open>HandleEvent\<close>.\<close>

lemma deliver_all_cons: "deliver_all send it (r # rs) s = deliver_all send it rs (deliver_all send it [r] s)"
  by (cases s) (simp split: prod.split)

subsection \<open>What holds throughout a run\<close>

definition run_inv :: "notify_policy \<Rightarrow> int \<Rightarrow> event list \<Rightarrow> 'd process \<Rightarrow> bool" where
  "run_inv p iv evs s \<longleftrightarrow>
     (\<exists>h. digest_run h (pr_flow s) \<and> h @ todo_adds (pr_todo s) = queued_by p evs) \<and>
     pr_log s @ todo_sends p (pr_todo s) = sent_by p evs \<and>
     (\<forall>it rs. pr_todo s = Some (it, rs) \<longrightarrow> set rs \<subseteq> set (np_Rules p)) \<and>
     dg_Interval (fl_digest (pr_flow s)) = iv \<and>
     (pr_phase s = Closing \<longrightarrow> pr_todo s = None) \<and>
     (fl_batch (pr_flow s) = None \<longleftrightarrow> pr_runner s = Waiting \<or> pr_runner s = Returned) \<and>
     (pr_runner s = LastFlush \<or> pr_runner s = Returned \<longrightarrow>
        pr_phase s \<noteq> Serving \<and> pr_todo s = None \<and> dg_pending (fl_digest (pr_flow s)) = [])"

lemma add_all_interval: "dg_Interval (add_all adds d) = dg_Interval d"
  by (induction adds arbitrary: d) (simp_all add: add_all_def Add_def)

lemma inv_receive:
  assumes "run_inv p iv evs s" "pr_phase s = Serving" "pr_todo s = None"
  shows "run_inv p iv (evs @ [ev]) (s\<lparr>pr_cursor := c, pr_disk := d, pr_todo := todo_of p ev\<rparr>)"
  using assms todo_rules [of p ev] unfolding run_inv_def by auto

lemma inv_deliver:
  assumes "well_formed p" "run_inv p iv evs s" "pr_todo s = Some (it, r # rs)" "pr_phase s \<noteq> Exited"
  shows "run_inv p iv evs (deliver_one err p it r (s\<lparr>pr_todo := Some (it, rs)\<rparr>))"
proof -
  obtain h where h: "digest_run h (pr_flow s)" "h @ rule_adds it (r # rs) = queued_by p evs"
    using assms(2,3) unfolding run_inv_def by auto
  have rs: "set (r # rs) \<subseteq> set (np_Rules p)" using assms(2,3) unfolding run_inv_def by blast
  have "pr_phase s = Serving" using assms(2-4) unfolding run_inv_def by (cases "pr_phase s") auto
  then show ?thesis
    using assms(2,3) digest_run_adds [OF h(1), of "rule_adds it [r]"] h(2) rs
    by (auto simp: run_inv_def deliver_one_effect [OF assms(1)] rule_lists_cons(1) [of it r rs]
        rule_lists_cons(2) [of p it r rs] add_all_interval intro!: exI [of _ "h @ rule_adds it [r]"])
qed

lemma inv_begin:
  assumes "run_inv p iv evs s" "pr_runner s = Waiting" "take_batch (fl_digest (pr_flow s)) = (q, d)" "mset b = mset q"
    and "m = Flushing \<or> m = LastFlush \<and> pr_phase s = Closing"
  shows "run_inv p iv evs (begin_flush b d m s)"
proof -
  have n: "fl_batch (pr_flow s) = None" using assms(1,2) unfolding run_inv_def by blast
  have d: "dg_pending d = []" "dg_Interval d = dg_Interval (fl_digest (pr_flow s))"
    using assms(3) by (auto simp: take_batch_def)
  obtain h where h: "digest_run h (pr_flow s)" "h @ todo_adds (pr_todo s) = queued_by p evs"
    using assms(1) unfolding run_inv_def by blast
  show ?thesis
    using assms(1,5) d h(2) digest_run.swap [OF h(1) n assms(3,4)]
    by (auto simp: run_inv_def begin_flush_def)
qed

lemma inv_send:
  assumes "run_inv p iv evs s" "fl_batch (pr_flow s) = Some ((n, its) # b)"
  shows "run_inv p iv evs (s\<lparr>pr_flow := (pr_flow s)
      \<lparr>fl_batch := Some b, fl_sent := fl_sent (pr_flow s) @ (if its = [] then [] else [(n, its)])\<rparr>\<rparr>)"
proof -
  obtain h where h: "digest_run h (pr_flow s)" "h @ todo_adds (pr_todo s) = queued_by p evs"
    using assms(1) unfolding run_inv_def by blast
  show ?thesis using assms h(2) digest_run.send [OF h(1) assms(2)]
    by (auto simp: run_inv_def simp del: append_Nil2)
qed

lemma inv_flushed:
  assumes "run_inv p iv evs s" "fl_batch (pr_flow s) = Some []"
  shows "run_inv p iv evs (s\<lparr>pr_flow := (pr_flow s)\<lparr>fl_batch := None\<rparr>,
      pr_runner := (if pr_runner s = LastFlush then Returned else Waiting)\<rparr>)"
proof -
  obtain h where h: "digest_run h (pr_flow s)" "h @ todo_adds (pr_todo s) = queued_by p evs"
    using assms(1) unfolding run_inv_def by blast
  show ?thesis using assms h(2) digest_run.finish [OF h(1) assms(2)] by (auto simp: run_inv_def)
qed

lemma step_inv:
  assumes "well_formed p" "proc_step F err p s l t" "run_inv p iv evs s"
  shows "run_inv p iv (evs @ l) t"
  using assms(2,3)
proof cases
  case (receive ev c d)
  then show ?thesis using inv_receive [OF assms(3)] by simp
next
  case (deliver it r rs)
  then show ?thesis using inv_deliver [OF assms(1,3)] by simp
next
  case (tick q d b)
  then show ?thesis using inv_begin [OF assms(3)] by simp
next
  case (stop q d b)
  then show ?thesis using inv_begin [OF assms(3)] by simp
next
  case (send n its b)
  then show ?thesis using inv_send [OF assms(3)] by simp
next
  case flushed
  then show ?thesis using inv_flushed [OF assms(3)] by simp
qed (auto simp: run_inv_def)

lemma run_keeps_inv:
  assumes "well_formed p" "proc_run F err p s evs t" "run_inv p iv [] s"
  shows "run_inv p iv evs t"
  using assms(2)
proof induction
  case (step evs t l u)
  then show ?case using step_inv [OF assms(1)] by blast
qed (rule assms(3))

lemma start_inv:
  assumes "notify_start env F now cfgPath d = (Inr n, d0)"
  obtains iv where "ParseDuration (ne_share env) (nc_DigestInterval (fst (LoadConfig (ne_share env) (fs_load F d) (ne_config env) cfgPath))) = Some iv"
    "dg_Interval (sc_Digest (nf_service n)) = iv"
    "run_inv (sc_Policy (nf_service n)) iv [] (process_of n d0)" "well_formed (sc_Policy (nf_service n))"
  using assms
proof (cases rule: notify_start_cases)
  case (1 cfg policy ch iv)
  have "sc_Digest (nf_service n) = NewDigest iv"
    by (simp add: 1(8) with_interval_def NewService_def NewDigest_def)
  then have "digest_run [] (pr_flow (process_of n d0))" "dg_Interval (sc_Digest (nf_service n)) = iv"
    by (simp_all add: process_of_def digest_run.new) (simp add: NewDigest_def)
  moreover from this have "run_inv (sc_Policy (nf_service n)) iv [] (process_of n d0)"
    by (auto simp: run_inv_def) (simp_all add: process_of_def)
  moreover have "well_formed (sc_Policy (nf_service n))"
    using loaded_keys(1) [OF 1(2)] by (simp add: 1(8) with_interval_def NewService_def)
  ultimately show ?thesis using that 1(1,7) by simp
qed

lemma inv_conserves:
  assumes "run_inv p iv evs s"
  shows "held m (fl_sent (pr_flow s)) @ held m (in_flight (pr_flow s)) @ held m (dg_pending (fl_digest (pr_flow s)))
      @ added m (todo_adds (pr_todo s)) = added m (queued_by p evs)"
proof -
  obtain h where "digest_run h (pr_flow s)" "h @ todo_adds (pr_todo s) = queued_by p evs"
    using assms unfolding run_inv_def by blast
  moreover have "added m (x @ y) = added m x @ added m y" for x y by (simp add: added_def)
  ultimately show ?thesis using digest_conserves [of h "pr_flow s" m] by (metis append_assoc)
qed

subsection \<open>\<open>HandleEvent\<close> and the loop as runs\<close>

lemma deliver_steps:
  "proc_run F err p s0 evs s \<Longrightarrow> pr_phase s \<noteq> Exited \<Longrightarrow> pr_todo s = Some (it, rs) \<Longrightarrow>
   proc_run F err p s0 evs
     (s\<lparr>pr_todo := None,
        pr_flow := (pr_flow s)\<lparr>fl_digest := sc_Digest (fst (deliver_all (noting err) it rs (\<lparr>sc_Policy = p, sc_Digest = fl_digest (pr_flow s)\<rparr>, pr_log s)))\<rparr>,
        pr_log := snd (deliver_all (noting err) it rs (\<lparr>sc_Policy = p, sc_Digest = fl_digest (pr_flow s)\<rparr>, pr_log s))\<rparr>)"
proof (induction rs arbitrary: s)
  case Nil
  from silent_step [OF Nil(1) proc_step.handled [OF Nil(2,3)]] show ?case by simp
next
  case (Cons r rs)
  obtain svc log where d: "deliver_all (noting err) it [r] (\<lparr>sc_Policy = p, sc_Digest = fl_digest (pr_flow s)\<rparr>, pr_log s) = (svc, log)"
    by (rule prod.exhaust)
  have "sc_Policy (fst (deliver_all (noting err) it rs x)) = sc_Policy (fst x)" for rs x
    by (induction "noting err" it rs x rule: deliver_all.induct) (auto split: prod.splits)
  from this [of "[r]" "(\<lparr>sc_Policy = p, sc_Digest = fl_digest (pr_flow s)\<rparr>, pr_log s)"]
  have pol: "svc = \<lparr>sc_Policy = p, sc_Digest = sc_Digest svc\<rparr>" unfolding d by (cases svc) simp
  let ?t = "deliver_one err p it r (s\<lparr>pr_todo := Some (it, rs)\<rparr>)"
  have t: "?t = s\<lparr>pr_todo := Some (it, rs), pr_flow := (pr_flow s)\<lparr>fl_digest := sc_Digest svc\<rparr>, pr_log := log\<rparr>"
    using d by (simp add: deliver_one_def Let_def del: deliver_all.simps)
  have run: "proc_run F err p s0 evs ?t" by (rule silent_step [OF Cons.prems(1) proc_step.deliver [OF Cons.prems(2,3)]])
  from Cons.IH [OF run] show ?case
    using Cons.prems(2) pol unfolding deliver_all_cons [of _ it r rs] d by (simp add: t del: deliver_all.simps)
qed

text \<open>One turn of the main loop without a flush in between.\<close>

lemma on_event_steps:
  assumes "proc_run F err p s0 evs s" "pr_phase s = Serving" "pr_todo s = None" "p = sc_Policy (nf_service n)"
    and "nf_cursor n = pr_cursor s" "sc_Digest (nf_service n) = fl_digest (pr_flow s)"
    and "on_event F (noting err) ev (n, pr_disk s, pr_log s) = (n', d', w')"
  shows "proc_run F err p s0 (evs @ [ev])
     (s\<lparr>pr_cursor := nf_cursor n', pr_disk := d', pr_flow := (pr_flow s)\<lparr>fl_digest := sc_Digest (nf_service n')\<rparr>, pr_log := w'\<rparr>)"
proof -
  obtain c d where a: "advance F ev (pr_cursor s, pr_disk s) = (c, d)" by (rule prod.exhaust)
  let ?s = "s\<lparr>pr_cursor := c, pr_disk := d, pr_todo := todo_of p ev\<rparr>"
  have run: "proc_run F err p s0 (evs @ [ev]) ?s"
    by (rule proc_run.step [OF assms(1) proc_step.receive [OF assms(2,3) a]])
  have svc: "nf_service n = \<lparr>sc_Policy = p, sc_Digest = fl_digest (pr_flow s)\<rparr>"
    using assms(4,6) by (cases "nf_service n") simp
  have n': "nf_cursor n' = c" "d' = d" "nf_service n' = fst (HandleEvent (noting err) ev (nf_service n, pr_log s))"
    "w' = snd (HandleEvent (noting err) ev (nf_service n, pr_log s))"
    using assms(5) assms(7) [unfolded on_event_parts] a by simp_all
  show ?thesis
  proof (cases "Classify ev")
    case None
    then have "todo_of p ev = None" "HandleEvent (noting err) ev (nf_service n, pr_log s) = (nf_service n, pr_log s)"
      by (simp_all add: todo_of_def HandleEvent_def)
    then show ?thesis using run n' assms(3) svc by (cases s) simp
  next
    case (Some it)
    let ?rs = "Match p (it_Class it) (it_Severity it)"
    have t: "todo_of p ev = Some (it, ?rs)" and h: "HandleEvent (noting err) ev (nf_service n, pr_log s) =
        deliver_all (noting err) it ?rs (\<lparr>sc_Policy = p, sc_Digest = fl_digest (pr_flow s)\<rparr>, pr_log s)"
      using Some by (simp_all add: todo_of_def HandleEvent_def svc)
    show ?thesis using deliver_steps [OF run, of it ?rs] assms(2,3) n' h by (cases s) (simp add: t)
  qed
qed

lemma loop_steps:
  "proc_run F err (sc_Policy (nf_service n)) s0 evs s \<Longrightarrow> pr_phase s = Serving \<Longrightarrow> pr_todo s = None \<Longrightarrow>
   nf_cursor n = pr_cursor s \<Longrightarrow> sc_Digest (nf_service n) = fl_digest (pr_flow s) \<Longrightarrow>
   main_loop F (noting err) vs (n, pr_disk s, pr_log s) = (n', d', w') \<Longrightarrow>
   proc_run F err (sc_Policy (nf_service n)) s0 (evs @ vs)
     (s\<lparr>pr_cursor := nf_cursor n', pr_disk := d', pr_flow := (pr_flow s)\<lparr>fl_digest := sc_Digest (nf_service n')\<rparr>, pr_log := w'\<rparr>)"
proof (induction vs arbitrary: evs s n)
  case Nil
  then show ?case by (cases s) simp
next
  case (Cons ev vs)
  obtain n1 d1 w1 where e: "on_event F (noting err) ev (n, pr_disk s, pr_log s) = (n1, d1, w1)" by (rule prod_cases3)
  let ?s = "s\<lparr>pr_cursor := nf_cursor n1, pr_disk := d1, pr_flow := (pr_flow s)\<lparr>fl_digest := sc_Digest (nf_service n1)\<rparr>, pr_log := w1\<rparr>"
  have pol: "sc_Policy (nf_service n1) = sc_Policy (nf_service n)"
    using e [unfolded on_event_parts] by (simp add: handle_event_policy)
  have "proc_run F err (sc_Policy (nf_service n)) s0 (evs @ [ev]) ?s"
    by (rule on_event_steps [OF Cons.prems(1-3) refl Cons.prems(4,5) e])
  then have run: "proc_run F err (sc_Policy (nf_service n1)) s0 (evs @ [ev]) ?s" unfolding pol .
  have "main_loop F (noting err) vs (n1, pr_disk ?s, pr_log ?s) = (n', d', w')"
    using Cons.prems(6) by (simp only: main_loop.simps e) simp
  from Cons.IH [OF run _ _ _ _ this] show ?case using Cons.prems(2,3) unfolding pol by simp
qed

lemma step_cursor: "proc_step F err p s l t \<Longrightarrow> (pr_cursor t, pr_disk t) = fold (advance F) l (pr_cursor s, pr_disk s)"
  by (induction rule: proc_step.induct) (simp_all add: deliver_one_def begin_flush_def split: prod.split)

lemma run_cursor: "proc_run F err p s evs t \<Longrightarrow> (pr_cursor t, pr_disk t) = fold (advance F) evs (pr_cursor s, pr_disk s)"
  by (induction rule: proc_run.induct) (simp_all add: step_cursor)

lemma advance_all_props:
  "cu_LastSeen (fst (fold (advance F) evs (c, d))) = fold (\<lambda>ev. max (ev_created_at ev)) evs (cu_LastSeen c)"
  "cu_path (fst (fold (advance F) evs (c, d))) = cu_path c"
proof (induction evs arbitrary: c d)
  case (Cons ev evs)
  { case 1 show ?case using Cons(1) [of "fst (advance F ev (c, d))" "snd (advance F ev (c, d))"] by (simp add: advance_props) }
  { case 2 show ?case using Cons(2) [of "fst (advance F ev (c, d))" "snd (advance F ev (c, d))"] by (simp add: advance_props) }
qed simp_all

lemma advance_all_synced:
  assumes "file_store F" "writes_succeed F"
  shows "\<forall>ev \<in> set evs. int64_ok (ev_created_at ev) \<Longrightarrow> synced F d0 (fst s) (snd s) \<Longrightarrow>
    synced F d0 (fst (fold (advance F) evs s)) (snd (fold (advance F) evs s))"
proof (induction evs arbitrary: s)
  case (Cons ev evs)
  then show ?case using advance_synced [OF assms, of ev d0 "fst s" "snd s"] by simp
qed simp

lemma run_synced:
  assumes "file_store F" "writes_succeed F" "synced F d0 (nf_cursor n) d"
    and "\<forall>ev \<in> set evs. int64_ok (ev_created_at ev)" "proc_run F err p (process_of n d) evs t"
  shows "synced F d0 (pr_cursor t) (pr_disk t)"
    and "cu_LastSeen (pr_cursor t) = fold (\<lambda>ev. max (ev_created_at ev)) evs (cu_LastSeen (nf_cursor n))"
    and "cu_path (pr_cursor t) = cu_path (nf_cursor n)"
proof -
  have "fold (advance F) evs (nf_cursor n, d) = (pr_cursor t, pr_disk t)"
    using run_cursor [OF assms(5)] by (simp add: process_of_def)
  then show "synced F d0 (pr_cursor t) (pr_disk t)"
    "cu_LastSeen (pr_cursor t) = fold (\<lambda>ev. max (ev_created_at ev)) evs (cu_LastSeen (nf_cursor n))"
    "cu_path (pr_cursor t) = cu_path (nf_cursor n)"
    using advance_all_synced [OF assms(1,2,4), of d0 "(nf_cursor n, d)"] assms(3) advance_all_props [of F evs "nf_cursor n" d]
    by simp_all
qed

subsection \<open>A stop that waits\<close>

lemma flush_out:
  "proc_run F err p s0 evs s \<Longrightarrow> pr_phase s \<noteq> Exited \<Longrightarrow> fl_batch (pr_flow s) = Some b \<Longrightarrow>
   \<exists>t. proc_run F err p s0 evs t \<and> pr_phase t = pr_phase s \<and> pr_todo t = pr_todo s \<and>
     pr_runner t = (if pr_runner s = LastFlush then Returned else Waiting)"
proof (induction b arbitrary: s)
  case Nil
  let ?t = "s\<lparr>pr_flow := (pr_flow s)\<lparr>fl_batch := None\<rparr>, pr_runner := (if pr_runner s = LastFlush then Returned else Waiting)\<rparr>"
  show ?case using silent_step [OF Nil(1) proc_step.flushed [OF Nil(2,3)]] by (intro exI [of _ ?t]) simp
next
  case (Cons m b)
  obtain n its where m: "m = (n, its)" by (rule prod.exhaust)
  from Cons.IH [OF silent_step [OF Cons.prems(1) proc_step.send [OF Cons.prems(2) Cons.prems(3) [unfolded m]]]]
  show ?case using Cons.prems(2) by simp
qed

lemma todo_out:
  assumes "proc_run F err p s0 evs s" "pr_phase s \<noteq> Exited"
  shows "\<exists>t. proc_run F err p s0 evs t \<and> pr_phase t = pr_phase s \<and> pr_todo t = None \<and> pr_runner t = pr_runner s"
proof (cases "pr_todo s")
  case None
  then show ?thesis using assms(1) by blast
next
  case (Some x)
  obtain it rs where x: "x = (it, rs)" by (rule prod.exhaust)
  obtain d log where "proc_run F err p s0 evs (s\<lparr>pr_todo := None, pr_flow := (pr_flow s)\<lparr>fl_digest := d\<rparr>, pr_log := log\<rparr>)"
    using deliver_steps [OF assms Some [unfolded x]] by blast
  then show ?thesis by (intro exI conjI) (assumption, simp_all)
qed

lemma drained:
  assumes "well_formed p" "0 < iv" "run_inv p iv [] s0" "proc_run F err p s0 evs s" "pr_phase s \<noteq> Exited"
  shows "\<exists>t. proc_run F err p s0 evs t \<and> pr_runner t = Returned"
proof -
  have idle: "\<exists>t. proc_run F err p s0 evs t \<and> pr_phase t = pr_phase s \<and> pr_todo t = pr_todo s \<and>
      (pr_runner t = (if pr_runner s = LastFlush then Returned else Waiting) \<or> pr_runner t = pr_runner s \<and> fl_batch (pr_flow s) = None)"
    if "proc_run F err p s0 evs s" "pr_phase s \<noteq> Exited" for s
    using flush_out [OF that] that(1) by (cases "fl_batch (pr_flow s)") blast+
  have inv: "run_inv p iv evs t" if "proc_run F err p s0 evs t" for t
    using run_keeps_inv [OF assms(1) that assms(3)] .
  obtain s1 where s1: "proc_run F err p s0 evs s1" "pr_phase s1 = pr_phase s" "pr_todo s1 = None"
    using todo_out [OF assms(4,5)] by blast
  obtain s2 where s2: "proc_run F err p s0 evs s2" "pr_phase s2 = pr_phase s" "pr_todo s2 = None"
    "pr_runner s2 = Waiting \<or> pr_runner s2 = Returned"
    using idle [OF s1(1)] s1 assms(5) inv [OF s1(1)] unfolding run_inv_def by (metis (full_types))
  show ?thesis
  proof (cases "pr_runner s2 = Returned")
    case True
    then show ?thesis using s2(1) by blast
  next
    case False
    then have w: "pr_runner s2 = Waiting" using s2(4) by blast
    obtain s3 where s3: "proc_run F err p s0 evs s3" "pr_phase s3 = Closing" "pr_runner s3 = Waiting"
    proof (cases "pr_phase s")
      case Serving
      then have "pr_phase s2 = Serving" using s2(2) by simp
      from that [OF silent_step [OF s2(1) proc_step.close [OF this s2(3)]]] show ?thesis using w by simp
    qed (use assms(5) s2 w that in auto)
    obtain q d where q: "take_batch (fl_digest (pr_flow s3)) = (q, d)" by (rule prod.exhaust)
    have iv: "0 < dg_Interval (fl_digest (pr_flow s3))" using inv [OF s3(1)] assms(2) unfolding run_inv_def by simp
    let ?s = "begin_flush q d LastFlush s3"
    have "proc_run F err p s0 evs ?s" by (rule silent_step [OF s3(1) proc_step.stop [OF s3(2,3) iv q refl]])
    moreover have "pr_phase ?s \<noteq> Exited" "fl_batch (pr_flow ?s) = Some q" "pr_runner ?s = LastFlush"
      using s3(2) by (simp_all add: begin_flush_def)
    ultimately show ?thesis using flush_out [of F err p s0 evs ?s q] by auto
  qed
qed

section \<open>Properties\<close>

text \<open>C5: Through any interleaving of the subscription with the digest goroutine, and whatever the sender
  answers, at every moment: what was handed to the sender for a recipient, what a running flush
  still holds, what is queued and what the event being handled will still queue are together exactly the
  summary items of the received events, in order, none lost, doubled or swapped; the immediate
  messages sent and still to be sent are exactly those of the events, in order; and once the last flush
  has returned, every summary item of the received events has been handed over.\<close>

theorem service_conserves_items:
  assumes "notify_start env F now cfgPath d = (Inr n, d0)"
    and "proc_run F err (sc_Policy (nf_service n)) (process_of n d0) evs s"
  shows "held m (fl_sent (pr_flow s)) @ held m (in_flight (pr_flow s)) @ held m (dg_pending (fl_digest (pr_flow s)))
        @ added m (todo_adds (pr_todo s)) = added m (queued_by (sc_Policy (nf_service n)) evs) \<and>
    pr_log s @ todo_sends (sc_Policy (nf_service n)) (pr_todo s) = sent_by (sc_Policy (nf_service n)) evs \<and>
    (pr_runner s = Returned \<longrightarrow> held m (fl_sent (pr_flow s)) = added m (queued_by (sc_Policy (nf_service n)) evs))"
  using assms(1)
proof (rule start_inv)
  fix iv
  assume "run_inv (sc_Policy (nf_service n)) iv [] (process_of n d0)" "well_formed (sc_Policy (nf_service n))"
  then have i: "run_inv (sc_Policy (nf_service n)) iv evs s" using run_keeps_inv [OF _ assms(2)] by blast
  then show ?thesis using inv_conserves [OF i, of m] unfolding run_inv_def by (auto simp: in_flight_def added_def)
qed

text \<open>C18: From every moment of a service with a positive interval that has not ended, some continuation
  that receives nothing more lets the digest goroutine return with every summary item handed to the
  sender: neither a flush under way nor an event being handled can block it.\<close>

theorem service_can_drain:
  assumes "notify_start env F now cfgPath d = (Inr n, d0)" and "0 < dg_Interval (sc_Digest (nf_service n))"
    and "proc_run F err (sc_Policy (nf_service n)) (process_of n d0) evs s" and "pr_phase s \<noteq> Exited"
  shows "\<exists>t. proc_run F err (sc_Policy (nf_service n)) (process_of n d0) evs t \<and> pr_runner t = Returned \<and>
    (\<forall>m. held m (fl_sent (pr_flow t)) = added m (queued_by (sc_Policy (nf_service n)) evs))"
  using assms(1)
proof (rule start_inv)
  fix iv
  let ?p = "sc_Policy (nf_service n)"
  assume iv: "dg_Interval (sc_Digest (nf_service n)) = iv" and i: "run_inv ?p iv [] (process_of n d0)"
    and w: "well_formed ?p"
  obtain t where t: "proc_run F err ?p (process_of n d0) evs t" "pr_runner t = Returned"
    using drained [OF w _ i assms(3,4)] assms(2) iv by blast
  note j = run_keeps_inv [OF w t(1) i]
  have "held m (fl_sent (pr_flow t)) = added m (queued_by ?p evs)" for m
    using inv_conserves [OF j, of m] j t(2) unfolding run_inv_def by (auto simp: in_flight_def added_def)
  then show ?thesis using t by blast
qed

text \<open>C19: But the stop does not wait for the last flush: at any moment between two events the service may
  be stopped so that it ends with its queue and its running flush as they are, nothing follows, and the
  next start does not ask for any received event that is older than another one received. The
  summary items of such events are never sent.\<close>

theorem stop_drops_queue:
  assumes "file_store F" and "writes_succeed F" and "int64_ok now"
    and "notify_start env F now cfgPath d = (Inr n, d0)" and "cu_path (nf_cursor n) \<noteq> cfgPath"
    and "\<forall>ev \<in> set evs. int64_ok (ev_created_at ev)"
    and "proc_run F err (sc_Policy (nf_service n)) (process_of n d0) evs s"
    and "pr_phase s = Serving" and "pr_todo s = None"
  shows "\<exists>t. proc_run F err (sc_Policy (nf_service n)) (process_of n d0) evs t \<and> pr_phase t = Exited \<and>
    pr_flow t = pr_flow s \<and> (\<forall>l u. \<not> proc_step F err (sc_Policy (nf_service n)) t l u) \<and>
    (\<forall>now2 n2 d2 e ev. notify_start env F now2 cfgPath (pr_disk t) = (Inr n2, d2) \<and> e \<in> set evs \<and>
       ev_created_at ev < ev_created_at e \<longrightarrow> \<not> matches (subscription n2) ev)"
proof -
  let ?p = "sc_Policy (nf_service n)" and ?t = "s\<lparr>pr_phase := Exited\<rparr>"
  have "proc_run F err ?p (process_of n d0) evs (s\<lparr>pr_phase := Closing\<rparr>)"
    by (rule silent_step [OF assms(7) proc_step.close [OF assms(8,9)]])
  from silent_step [OF this proc_step.leave] have run: "proc_run F err ?p (process_of n d0) evs ?t" by simp
  note y = run_synced [OF assms(1,2) start_synced [OF assms(1-4)] assms(6) run]
  have "\<not> matches (subscription n2) ev"
    if "notify_start env F now2 cfgPath (pr_disk ?t) = (Inr n2, d2)" "e \<in> set evs" "ev_created_at ev < ev_created_at e"
    for now2 n2 d2 e ev
  proof -
    have "synced F d (nf_cursor (n\<lparr>nf_cursor := pr_cursor ?t\<rparr>)) (pr_disk ?t)"
      "cu_path (nf_cursor (n\<lparr>nf_cursor := pr_cursor ?t\<rparr>)) \<noteq> cfgPath"
      "cu_path (nf_cursor n) = cu_path (nf_cursor (n\<lparr>nf_cursor := pr_cursor ?t\<rparr>))"
      using y(1,3) assms(5) by simp_all
    from restart_cursor [OF this(1,2) assms(4) this(3) that(1)]
    have "cu_LastSeen (nf_cursor n2) = fold (\<lambda>ev. max (ev_created_at ev)) evs (cu_LastSeen (nf_cursor n))"
      using y(2) by simp
    moreover have "ev_created_at e \<le> fold (\<lambda>ev. max (ev_created_at ev)) evs (cu_LastSeen (nf_cursor n))"
      using fold_max_le [of evs "cu_LastSeen (nf_cursor n)"] that(2) by blast
    ultimately show ?thesis using that(3) by (simp add: matches_def subscription_def)
  qed
  then show ?thesis using run no_step_exited [of ?t] by (intro exI [of _ ?t] conjI) (simp, simp, simp, simp, blast)
qed

subsection \<open>Witnesses\<close>

definition hour_start :: "(start_error + notifier) \<times> (bytes \<rightharpoonup> bytes)" where
  "hour_start = notify_start (sample_env ''1h'') (map_files []) 1000 ''notify.toml'' sample_disk"

abbreviation "hour_notifier \<equiv> projr (fst hour_start)"
abbreviation "two_backups \<equiv> [at_time 2000, at_time 1500]"
abbreviation "hour_run \<equiv> proc_run (map_files []) (\<lambda>_ _ _. None) (sc_Policy (nf_service hour_notifier))
  (process_of hour_notifier (snd hour_start)) two_backups"

lemma hour_up:
  "notify_start (sample_env ''1h'') (map_files []) 1000 ''notify.toml'' sample_disk = (Inr hour_notifier, snd hour_start)"
proof -
  have "\<not> isl (fst hour_start)" by code_simp
  then show ?thesis unfolding hour_start_def [symmetric] by (simp add: prod_eq_iff)
qed

lemma hour_values:
  "0 < dg_Interval (sc_Digest (nf_service hour_notifier))" "cu_path (nf_cursor hour_notifier) \<noteq> ''notify.toml''"
  "added ''npub1ops'' (queued_by (sc_Policy (nf_service hour_notifier)) two_backups) \<noteq> []"
  by code_simp+

lemma hour_reached:
  "\<exists>s. hour_run s \<and> pr_phase s = Serving \<and> pr_todo s = None \<and> fl_sent (pr_flow s) = [] \<and> in_flight (pr_flow s) = []"
proof -
  let ?s = "process_of hour_notifier (snd hour_start)"
  obtain n' d' w' where l: "main_loop (map_files []) (noting (\<lambda>_ _ _. None)) two_backups (hour_notifier, pr_disk ?s, pr_log ?s) = (n', d', w')"
    by (rule prod_cases3)
  have "pr_phase ?s = Serving" "pr_todo ?s = None" "nf_cursor hour_notifier = pr_cursor ?s"
    "sc_Digest (nf_service hour_notifier) = fl_digest (pr_flow ?s)" "fl_sent (pr_flow ?s) = []" "in_flight (pr_flow ?s) = []"
    by (simp_all add: process_of_def in_flight_def)
  with loop_steps [OF proc_run.start this(1-4) l] show ?thesis by (intro exI conjI) (simp, simp_all)
qed

lemma service_conserves_items_witness:
  "\<exists>s. hour_run s \<and> held ''npub1ops'' (dg_pending (fl_digest (pr_flow s))) \<noteq> []"
proof -
  obtain s where s: "hour_run s" "pr_todo s = None" "fl_sent (pr_flow s) = []" "in_flight (pr_flow s) = []"
    using hour_reached by blast
  from service_conserves_items [OF hour_up s(1), of "''npub1ops''"] s hour_values(3)
  have "held ''npub1ops'' (dg_pending (fl_digest (pr_flow s))) \<noteq> []" by simp
  then show ?thesis using s(1) by blast
qed

lemma service_can_drain_witness: "\<exists>t. hour_run t \<and> held ''npub1ops'' (fl_sent (pr_flow t)) \<noteq> []"
proof -
  obtain s where s: "hour_run s" "pr_phase s \<noteq> Exited" using hour_reached by fastforce
  from service_can_drain [OF hour_up hour_values(1) s] hour_values(3) show ?thesis by metis
qed

lemma stop_drops_queue_witness: "\<exists>t. hour_run t \<and> pr_phase t = Exited \<and> fl_sent (pr_flow t) = []"
proof -
  obtain s where s: "hour_run s" "pr_phase s = Serving" "pr_todo s = None" "fl_sent (pr_flow s) = []"
    using hour_reached by blast
  have "int64_ok 1000" "\<forall>ev \<in> set two_backups. int64_ok (ev_created_at ev)" by (simp_all add: at_time_def int64_ok_def)
  from stop_drops_queue [OF map_file_store writes_ok this(1) hour_up hour_values(2) this(2) s(1-3)] s(4)
  show ?thesis by metis
qed

end
