(* ===== verification/Spec2Isabelle.thy ===== *)
theory Spec2Isabelle
  imports Corpus Pruning RelayRead NotifierRun
begin

text \<open>
  Verification of \<open>nostrhost-control\<close>, a loopback-only Nostr relay that carries the control plane of a
  host, and of its notification service.

  The program. A client's event reaches the relay (\<open>src/internal/relay/server.go\<close>, on the khatru
  framework), whose write hooks consult the policy store (\<open>src/internal/policy/store.go\<close>, on bbolt) and the
  event model (\<open>src/internal/eventmodel/eventmodel.go\<close>); a consumer in another language is held to the
  same verdicts by \<open>src/internal/eventprotocol/eventprotocol.go\<close>. Administrators change the store by
  NIP-86 calls. The notifier (\<open>src/internal/notify\<close>, \<open>src/cmd/nostrhost-notify/main.go\<close>) subscribes to the
  relay, reduces events to items, matches them against its policy and sends direct messages at once or
  in digests. Both processes read TOML configurations.

  The theories, in the order of the code:

  \<^item> \<open>Prelude\<close>, \<open>GoStd\<close>, \<open>GoJson\<close>, \<open>JsonPrint\<close>, \<open>GoNet\<close>: what the program uses of Go and its standard
    library. Strings are lists of bytes. \<open>GoJson\<close> is the scanner of \<open>encoding/json\<close> as a state machine with
    its depth limit, and decoding into structs, pointers and raw maps; \<open>JsonPrint\<close> shows that it reads
    back what is printed. \<open>GoStd\<close> has \<open>strings\<close> and \<open>strconv\<close>, \<open>GoNet\<close> \<open>net.ParseIP\<close> and
    \<open>time.ParseDuration\<close> with its 64-bit bounds.
  \<^item> \<open>Nostr\<close>, \<open>EventModel\<close>, \<open>EventModelProps\<close>: events, the kinds, retention classes and every validator;
    which capabilities, identities, trust policies, delegations and notices are accepted.
  \<^item> \<open>EventProtocol\<close>, \<open>Corpus\<close>: the translation of reasons into codes; the consumer agrees with the model
    and its code names the first rule that is broken. Finding, loading and decoding the conformance
    corpus is the inverse of writing it.
  \<^item> \<open>Bolt\<close>, \<open>PolicyStore\<close>, \<open>PolicySpec\<close>, \<open>PolicyRefine\<close>, \<open>PolicyProps\<close>: the database as the locale
    \<open>bolt_db\<close>, every method of \<open>Store\<close>, the abstract policy and its operations, and the refinement between
    them: the locale \<open>store_impl\<close> extends \<open>bolt_db\<close> and is a sublocale of the contract
    \<open>policy_contract\<close>, in which the runs of any operations are studied once.
  \<^item> \<open>RelayConfig\<close>, \<open>EventStore\<close>, \<open>Relay\<close>, \<open>RelayProps\<close>: the configuration, the interface of the event
    store, assembling the relay, and its gates. \<open>Management\<close>: the NIP-86 calls and runs of calls by
    any callers. \<open>Lifecycle\<close>: starting, stopping, pruning, and \<open>main\<close> of the relay
    (\<open>src/cmd/nostrhost-control/main.go\<close>). \<open>Pruning\<close>: when the rounds of the pruner catch up and when the
    query limit keeps them from it. \<open>Restart\<close>: what a start keeps of the administrators' decisions, and
    whose signatures carry authority on a managed relay. \<open>RelayRun\<close>: the storage hooks and the runs of
    the whole relay, clients, administrators and pruner in any order: what gets into the event store,
    what leaves it, and which kinds stay out; \<open>RelayRead\<close>: what clients read of it. \<open>CmdUtil\<close>: the helpers of \<open>src/internal/cmdutil\<close>.
  \<^item> \<open>NotifyPolicy\<close>, \<open>Classify\<close>, \<open>Digest\<close>, \<open>NotifyConfig\<close>, \<open>NotifyService\<close>, \<open>Notifier\<close>: the files of
    \<open>src/internal/notify\<close> and the notifier's \<open>main.go\<close>: loading and matching, classification, the queue and
    its interleaving with flushes, delivery, the cursor and the loop. \<open>NotifierRun\<close>: the notifier as a
    process, subscription and digest goroutine in any interleaving, up to its end; \<open>HandleEvent\<close>, the
    loop and a flush are sequences of its steps.
  \<^item> This theory: what relay and notifier do together.

  State and effects. A store, a server, a digest, a service and a notifier are records with the fields of
  the structs. An operation returns the new state and the error of the code as an option or a sum. The
  database, the event store, the disk and the sender are parameters over a type of states of their own, as
  are go-nostr, khatru's policies, go-toml, \<open>nip17\<close> and \<open>nip19\<close>, with the laws that are relied on as locales
  (\<open>tag_finder\<close>, \<open>bolt_db\<close>, \<open>event_store\<close>, \<open>file_store\<close>, and \<open>relay_framework\<close> for what khatru asks of
  the storage hooks), each interpreted on a concrete instance; the
  predicate \<open>newest_first\<close> adds the query limit of the event store, and the orders in which Go ranges over
  maps are permutations. Time is an argument. Runs are inductive: calls of the
  management interface in \<open>Management\<close>, the whole relay in \<open>RelayRun\<close>, additions and flushes in
  \<open>Digest\<close>, the whole notifier in \<open>NotifierRun\<close>; the three transactions of \<open>KindAllowed\<close> with changes in between are \<open>KindAllowed_torn\<close>.

  Integers are mathematical integers with the 64-bit range written out (\<open>int64_ok\<close>, \<open>wrap64\<close>) where parsing
  or negation can leave it. No definition uses fuel: every recursion is structural or has a measure.

  Not modelled: the text of \<open>log\<close> output other than the line a process dies with, and of the errors that
  only wrap others; flags; khatru's verification
  of signatures (NIP-98, NIP-42), its sessions and live subscriptions; the scheduling of goroutines
  beyond the interleavings above; permission bits of files.
\<close>

section \<open>Relay and notification service together\<close>

lemma enqueue_holds:
  "set (held m q) \<subseteq> set (held m (enqueue n it q))" "it \<in> set (held n (enqueue n it q))"
  by (induction n it q rule: enqueue.induct) auto

lemma add_all_grows: "set (held m (dg_pending d)) \<subseteq> set (held m (dg_pending (add_all adds d)))"
proof (induction adds arbitrary: d)
  case (Cons p adds)
  have "set (held m (dg_pending d)) \<subseteq> set (held m (dg_pending (Add (fst p) (snd p) d)))"
    using enqueue_holds(1) by (simp add: Add_def)
  then show ?case using Cons.IH [of "Add (fst p) (snd p) d"] by (simp add: add_all_def)
qed (simp add: add_all_def)

lemma add_all_holds: "(n, it) \<in> set adds \<Longrightarrow> it \<in> set (held n (dg_pending (add_all adds d)))"
proof (induction adds arbitrary: d)
  case (Cons p adds)
  have u: "add_all (p # adds) d = add_all adds (Add (fst p) (snd p) d)" by (simp add: add_all_def)
  show ?case
  proof (cases "(n, it) \<in> set adds")
    case True
    then show ?thesis using Cons.IH u by simp
  next
    case False
    then have "it \<in> set (held n (dg_pending (Add (fst p) (snd p) d)))"
      using Cons.prems enqueue_holds(2) by (auto simp: Add_def)
    then show ?thesis unfolding u by (rule subsetD [OF add_all_grows])
  qed
qed simp

text \<open>What a rule asks for has happened: its message was sent, or its item is in the queue.\<close>

definition served :: "notify_policy \<Rightarrow> item \<Rightarrow> notify_rule \<Rightarrow> service \<times> (bytes \<times> bytes \<times> bytes) list \<Rightarrow> bool" where
  "served p it r s \<longleftrightarrow>
     (if rl_DeliveryMode r = DeliveryImmediate
      then (fst (RecipientPubkey p (rl_Recipient r)), FormatImmediate it, rl_Scope r) \<in> set (snd s)
      else it \<in> set (held (rl_Recipient r) (dg_pending (sc_Digest (fst s)))))"

lemma handle_keeps_served:
  assumes "well_formed (sc_Policy (fst s))" "served p it r s"
  shows "served p it r (HandleEvent (noting err) ev s)"
  using assms handle_event_cases [of "fst s" "noting err" ev "snd s"] add_all_grows [of _ "sc_Digest (fst s)"]
  by (cases s) (auto simp: served_def Let_def noted_sends split: option.splits if_splits)

lemma handle_serves:
  assumes "well_formed (sc_Policy (fst s))" "Classify ev = Some it"
    and "r \<in> set (Match (sc_Policy (fst s)) (it_Class it) (it_Severity it))"
  shows "served (sc_Policy (fst s)) it r (HandleEvent (noting err) ev s)"
proof -
  obtain svc w where s: "s = (svc, w)" by (rule prod.exhaust)
  let ?rs = "Match (sc_Policy svc) (it_Class it) (it_Severity it)"
  have mode: "rl_DeliveryMode r \<in> {DeliveryImmediate, DeliverySummary}"
    using assms(1,3) match_subset unfolding well_formed_def s by fastforce
  have h: "HandleEvent (noting err) ev (svc, w) =
      (svc\<lparr>sc_Digest := add_all (map (\<lambda>r. (rl_Recipient r, it)) (summaries ?rs)) (sc_Digest svc)\<rparr>,
       sends_of (noting err) (sc_Policy svc) it (immediate ?rs) w)"
    using handle_event_cases [of svc "noting err" ev w] assms(1,2) by (simp add: s Let_def)
  show ?thesis
  proof (cases "rl_DeliveryMode r = DeliveryImmediate")
    case True
    then have "r \<in> set (immediate ?rs)" using assms(3) by (simp add: immediate_def s)
    then show ?thesis using True by (simp add: served_def s h noted_sends)
  next
    case False
    then have "(rl_Recipient r, it) \<in> set (map (\<lambda>r. (rl_Recipient r, it)) (summaries ?rs))"
      using assms(3) mode by (auto simp: summaries_def s)
    from add_all_holds [OF this, of "sc_Digest svc"] show ?thesis
      using False by (simp add: served_def s h)
  qed
qed

lemma loop_serves:
  assumes "well_formed (sc_Policy (fst s))" "ev \<in> set evs" "Classify ev = Some it"
    and "r \<in> set (Match (sc_Policy (fst s)) (it_Class it) (it_Severity it))"
  shows "served (sc_Policy (fst s)) it r (fold (HandleEvent (noting err)) evs s)"
proof -
  have keep: "served p it r s \<Longrightarrow> well_formed (sc_Policy (fst s)) \<Longrightarrow>
      served p it r (fold (HandleEvent (noting err)) evs s)" for p s evs
    by (induction evs arbitrary: s) (simp_all add: handle_keeps_served handle_event_policy)
  show ?thesis using assms
  proof (induction evs arbitrary: s)
    case (Cons v evs)
    let ?s = "HandleEvent (noting err) v s"
    have pol: "sc_Policy (fst ?s) = sc_Policy (fst s)" by (rule handle_event_policy)
    show ?case
    proof (cases "ev \<in> set evs")
      case True
      then show ?thesis using Cons.IH [of ?s] Cons.prems pol by simp
    next
      case False
      then have "v = ev" using Cons.prems(2) by simp
      then show ?thesis
        using keep [OF handle_serves [OF Cons.prems(1,3,4)]] pol Cons.prems(1) by simp
    qed
  qed simp
qed

text \<open>C2: From the write gate to the recipient: an event that the relay accepted and that matches the
  notifier's subscription has a known severity, and when it arrives anywhere in the stream, then for
  every rule that lists its class and whose threshold it reaches, the message for the rule's
  decoded key has been handed to the sender, or, for a summary rule, the item is queued for the rule's
  recipient, whatever else arrives and whatever sends fail.\<close>

theorem accepted_event_notifies:
  assumes "passes (RejectEvent X B s) authed ev" and "matches (subscription n) ev"
    and "LoadPolicy decode rf rr rp recipientsPath policyPath = Inr (sc_Policy (nf_service n))"
    and "ev \<in> set evs" and "main_loop F (noting err) evs (n, d, w) = (n', d', w')"
  shows "\<exists>it. Classify ev = Some it \<and> validSeverity (it_Severity it) \<and>
    (\<forall>r \<in> set (np_Rules (sc_Policy (nf_service n))).
       it_Class it \<in> set (rl_Classes r) \<and> severityRank (rl_SeverityMin r) \<le> severityRank (it_Severity it) \<longrightarrow>
       (if rl_DeliveryMode r = DeliveryImmediate
        then (key_of decode (rl_Recipient r), FormatImmediate it, rl_Scope r) \<in> set w'
        else it \<in> set (held (rl_Recipient r) (dg_pending (sc_Digest (nf_service n'))))))"
proof -
  have "ev_kind ev \<in> set SubscribedKinds"
    using assms(2) by (auto simp: matches_def subscription_def Filter_def SubscribedKinds_def)
  then obtain it where it: "Classify ev = Some it" using classify_kinds by blast
  have "Validate (rx_ext X) ev = None"
    using assms(1) by (auto simp: passes_def RejectEvent_def validateEventModelPolicy_def reject_def split: option.splits)
  then have v: "validSeverity (it_Severity it)" by (rule classify_severity [OF it])
  note w = loaded_keys [OF assms(3)]
  let ?p = "sc_Policy (nf_service n)"
  have "if rl_DeliveryMode r = DeliveryImmediate
      then (key_of decode (rl_Recipient r), FormatImmediate it, rl_Scope r) \<in> set w'
      else it \<in> set (held (rl_Recipient r) (dg_pending (sc_Digest (nf_service n'))))"
    if r: "r \<in> set (np_Rules ?p)" and m: "it_Class it \<in> set (rl_Classes r)"
      "severityRank (rl_SeverityMin r) \<le> severityRank (it_Severity it)" for r
  proof -
    have "r \<in> set (Match ?p (it_Class it) (it_Severity it))" using r m by (simp add: Match_def match_rules_filter)
    then have "served ?p it r (nf_service n', w')"
      using loop_serves [of "(nf_service n, w)" ev evs it r err] w(1) assms(4) it main_loop_props [OF assms(5)]
      by simp
    then show ?thesis unfolding served_def w(2) [OF r] fst_conv snd_conv .
  qed
  then show ?thesis using it v by blast
qed

text \<open>C38: The notifier's subscription, on a relay whose configuration leaves \<open>require_auth_kinds\<close> out: without
  authentication the stored events are refused with the demand to authenticate; for any authenticated key,
  as far as khatru's two filter policies let the subscription through, the answer is what the event
  store returns for it; and every event in an answer is stored, not older than the cursor, and of a kind
  that the service classifies.\<close>

theorem subscription_gate:
  assumes "event_store E stored" and "RequireAuthKinds (sv_cfg s) = None"
  shows "answer_req X E s e [] (subscription n) = Inl ''auth-required: authentication required'' \<and>
    (authed \<noteq> [] \<and> \<not> fst (rx_no_empty X (subscription n)) \<and> \<not> fst (rx_no_complex X (subscription n)) \<longrightarrow>
       answer_req X E s e authed (subscription n) = es_query E e (subscription n)) \<and>
    (\<forall>evs ev. answer_req X E s e authed (subscription n) = Inr evs \<and> ev \<in> set evs \<longrightarrow>
       ev \<in> stored e \<and> cu_LastSeen (nf_cursor n) \<le> ev_created_at ev \<and> Classify ev \<noteq> None)"
proof (intro conjI allI impI)
  have "KindOperationRequest \<in> set (f_kinds (subscription n))"
    by (simp add: subscription_def Filter_def SubscribedKinds_def)
  moreover have "KindOperationRequest \<in> set (protectedKinds s)"
    using assms(2) by (simp add: protectedKinds_def ProtectedKinds_def)
  ultimately show "answer_req X E s e [] (subscription n) = Inl ''auth-required: authentication required''"
    by (rule unanswered)
next
  assume a: "authed \<noteq> [] \<and> \<not> fst (rx_no_empty X (subscription n)) \<and> \<not> fst (rx_no_complex X (subscription n))"
  then have "passes (RejectFilter X s) authed (subscription n)"
    by (simp add: passes_def RejectFilter_def read_hook plain_hook_def)
  then show "answer_req X E s e authed (subscription n) = es_query E e (subscription n)"
    by (simp add: answer_req_def query_hook_def first_rejection_None [symmetric])
next
  fix evs ev
  assume "answer_req X E s e authed (subscription n) = Inr evs \<and> ev \<in> set evs"
  then have l: "ev \<in> stored e \<and> matches (subscription n) ev"
    unfolding answered using event_store.query_law [OF assms(1)] by blast
  then have "ev_kind ev \<in> set SubscribedKinds \<and> cu_LastSeen (nf_cursor n) \<le> ev_created_at ev"
    by (simp add: matches_def subscription_def Filter_def SubscribedKinds_def)
  then show "ev \<in> stored e" "cu_LastSeen (nf_cursor n) \<le> ev_created_at ev" "Classify ev \<noteq> None"
    using l classify_kinds by blast+
qed

subsection \<open>Witnesses\<close>

definition notifier0 :: notifier where
  "notifier0 = \<lparr>nf_cursor = \<lparr>cu_LastSeen = 1000, cu_path = ''cursor''\<rparr>, nf_sender = local_sender,
     nf_service = NewService sample_policy\<rparr>"

text \<open>A relay that takes backup notices from everybody and protects the default kinds.\<close>

definition notice_server :: "mem server" where
  "notice_server = plain_server
     \<lparr>sv_policy := \<lparr>st_db = old_disk\<lparr>mem_buckets := [(bucketKindsAllowed, [(''2212'', [])])]\<rparr>, st_allowlist = False\<rparr>,
      sv_cfg := zero_config\<lparr>MaxContentLength := 100000\<rparr>\<rparr>"

lemma failed_backup_passes: "passes (RejectEvent sample_relay_ext olddb notice_server) ''anyone'' (backup_failed\<lparr>ev_pubkey := ''op''\<rparr>)"
  by code_simp

lemma accepted_event_notifies_witness:
  "\<exists>n' d' w'. main_loop (map_files []) (noting (\<lambda>_ _ _. Some ''offline'')) [at_time 2000, backup_failed\<lparr>ev_pubkey := ''op''\<rparr>]
       (notifier0, sample_disk, []) = (n', d', w') \<and>
     (''ops'', FormatImmediate critical_item, ScopeLocalOnly) \<in> set w'"
proof -
  let ?ev = "backup_failed\<lparr>ev_pubkey := ''op''\<rparr>"
  obtain n' d' w' where run: "main_loop (map_files []) (noting (\<lambda>_ _ _. Some ''offline'')) [at_time 2000, ?ev]
       (notifier0, sample_disk, []) = (n', d', w')"
    by (rule prod_cases3)
  have sub: "matches (subscription notifier0) ?ev" by code_simp
  have c: "Classify ?ev = Some critical_item" by code_simp
  have p: "sc_Policy (nf_service notifier0) = sample_policy" by (simp add: notifier0_def NewService_def)
  have l: "LoadPolicy sample_decoder (\<lambda>_. Inr []) (\<lambda>_. Inr [ops_recipient]) (\<lambda>_. Inr [backup_rule, digest_rule])
     ''recipients.toml'' ''policy.toml'' = Inr (sc_Policy (nf_service notifier0))"
    unfolding p by (rule sample_loads)
  have r: "backup_rule \<in> set (np_Rules sample_policy)" by code_simp
  have m: "it_Class critical_item \<in> set (rl_Classes backup_rule) \<and>
      severityRank (rl_SeverityMin backup_rule) \<le> severityRank (it_Severity critical_item)" by code_simp
  have i: "rl_DeliveryMode backup_rule = DeliveryImmediate" "key_of sample_decoder (rl_Recipient backup_rule) = ''ops''"
    "rl_Scope backup_rule = ScopeLocalOnly"
    by code_simp+
  obtain it where it: "Classify ?ev = Some it" and
    s: "\<forall>r \<in> set (np_Rules (sc_Policy (nf_service notifier0))).
       it_Class it \<in> set (rl_Classes r) \<and> severityRank (rl_SeverityMin r) \<le> severityRank (it_Severity it) \<longrightarrow>
       (if rl_DeliveryMode r = DeliveryImmediate
        then (key_of sample_decoder (rl_Recipient r), FormatImmediate it, rl_Scope r) \<in> set w'
        else it \<in> set (held (rl_Recipient r) (dg_pending (sc_Digest (nf_service n')))))"
    using accepted_event_notifies [OF failed_backup_passes sub l _ run] by auto
  have "it = critical_item" using it c by simp
  from s [unfolded this p, rule_format, OF r m] have "(''ops'', FormatImmediate critical_item, ScopeLocalOnly) \<in> set w'"
    by (simp only: i if_True)
  then show ?thesis using run by blast
qed

lemma subscription_gate_witness:
  "answer_req sample_relay_ext stored_events notice_server [backup_failed] [] (subscription notifier0) =
     Inl ''auth-required: authentication required'' \<and>
   answer_req sample_relay_ext stored_events notice_server [backup_failed] ''notifier'' (subscription notifier0) =
     Inr [backup_failed] \<and> Classify backup_failed \<noteq> None"
proof -
  have r: "RequireAuthKinds (sv_cfg notice_server) = None" by code_simp
  have q: "es_query stored_events [backup_failed] (subscription notifier0) = Inr [backup_failed]" by code_simp
  have f: "\<not> fst (rx_no_empty sample_relay_ext (subscription notifier0))"
    "\<not> fst (rx_no_complex sample_relay_ext (subscription notifier0))"
    by (simp_all add: sample_relay_ext_def subscription_def Filter_def SubscribedKinds_def)
  note g = subscription_gate [OF list_event_store r, of sample_relay_ext 5000 "[backup_failed]" notifier0 "''notifier''"]
  have "answer_req sample_relay_ext stored_events notice_server [backup_failed] ''notifier'' (subscription notifier0) =
      Inr [backup_failed]"
    using g f q by simp
  then show ?thesis using g by simp
qed

end
